theory Spec2Isabelle
  imports Complex_Main
begin

section \<open>Data model\<close>

text \<open>
  The repository holds two variants of the same shooting-range component: \<^verbatim>\<open>src/index.tsx\<close>
  and \<^verbatim>\<open>src/unnamed/part_000\<close>. Both are embedded. Definitions taken from
  \<^verbatim>\<open>index.tsx\<close> keep the source's names; definitions taken from \<^verbatim>\<open>part_000\<close> carry
  the suffix \<open>_p0\<close>.

  JavaScript numbers are modelled as \<open>real\<close> (coordinates, velocities, scale factors)
  and as \<open>int\<close> where the program only ever holds integers (health, millisecond
  timestamps). Rounding of IEEE doubles is not modelled. At \<open>z = 0\<close> JavaScript's
  \<open>600 / z\<close> is an infinity while HOL's is \<open>0\<close>; statements that read a projection
  therefore assume \<open>ez e \<noteq> 0\<close>.
\<close>

datatype EntityType = HVT | Civilian | Bodyguard | Barrel | Crate | Intel | Glass

datatype Behavior = static | pacing | erratic | flanking

datatype ObjectiveType = recon | destroy | eliminate | retrieve

datatype GameState = briefing | playing | success | failure

text \<open>
  \<open>interface Entity\<close>. The fields \<open>id, x, y, z, type, description, health\<close> of the source are
  \<open>eid, ex, ey, ez, etype, edescription, ehealth\<close> here.
\<close>

record Entity =
  eid :: string
  ex :: real
  ey :: real
  ez :: real
  speed :: real
  etype :: EntityType
  edescription :: string
  isDead :: bool
  behavior :: Behavior
  offset :: real
  ehealth :: int
  isHostile :: bool
  lastFireTime :: int

text \<open>\<open>interface Particle\<close>; \<open>x, y, size\<close> of the source are \<open>px, py, psize\<close>.\<close>

record Particle =
  px :: real
  py :: real
  vx :: real
  vy :: real
  life :: real
  color :: string
  psize :: real

text \<open>
  \<open>interface Objective\<close>; \<open>id, type, description\<close> are \<open>oid, otype, odescription\<close>. The
  fields \<open>targetId\<close> and \<open>isComplete\<close> that only \<^verbatim>\<open>index.tsx\<close> declares are never read
  or written by the program and are left out.
\<close>

record Objective =
  oid :: string
  otype :: ObjectiveType
  odescription :: string

text \<open>\<open>interface Mission\<close>; the field \<open>briefing\<close> is \<open>briefingText\<close>.\<close>

record Mission =
  title :: string
  briefingText :: string
  objectives :: "Objective list"
  environment :: string
  windSpeed :: real
  windDir :: real

text \<open>
  Calls with an effect outside the component: \<open>setGameState\<close> (recorded so that the
  number of transitions can be counted) and \<open>speakSpotter\<close>.
\<close>

datatype Effect = SetGameState GameState | SpeakSpotter string

text \<open>One entity as it is placed on the canvas: \<open>ctx.translate(rx, ry); ctx.scale(scale, scale)\<close>.\<close>

record Placement =
  rx :: real
  ry :: real
  scale :: real

text \<open>
  The state of the \<open>App\<close> component: its \<open>useState\<close> cells and \<open>useRef\<close> cells. The
  record is the union of the cells of both variants.
  \<^item> both: \<open>mission, isLoading, gameState, currentObjIndex, mousePos, swayOffset, screenShake\<close>;
  \<^item> \<^verbatim>\<open>index.tsx\<close> only: \<open>entities, particles, playerHealth, shotsFired\<close>, and \<open>timeouts\<close>,
    the callbacks queued by \<open>setTimeout\<close> that have not fired yet (each is identified by
    the entity \<open>ent\<close> its closure captured);
  \<^item> \<^verbatim>\<open>part_000\<close> only: \<open>healthUI, entitiesRef, particlesRef, playerHealthRef\<close>;
  \<^item> \<open>canvas\<close>: the placement of each entity in the latest frame (\<open>None\<close> for an entity
    the frame skipped);
  \<^item> \<open>rng\<close>: how many results of \<open>Math.random()\<close> have been consumed;
  \<^item> \<open>effects\<close>: the \<open>setGameState\<close> and \<open>speakSpotter\<close> calls made so far, oldest first.
\<close>

record App =
  mission :: "Mission option"
  isLoading :: bool
  gameState :: GameState
  currentObjIndex :: nat
  mousePos :: "real \<times> real"
  swayOffset :: "real \<times> real"
  screenShake :: real
  entities :: "Entity list"
  particles :: "Particle list"
  playerHealth :: int
  shotsFired :: nat
  timeouts :: "Entity list"
  healthUI :: int
  entitiesRef :: "Entity list"
  particlesRef :: "Particle list"
  playerHealthRef :: int
  canvas :: "Placement option list"
  rng :: nat
  effects :: "Effect list"

definition MAX_PLAYER_HEALTH :: int where
  "MAX_PLAYER_HEALTH = 100"

text \<open>An uncaught \<open>TypeError\<close> (a property read on \<open>undefined\<close>).\<close>

datatype Error = TypeError

text \<open>What the mission provider call comes back with: it throws, or it yields parsed data.\<close>

datatype Response = Rejected | Resolved Mission

section \<open>Shared helpers\<close>

text \<open>\<open>Math.hypot(a, b)\<close>.\<close>

definition hypot :: "real \<Rightarrow> real \<Rightarrow> real" where
  "hypot a b = sqrt (a\<^sup>2 + b\<^sup>2)"

text \<open>\<open>xs.slice(-n)\<close>, and also \<open>if (xs.length > n) xs.splice(0, xs.length - n)\<close>.\<close>

definition lastN :: "nat \<Rightarrow> 'a list \<Rightarrow> 'a list" where
  "lastN n xs = drop (length xs - n) xs"

text \<open>The decimal digits of \<open>i\<close> in a template literal such as \<open>`barrel-${i}`\<close>.\<close>

fun decimal :: "nat \<Rightarrow> string" where
  "decimal n = (if n < 10 then [char_of (48 + n)] else decimal (n div 10) @ [char_of (48 + n mod 10)])"

definition speakSpotter :: "string \<Rightarrow> App \<Rightarrow> App" where
  "speakSpotter text s = s\<lparr>effects := effects s @ [SpeakSpotter text]\<rparr>"

definition setGameState :: "GameState \<Rightarrow> App \<Rightarrow> App" where
  "setGameState g s = s\<lparr>gameState := g, effects := effects s @ [SetGameState g]\<rparr>"

text \<open>
  The particles one \<open>createParticles\<close> call builds; \<open>rnd\<close> is the stream of
  \<open>Math.random()\<close> results and \<open>k\<close> the position of the next unread one.
\<close>

fun newParticles :: "(nat \<Rightarrow> real) \<Rightarrow> nat \<Rightarrow> real \<Rightarrow> real \<Rightarrow> string \<Rightarrow> nat \<Rightarrow> real \<Rightarrow> Particle list" where
  "newParticles rnd k x y c 0 sz = []"
| "newParticles rnd k x y c (Suc n) sz =
     \<lparr>px = x, py = y, vx = (rnd k - 0.5) * 10, vy = (rnd (k + 1) - 0.5) * 10,
      life = 1.0, color = c, psize = sz\<rparr> # newParticles rnd (k + 2) x y c n sz"


section \<open>\<^verbatim>\<open>src/index.tsx\<close>\<close>

subsection \<open>Projection\<close>

text \<open>
  The source writes the projection out at each place that needs it. \<open>renderProjection\<close>
  is lines 337-339 (inside \<open>render\<close>; \<open>cw, ch\<close> are \<open>canvas.width, canvas.height\<close>) and
  \<open>hitProjection\<close> is lines 453-455 (inside \<open>handleShoot\<close>; \<open>w, h\<close> are
  \<open>window.innerWidth, window.innerHeight\<close>). \<open>mp\<close> is \<open>mousePos.current\<close>.
\<close>

definition renderProjection :: "real \<times> real \<Rightarrow> real \<Rightarrow> real \<Rightarrow> Entity \<Rightarrow> Placement" where
  "renderProjection mp cw ch ent =
     \<lparr>rx = ex ent - (fst mp - cw / 2) * (1 - 400 / ez ent),
      ry = ey ent - (snd mp - ch / 2) * (1 - 400 / ez ent),
      scale = 600 / ez ent\<rparr>"

definition hitProjection :: "real \<times> real \<Rightarrow> real \<Rightarrow> real \<Rightarrow> Entity \<Rightarrow> Placement" where
  "hitProjection mp w h ent =
     \<lparr>rx = ex ent - (fst mp - w / 2) * (1 - 400 / ez ent),
      ry = ey ent - (snd mp - h / 2) * (1 - 400 / ez ent),
      scale = 600 / ez ent\<rparr>"

subsection \<open>Particles\<close>

text \<open>\<open>createParticles\<close>, lines 229-242: the new burst is appended and the last 100 kept.\<close>

definition createParticles :: "(nat \<Rightarrow> real) \<Rightarrow> real \<Rightarrow> real \<Rightarrow> string \<Rightarrow> nat \<Rightarrow> real \<Rightarrow> App \<Rightarrow> App" where
  "createParticles rnd x y c count sz s =
     s\<lparr>particles := lastN 100 (particles s @ newParticles rnd (rng s) x y c count sz),
       rng := rng s + 2 * count\<rparr>"

text \<open>The update passed to \<open>setParticles\<close> in \<open>render\<close>, lines 371-376: filter, then move and age.\<close>

definition advanceParticles :: "Particle list \<Rightarrow> Particle list" where
  "advanceParticles prev =
     map (\<lambda>p. p\<lparr>px := px p + vx p, py := py p + vy p, life := life p - 0.02\<rparr>)
         (filter (\<lambda>p. life p > 0) prev)"

subsection \<open>Entity simulation and the frame\<close>

text \<open>The behaviour scripts, lines 316-322.\<close>

definition behave :: "real \<Rightarrow> Entity \<Rightarrow> Entity" where
  "behave time ent =
     (if behavior ent = pacing then ent\<lparr>ex := ex ent + sin (time + offset ent) * speed ent\<rparr>
      else if behavior ent = flanking then
        (let e1 = ent\<lparr>ez := ez ent - 0.5\<rparr>;
             e2 = e1\<lparr>ex := ex e1 + cos (time * 0.5) * 2\<rparr>
         in if ez e2 < 400 then e2\<lparr>ez := 1000\<rparr> else e2)
      else ent)"

text \<open>
  Return fire, lines 325-334. \<open>now\<close> stands for every \<open>Date.now()\<close> read of one frame.
\<close>

definition returnFire :: "(nat \<Rightarrow> real) \<Rightarrow> real \<Rightarrow> real \<Rightarrow> int \<Rightarrow> Entity \<Rightarrow> App \<Rightarrow> Entity \<times> App" where
  "returnFire rnd cw ch now ent s =
     (if isHostile ent \<and> now - lastFireTime ent > 2000 then
        (let ent1 = ent\<lparr>lastFireTime := now\<rparr>;
             s1 = s\<lparr>screenShake := 15\<rparr>;
             s2 = s1\<lparr>playerHealth := max 0 (playerHealth s1 - 10)\<rparr>;
             s3 = createParticles rnd (cw / 2) (ch / 2) ''#ff0000'' 5 4 s2;
             fx = ex ent1 - (fst (mousePos s3) - cw / 2) * (1 - 400 / ez ent1);
             fy = ey ent1 - (snd (mousePos s3) - ch / 2) * (1 - 400 / ez ent1);
             s4 = createParticles rnd fx fy ''#ffff00'' 10 2 s3
         in (ent1, s4))
      else (ent, s))"

text \<open>
  The body of \<open>entities.forEach\<close>, lines 311-368. The entity objects are mutated in place;
  the function returns the entity after the frame, where it was placed on the canvas
  (\<open>None\<close> when the early \<open>return\<close> skipped it), and the state.
\<close>

definition renderEntity ::
  "(nat \<Rightarrow> real) \<Rightarrow> real \<Rightarrow> real \<Rightarrow> real \<Rightarrow> int \<Rightarrow> Entity \<Rightarrow> App \<Rightarrow> Entity \<times> Placement option \<times> App" where
  "renderEntity rnd cw ch time now ent s =
     (if isDead ent \<and> etype ent \<noteq> Barrel then (ent, None, s)
      else
        (case (if \<not> isDead ent then returnFire rnd cw ch now (behave time ent) s else (ent, s)) of
           (ent', s') \<Rightarrow> (ent', Some (renderProjection (mousePos s') cw ch ent'), s')))"

fun renderEntities ::
  "(nat \<Rightarrow> real) \<Rightarrow> real \<Rightarrow> real \<Rightarrow> real \<Rightarrow> int \<Rightarrow> Entity list \<Rightarrow> App
     \<Rightarrow> Entity list \<times> Placement option list \<times> App" where
  "renderEntities rnd cw ch time now [] s = ([], [], s)"
| "renderEntities rnd cw ch time now (ent # rest) s =
     (case renderEntity rnd cw ch time now ent s of
        (ent', pl, s') \<Rightarrow>
          (case renderEntities rnd cw ch time now rest s' of
             (rest', pls, s'') \<Rightarrow> (ent' # rest', pl # pls, s'')))"

text \<open>
  \<open>render\<close>, lines 287-430, one frame. \<open>w, h\<close> are the window's inner size, which the
  frame copies to the canvas; \<open>time\<close> is \<open>(Date.now() - startTime) / 1000\<close>. State cells
  read through the closure (\<open>mission\<close>, \<open>currentObjIndex\<close>, \<open>playerHealth\<close>) have the value
  they had when the frame began, \<open>s0\<close>; queued functional updates are applied in call
  order. Reading \<open>mission.objectives[currentObjIndex].description\<close> for the HUD (line 414)
  throws when the index is out of range, before the health check of line 424 runs.
\<close>

definition render :: "(nat \<Rightarrow> real) \<Rightarrow> real \<Rightarrow> real \<Rightarrow> real \<Rightarrow> int \<Rightarrow> App \<Rightarrow> Error + App" where
  "render rnd w h time now s0 =
     (let s1 = s0\<lparr>screenShake := screenShake s0 * 0.9\<rparr>;
          heartbeat = 0.5 + sin (time * 2.5) * 0.2;
          s2 = s1\<lparr>swayOffset :=
                    (sin (time * 0.7) * 12 * heartbeat + (rnd (rng s1) - 0.5) * screenShake s1,
                     cos (time * 1.1) * 8 * heartbeat + (rnd (rng s1 + 1) - 0.5) * screenShake s1),
                  rng := rng s1 + 2\<rparr>
      in case renderEntities rnd w h time now (entities s2) s2 of
           (es, pls, s3) \<Rightarrow>
             (let s4 = s3\<lparr>entities := es, canvas := pls\<rparr>;
                  s5 = s4\<lparr>particles := advanceParticles (particles s4)\<rparr>
              in case mission s0 of
                   None \<Rightarrow> Inl TypeError
                 | Some m \<Rightarrow>
                     if currentObjIndex s0 < length (objectives m) then
                       (if playerHealth s0 \<le> 0 then
                          Inr (speakSpotter ''Agent neutralized. Mission failed.''
                                 (setGameState failure s5))
                        else Inr s5)
                     else Inl TypeError))"

text \<open>The effect that owns the frame loop, lines 276-434: it runs only while playing.\<close>

definition renderEffect :: "(nat \<Rightarrow> real) \<Rightarrow> real \<Rightarrow> real \<Rightarrow> real \<Rightarrow> int \<Rightarrow> App \<Rightarrow> Error + App" where
  "renderEffect rnd w h time now s =
     (if gameState s \<noteq> playing \<or> mission s = None then Inr s else render rnd w h time now s)"

subsection \<open>Hit test, objectives and the chain reaction\<close>

text \<open>\<open>mission?.objectives[currentObjIndex]\<close>: \<open>None\<close> is \<open>undefined\<close>.\<close>

definition currentObj :: "App \<Rightarrow> Objective option" where
  "currentObj s =
     (case mission s of
        None \<Rightarrow> None
      | Some m \<Rightarrow>
          if currentObjIndex s < length (objectives m) then Some (objectives m ! currentObjIndex s)
          else None)"

text \<open>\<open>obj?.type === t\<close>.\<close>

definition objIs :: "Objective option \<Rightarrow> ObjectiveType \<Rightarrow> bool" where
  "objIs obj t = (case obj of None \<Rightarrow> False | Some ob \<Rightarrow> otype ob = t)"

text \<open>
  \<open>advanceObjective\<close>, lines 498-508. \<open>s0\<close> holds the values the closure sees
  (\<open>mission\<close>, \<open>currentObjIndex\<close>); \<open>s\<close> collects the updates.
\<close>

definition advanceObjective :: "App \<Rightarrow> App \<Rightarrow> App" where
  "advanceObjective s0 s =
     (case mission s0 of
        None \<Rightarrow> s
      | Some m \<Rightarrow>
          (let nextIndex = currentObjIndex s0 + 1
           in if nextIndex \<ge> length (objectives m) then
                speakSpotter ''All objectives clear. Area sanitized. Good work.''
                  (setGameState success s)
              else
                speakSpotter (''Objective complete. Next task: '' @ odescription (objectives m ! nextIndex))
                  (s\<lparr>currentObjIndex := nextIndex\<rparr>)))"

text \<open>
  The body of \<open>entities.map\<close> in \<open>handleShoot\<close>, lines 450-488, with the flag
  \<open>hitOccurred\<close> threaded through.
\<close>

definition shootEntity ::
  "(nat \<Rightarrow> real) \<Rightarrow> real \<Rightarrow> real \<Rightarrow> App \<Rightarrow> real \<Rightarrow> real \<Rightarrow> Entity \<Rightarrow> bool \<Rightarrow> App \<Rightarrow> Entity \<times> bool \<times> App" where
  "shootEntity rnd w h s0 impactX impactY ent hitOccurred s =
     (if isDead ent \<and> etype ent \<noteq> Barrel then (ent, hitOccurred, s)
      else
        (let p = hitProjection (mousePos s) w h ent;
             dx = impactX - rx p;
             dy = impactY - ry p;
             isHit = (\<bar>dx\<bar> < 25 * scale p \<and> \<bar>dy\<bar> < 50 * scale p)
         in if isHit \<and> \<not> isDead ent then
              (let s1 = createParticles rnd impactX impactY
                          (if etype ent = Barrel then ''#ffaa00'' else ''#ff0000'') 15 2 s;
                   s2 = (if etype ent = Barrel then
                           (let a = s1\<lparr>screenShake := 40\<rparr>;
                                b = createParticles rnd impactX impactY ''#ff5500'' 40 5 a;
                                c = b\<lparr>timeouts := timeouts b @ [ent]\<rparr>
                            in if objIs (currentObj s0) destroy then advanceObjective s0 c else c)
                         else s1);
                   s3 = (if etype ent = Intel \<and> objIs (currentObj s0) retrieve
                         then advanceObjective s0 s2 else s2);
                   s4 = (if etype ent = HVT \<and> objIs (currentObj s0) eliminate
                         then advanceObjective s0 s3 else s3)
               in (ent\<lparr>isDead := True, ehealth := 0\<rparr>, True, s4))
            else (ent, hitOccurred, s)))"

fun shootEntities ::
  "(nat \<Rightarrow> real) \<Rightarrow> real \<Rightarrow> real \<Rightarrow> App \<Rightarrow> real \<Rightarrow> real \<Rightarrow> Entity list \<Rightarrow> bool \<Rightarrow> App
     \<Rightarrow> Entity list \<times> bool \<times> App" where
  "shootEntities rnd w h s0 impactX impactY [] hitOccurred s = ([], hitOccurred, s)"
| "shootEntities rnd w h s0 impactX impactY (ent # rest) hitOccurred s =
     (case shootEntity rnd w h s0 impactX impactY ent hitOccurred s of
        (ent', hit', s') \<Rightarrow>
          (case shootEntities rnd w h s0 impactX impactY rest hit' s' of
             (rest', hit'', s'') \<Rightarrow> (ent' # rest', hit'', s'')))"

text \<open>\<open>handleShoot\<close>, lines 436-496.\<close>

definition handleShoot :: "(nat \<Rightarrow> real) \<Rightarrow> real \<Rightarrow> real \<Rightarrow> App \<Rightarrow> App" where
  "handleShoot rnd w h s0 =
     (if gameState s0 \<noteq> playing then s0
      else
        (let s1 = s0\<lparr>shotsFired := shotsFired s0 + 1\<rparr>;
             s2 = s1\<lparr>screenShake := 10\<rparr>;
             centerX = w / 2;
             centerY = h / 2;
             impactX = centerX + fst (swayOffset s2);
             impactY = centerY + snd (swayOffset s2)
         in case shootEntities rnd w h s0 impactX impactY (entities s0) False s2 of
              (nextEntities, hitOccurred, s3) \<Rightarrow>
                (let s4 = (if \<not> hitOccurred
                           then createParticles rnd impactX impactY ''#ffffff'' 3 1 s3 else s3)
                 in s4\<lparr>entities := nextEntities\<rparr>)))"

text \<open>
  The update the \<open>setTimeout\<close> callback passes to \<open>setEntities\<close>, lines 471-477: \<open>ent\<close>
  is the barrel the closure captured when it was hit.
\<close>

definition chainReaction :: "Entity \<Rightarrow> Entity list \<Rightarrow> Entity list" where
  "chainReaction ent currentEntities =
     map (\<lambda>other.
            (let d = hypot (ex ent - ex other) (ey ent - ey other)
             in if d < 300 \<and> eid other \<noteq> eid ent then other\<lparr>isDead := True\<rparr> else other))
         currentEntities"

text \<open>The oldest queued callback fires (all are queued with the same delay of 50 ms).\<close>

definition timeoutFires :: "App \<Rightarrow> App" where
  "timeoutFires s =
     (case timeouts s of
        [] \<Rightarrow> s
      | ent # rest \<Rightarrow> s\<lparr>entities := chainReaction ent (entities s), timeouts := rest\<rparr>)"


subsection \<open>Mission loading\<close>

text \<open>
  \<open>spawnEntities\<close>, lines 153-227. \<open>Math.random()\<close> is read for the target's \<open>x\<close> and
  \<open>offset\<close>, then for each barrel's \<open>x\<close> and \<open>z\<close>.
\<close>

definition spawnEntities :: "(nat \<Rightarrow> real) \<Rightarrow> real \<Rightarrow> real \<Rightarrow> App \<Rightarrow> App" where
  "spawnEntities rnd w h s =
     (let k = rng s;
          hvt = \<lparr>eid = ''hvt-1'', ex = 400 + rnd k * 800, ey = h / 2, ez = 800, speed = 2,
                 etype = HVT, edescription = ''The High Value Target'', isDead = False,
                 behavior = pacing, offset = rnd (k + 1) * 10, ehealth = 100,
                 isHostile = False, lastFireTime = 0\<rparr>;
          barrels = map (\<lambda>i. \<lparr>eid = ''barrel-'' @ decimal i, ex = rnd (k + 2 + 2 * i) * w,
                                ey = h / 2 + 50, ez = 600 + rnd (k + 3 + 2 * i) * 400, speed = 0,
                                etype = Barrel, edescription = ''Explosive chemical drum'',
                                isDead = False, behavior = static, offset = 0, ehealth = 1,
                                isHostile = False, lastFireTime = 0\<rparr>) [0..<5];
          guard = \<lparr>eid = ''guard-1'', ex = 200, ey = h / 2, ez = 700, speed = 1.5,
                   etype = Bodyguard, edescription = ''Elite security personnel'', isDead = False,
                   behavior = flanking, offset = 0, ehealth = 100,
                   isHostile = True, lastFireTime = 0\<rparr>;
          intel = \<lparr>eid = ''intel-1'', ex = w / 2 + 100, ey = h / 2 + 20, ez = 650, speed = 0,
                   etype = Intel, edescription = ''Encrypted data drive'', isDead = False,
                   behavior = static, offset = 0, ehealth = 10,
                   isHostile = False, lastFireTime = 0\<rparr>
      in s\<lparr>entities := hvt # barrels @ [guard, intel], rng := k + 12\<rparr>)"

text \<open>
  \<open>generateMission\<close>, lines 108-151, from the moment the provider call settles.
  \<open>Rejected\<close> covers a throwing provider call and a throwing \<open>JSON.parse\<close>; both land in
  the \<open>catch\<close> block, which logs and clears \<open>isLoading\<close>. Parsed data whose objective
  list is empty makes \<open>data.objectives[0].description\<close> throw after the mission has been
  stored, and lands in the same \<open>catch\<close>. (Data without an \<open>objectives\<close> field at all is
  not representable in the typed record; the empty list stands for it.)
\<close>

definition generateMission :: "(nat \<Rightarrow> real) \<Rightarrow> real \<Rightarrow> real \<Rightarrow> Response \<Rightarrow> App \<Rightarrow> App" where
  "generateMission rnd w h resp s =
     (case resp of
        Rejected \<Rightarrow> s\<lparr>isLoading := False\<rparr>
      | Resolved data \<Rightarrow>
          (let s1 = s\<lparr>mission := Some data\<rparr>;
               s2 = spawnEntities rnd w h s1;
               s3 = s2\<lparr>isLoading := False\<rparr>
           in case objectives data of
                [] \<Rightarrow> s3\<lparr>isLoading := False\<rparr>
              | ob # _ \<Rightarrow>
                  speakSpotter (''Mission: '' @ title data @ ''. Objective one: ''
                                  @ odescription ob @ ''.'') s3))"

subsection \<open>The component as a transition system\<close>

text \<open>
  What can happen to the mounted component. Each handler runs to completion before the
  next event (the page is single-threaded), and the state updates it queued are applied
  before the next handler runs.
  \<^item> \<open>MissionArrives resp w h\<close>: the provider call made on mount settles; \<open>w, h\<close> is the
    window's inner size at that moment;
  \<^item> \<open>MouseMove x y\<close>: the \<open>mousemove\<close> listener;
  \<^item> \<open>StartPressed\<close>: the button of the briefing panel, which exists only while the
    game is in \<open>briefing\<close> with a mission loaded;
  \<^item> \<open>Frame w h time now\<close>: one run of \<open>render\<close>;
  \<^item> \<open>MouseDown w h\<close>: \<open>onMouseDown\<close> of the canvas, which exists once loading is over;
  \<^item> \<open>TimeoutFires\<close>: the oldest pending \<open>setTimeout\<close> callback runs.
  Reloading the page (the button of the result panel) starts a new run from the initial
  state and is not an event.
\<close>

datatype Event =
    MissionArrives Response real real
  | MouseMove real real
  | StartPressed
  | Frame real real real int
  | MouseDown real real
  | TimeoutFires

definition initial :: App where
  "initial =
     \<lparr>mission = None, isLoading = True, gameState = briefing, currentObjIndex = 0,
      mousePos = (0, 0), swayOffset = (0, 0), screenShake = 0,
      entities = [], particles = [], playerHealth = MAX_PLAYER_HEALTH, shotsFired = 0,
      timeouts = [],
      healthUI = MAX_PLAYER_HEALTH, entitiesRef = [], particlesRef = [],
      playerHealthRef = MAX_PLAYER_HEALTH,
      canvas = [], rng = 0, effects = []\<rparr>"

definition startPressed :: "App \<Rightarrow> App" where
  "startPressed s =
     (if \<not> isLoading s \<and> gameState s = briefing \<and> mission s \<noteq> None
      then setGameState playing s else s)"

fun step :: "(nat \<Rightarrow> real) \<Rightarrow> Event \<Rightarrow> App \<Rightarrow> Error + App" where
  "step rnd (MissionArrives resp w h) s =
     Inr (if isLoading s then generateMission rnd w h resp s else s)"
| "step rnd (MouseMove x y) s = Inr (s\<lparr>mousePos := (x, y)\<rparr>)"
| "step rnd StartPressed s = Inr (startPressed s)"
| "step rnd (Frame w h time now) s = renderEffect rnd w h time now s"
| "step rnd (MouseDown w h) s = Inr (if isLoading s then s else handleShoot rnd w h s)"
| "step rnd TimeoutFires s = Inr (timeoutFires s)"

text \<open>A run stops at the first uncaught error: React unmounts the component.\<close>

fun run :: "(nat \<Rightarrow> real) \<Rightarrow> Event list \<Rightarrow> App \<Rightarrow> Error + App" where
  "run rnd [] s = Inr s"
| "run rnd (ev # evs) s =
     (case step rnd ev s of Inl e \<Rightarrow> Inl e | Inr s' \<Rightarrow> run rnd evs s')"

section \<open>\<^verbatim>\<open>src/unnamed/part_000\<close>\<close>

subsection \<open>Projection\<close>

text \<open>Lines 263-265 (inside \<open>render\<close>) and lines 309-311 (inside \<open>handleShoot\<close>).\<close>

definition renderProjection_p0 :: "real \<times> real \<Rightarrow> real \<Rightarrow> real \<Rightarrow> Entity \<Rightarrow> Placement" where
  "renderProjection_p0 mp cw ch ent =
     \<lparr>rx = ex ent - (fst mp - cw / 2) * (1 - 400 / ez ent),
      ry = ey ent - (snd mp - ch / 2) * (1 - 400 / ez ent),
      scale = 600 / ez ent\<rparr>"

definition hitProjection_p0 :: "real \<times> real \<Rightarrow> real \<Rightarrow> real \<Rightarrow> Entity \<Rightarrow> Placement" where
  "hitProjection_p0 mp w h ent =
     \<lparr>rx = ex ent - (fst mp - w / 2) * (1 - 400 / ez ent),
      ry = ey ent - (snd mp - h / 2) * (1 - 400 / ez ent),
      scale = 600 / ez ent\<rparr>"

subsection \<open>Particles\<close>

text \<open>\<open>createParticles\<close>, lines 179-191: push the burst, then cut the list to its last 200.\<close>

definition createParticles_p0 :: "(nat \<Rightarrow> real) \<Rightarrow> real \<Rightarrow> real \<Rightarrow> string \<Rightarrow> nat \<Rightarrow> real \<Rightarrow> App \<Rightarrow> App" where
  "createParticles_p0 rnd x y c count sz s =
     s\<lparr>particlesRef := lastN 200 (particlesRef s @ newParticles rnd (rng s) x y c count sz),
       rng := rng s + 2 * count\<rparr>"

text \<open>The particle simulation of \<open>render\<close>, lines 276-280: move and age, then filter.\<close>

definition advanceParticles_p0 :: "Particle list \<Rightarrow> Particle list" where
  "advanceParticles_p0 ps =
     filter (\<lambda>p. life p > 0)
       (map (\<lambda>p. p\<lparr>px := px p + vx p, py := py p + vy p, life := life p - 0.02\<rparr>) ps)"

subsection \<open>Entity simulation and the frame\<close>

text \<open>The behaviour scripts, lines 253-254.\<close>

definition behave_p0 :: "real \<Rightarrow> Entity \<Rightarrow> Entity" where
  "behave_p0 time ent =
     (let e1 = (if behavior ent = pacing
                then ent\<lparr>ex := ex ent + sin (time + offset ent) * speed ent\<rparr> else ent)
      in if behavior e1 = flanking then
           (let e2 = e1\<lparr>ez := ez e1 - 0.5\<rparr>
            in e2\<lparr>ex := ex e2 + cos (time * 0.5) * 2\<rparr>)
         else e1)"

text \<open>Return fire, lines 255-261.\<close>

definition returnFire_p0 :: "(nat \<Rightarrow> real) \<Rightarrow> real \<Rightarrow> real \<Rightarrow> int \<Rightarrow> Entity \<Rightarrow> App \<Rightarrow> Entity \<times> App" where
  "returnFire_p0 rnd cw ch now ent s =
     (if isHostile ent \<and> now - lastFireTime ent > 3000 then
        (let ent1 = ent\<lparr>lastFireTime := now\<rparr>;
             s1 = s\<lparr>screenShake := 20\<rparr>;
             s2 = s1\<lparr>playerHealthRef := playerHealthRef s1 - 10\<rparr>;
             s3 = s2\<lparr>healthUI := playerHealthRef s2\<rparr>;
             s4 = createParticles_p0 rnd (cw / 2) (ch / 2) ''#ff0000'' 5 4 s3
         in (ent1, s4))
      else (ent, s))"

text \<open>The body of \<open>entitiesRef.current.forEach\<close>, lines 250-273.\<close>

definition renderEntity_p0 ::
  "(nat \<Rightarrow> real) \<Rightarrow> real \<Rightarrow> real \<Rightarrow> real \<Rightarrow> int \<Rightarrow> Entity \<Rightarrow> App \<Rightarrow> Entity \<times> Placement option \<times> App" where
  "renderEntity_p0 rnd cw ch time now ent s =
     (if isDead ent \<and> etype ent \<noteq> Barrel then (ent, None, s)
      else
        (case (if \<not> isDead ent then returnFire_p0 rnd cw ch now (behave_p0 time ent) s else (ent, s)) of
           (ent', s') \<Rightarrow> (ent', Some (renderProjection_p0 (mousePos s') cw ch ent'), s')))"

fun renderEntities_p0 ::
  "(nat \<Rightarrow> real) \<Rightarrow> real \<Rightarrow> real \<Rightarrow> real \<Rightarrow> int \<Rightarrow> Entity list \<Rightarrow> App
     \<Rightarrow> Entity list \<times> Placement option list \<times> App" where
  "renderEntities_p0 rnd cw ch time now [] s = ([], [], s)"
| "renderEntities_p0 rnd cw ch time now (ent # rest) s =
     (case renderEntity_p0 rnd cw ch time now ent s of
        (ent', pl, s') \<Rightarrow>
          (case renderEntities_p0 rnd cw ch time now rest s' of
             (rest', pls, s'') \<Rightarrow> (ent' # rest', pl # pls, s'')))"

text \<open>
  \<open>render\<close>, lines 229-295, one frame. Health lives in a ref here, so the check of line
  293 reads the value this frame left.
\<close>

definition render_p0 :: "(nat \<Rightarrow> real) \<Rightarrow> real \<Rightarrow> real \<Rightarrow> real \<Rightarrow> int \<Rightarrow> App \<Rightarrow> App" where
  "render_p0 rnd w h time now s0 =
     (let s1 = s0\<lparr>screenShake := screenShake s0 * 0.9\<rparr>;
          heartbeat = 0.5 + sin (time * 2.5) * 0.2;
          s2 = s1\<lparr>swayOffset :=
                    (sin (time * 0.7) * 12 * heartbeat + (rnd (rng s1) - 0.5) * screenShake s1,
                     cos (time * 1.1) * 8 * heartbeat + (rnd (rng s1 + 1) - 0.5) * screenShake s1),
                  rng := rng s1 + 2\<rparr>
      in case renderEntities_p0 rnd w h time now (entitiesRef s2) s2 of
           (es, pls, s3) \<Rightarrow>
             (let s4 = s3\<lparr>entitiesRef := es, canvas := pls\<rparr>;
                  s5 = s4\<lparr>particlesRef := advanceParticles_p0 (particlesRef s4)\<rparr>
              in if playerHealthRef s5 \<le> 0 then setGameState failure s5 else s5))"

text \<open>The effect that owns the frame loop, lines 219-298.\<close>

definition renderEffect_p0 :: "(nat \<Rightarrow> real) \<Rightarrow> real \<Rightarrow> real \<Rightarrow> real \<Rightarrow> int \<Rightarrow> App \<Rightarrow> App" where
  "renderEffect_p0 rnd w h time now s =
     (if gameState s \<noteq> playing \<or> mission s = None then s else render_p0 rnd w h time now s)"


subsection \<open>Hit test and objectives\<close>

text \<open>
  The condition of line 317: the struck entity's category matches the active
  objective's kind.
\<close>

definition satisfies_p0 :: "Entity \<Rightarrow> Objective option \<Rightarrow> bool" where
  "satisfies_p0 ent obj =
     ((etype ent = Barrel \<and> objIs obj destroy) \<or> (etype ent = Intel \<and> objIs obj retrieve)
      \<or> (etype ent = HVT \<and> objIs obj eliminate))"

text \<open>\<open>mission?.objectives.length || 0\<close>.\<close>

definition objectiveCount :: "App \<Rightarrow> nat" where
  "objectiveCount s = (case mission s of None \<Rightarrow> 0 | Some m \<Rightarrow> length (objectives m))"

text \<open>The description read in the template literal of line 323 (only reached in range).\<close>

definition nextDescription :: "App \<Rightarrow> string" where
  "nextDescription s =
     (case mission s of None \<Rightarrow> [] | Some m \<Rightarrow> odescription (objectives m ! (currentObjIndex s + 1)))"

text \<open>
  The body of \<open>entitiesRef.current.forEach\<close> in \<open>handleShoot\<close>, lines 307-327, with the
  flag \<open>hit\<close> threaded through. \<open>s0\<close> holds what the closure sees (\<open>mission\<close>,
  \<open>currentObjIndex\<close>); \<open>setCurrentObjIndex(prev => prev + 1)\<close> is a functional update and
  acts on the collected state \<open>s\<close>.
\<close>

definition shootEntity_p0 ::
  "(nat \<Rightarrow> real) \<Rightarrow> real \<Rightarrow> real \<Rightarrow> App \<Rightarrow> real \<Rightarrow> real \<Rightarrow> Entity \<Rightarrow> bool \<Rightarrow> App \<Rightarrow> Entity \<times> bool \<times> App" where
  "shootEntity_p0 rnd w h s0 impactX impactY ent hit s =
     (if isDead ent then (ent, hit, s)
      else
        (let p = hitProjection_p0 (mousePos s) w h ent
         in if \<bar>impactX - rx p\<bar> < 30 * scale p \<and> \<bar>impactY - ry p\<bar> < 60 * scale p then
              (let ent1 = ent\<lparr>isDead := True\<rparr>;
                   s1 = createParticles_p0 rnd impactX impactY ''#f00'' 15 2 s;
                   obj = currentObj s0;
                   s2 = (if satisfies_p0 ent1 obj then
                           (if currentObjIndex s0 + 1 \<ge> objectiveCount s0 then
                              speakSpotter ''Mission accomplished.'' (setGameState success s1)
                            else
                              speakSpotter (''Objective cleared. Moving to next: '' @ nextDescription s0)
                                (s1\<lparr>currentObjIndex := currentObjIndex s1 + 1\<rparr>))
                         else s1)
               in (ent1, True, s2))
            else (ent, hit, s)))"

fun shootEntities_p0 ::
  "(nat \<Rightarrow> real) \<Rightarrow> real \<Rightarrow> real \<Rightarrow> App \<Rightarrow> real \<Rightarrow> real \<Rightarrow> Entity list \<Rightarrow> bool \<Rightarrow> App
     \<Rightarrow> Entity list \<times> bool \<times> App" where
  "shootEntities_p0 rnd w h s0 impactX impactY [] hit s = ([], hit, s)"
| "shootEntities_p0 rnd w h s0 impactX impactY (ent # rest) hit s =
     (case shootEntity_p0 rnd w h s0 impactX impactY ent hit s of
        (ent', hit', s') \<Rightarrow>
          (case shootEntities_p0 rnd w h s0 impactX impactY rest hit' s' of
             (rest', hit'', s'') \<Rightarrow> (ent' # rest', hit'', s'')))"

text \<open>\<open>handleShoot\<close>, lines 300-329.\<close>

definition handleShoot_p0 :: "(nat \<Rightarrow> real) \<Rightarrow> real \<Rightarrow> real \<Rightarrow> App \<Rightarrow> App" where
  "handleShoot_p0 rnd w h s0 =
     (if gameState s0 \<noteq> playing then s0
      else
        (let s1 = s0\<lparr>screenShake := 15\<rparr>;
             impactX = w / 2 + fst (swayOffset s1);
             impactY = h / 2 + snd (swayOffset s1)
         in case shootEntities_p0 rnd w h s0 impactX impactY (entitiesRef s1) False s1 of
              (es, hit, s2) \<Rightarrow>
                (let s3 = s2\<lparr>entitiesRef := es\<rparr>
                 in if \<not> hit then createParticles_p0 rnd impactX impactY ''#fff'' 3 1 s3 else s3)))"

subsection \<open>Mission loading\<close>

text \<open>\<open>spawnEntities\<close>, lines 167-177.\<close>

definition spawnEntities_p0 :: "real \<Rightarrow> real \<Rightarrow> App \<Rightarrow> App" where
  "spawnEntities_p0 w h s =
     (let newEntities =
            [\<lparr>eid = ''hvt-1'', ex = 800, ey = h / 2, ez = 800, speed = 2, etype = HVT,
              edescription = ''Primary Target'', isDead = False, behavior = pacing, offset = 0,
              ehealth = 100, isHostile = False, lastFireTime = 0\<rparr>,
             \<lparr>eid = ''guard-1'', ex = 200, ey = h / 2, ez = 700, speed = 1.5, etype = Bodyguard,
              edescription = ''Security'', isDead = False, behavior = flanking, offset = 0,
              ehealth = 100, isHostile = True, lastFireTime = 0\<rparr>,
             \<lparr>eid = ''intel-1'', ex = w / 2, ey = h / 2 + 20, ez = 650, speed = 0, etype = Intel,
              edescription = ''Data'', isDead = False, behavior = static, offset = 0,
              ehealth = 10, isHostile = False, lastFireTime = 0\<rparr>]
            @ map (\<lambda>i. \<lparr>eid = ''barrel-'' @ decimal i, ex = 300 + real i * 400, ey = h / 2 + 50,
                         ez = 600, speed = 0, etype = Barrel, edescription = ''Explosive'',
                         isDead = False, behavior = static, offset = 0, ehealth = 1,
                         isHostile = False, lastFireTime = 0\<rparr>) [0..<3]
      in s\<lparr>entitiesRef := newEntities\<rparr>)"

text \<open>The built-in mission of the \<open>catch\<close> block, lines 141-151.\<close>

definition fallback :: Mission where
  "fallback =
     \<lparr>title = ''SILENT ECHO'',
      briefingText = ''API Connection lost. Proceeding with emergency tactical protocols. Clear the sector.'',
      objectives =
        [\<lparr>oid = ''fb-obj-1'', otype = eliminate, odescription = ''Eliminate the rooftop guard.''\<rparr>,
         \<lparr>oid = ''fb-obj-2'', otype = destroy, odescription = ''Destroy the fuel barrels.''\<rparr>],
      environment = ''urban'', windSpeed = 5, windDir = 90\<rparr>"

text \<open>The \<open>catch\<close> block of \<open>generateMission\<close>, lines 136-154.\<close>

definition installFallback :: "real \<Rightarrow> real \<Rightarrow> App \<Rightarrow> App" where
  "installFallback w h s =
     (let s1 = s\<lparr>isLoading := False\<rparr>;
          s2 = s1\<lparr>mission := Some fallback\<rparr>
      in spawnEntities_p0 w h s2)"

text \<open>
  \<open>generateMission\<close>, lines 93-155, from the moment the provider call settles. As in the
  other variant, \<open>Rejected\<close> is any throw up to and including \<open>JSON.parse\<close>, and an empty
  objective list makes line 135 throw after the mission has been stored.
\<close>

definition generateMission_p0 :: "real \<Rightarrow> real \<Rightarrow> Response \<Rightarrow> App \<Rightarrow> App" where
  "generateMission_p0 w h resp s =
     (case resp of
        Rejected \<Rightarrow> installFallback w h s
      | Resolved data \<Rightarrow>
          (let s1 = s\<lparr>mission := Some data\<rparr>;
               s2 = spawnEntities_p0 w h s1;
               s3 = s2\<lparr>isLoading := False\<rparr>
           in case objectives data of
                [] \<Rightarrow> installFallback w h s3
              | ob # _ \<Rightarrow>
                  speakSpotter (''Mission: '' @ title data @ ''. Active objective: ''
                                  @ odescription ob @ ''.'') s3))"

subsection \<open>The component as a transition system\<close>

text \<open>
  The initial state; \<open>mousePos\<close> starts at the centre of the window, whose inner size at
  mount is \<open>w, h\<close>.
\<close>

definition initial_p0 :: "real \<Rightarrow> real \<Rightarrow> App" where
  "initial_p0 w h = initial\<lparr>mousePos := (w / 2, h / 2)\<rparr>"

text \<open>This variant queues no timers, so \<open>TimeoutFires\<close> finds nothing to run.\<close>

fun step_p0 :: "(nat \<Rightarrow> real) \<Rightarrow> Event \<Rightarrow> App \<Rightarrow> App" where
  "step_p0 rnd (MissionArrives resp w h) s =
     (if isLoading s then generateMission_p0 w h resp s else s)"
| "step_p0 rnd (MouseMove x y) s = s\<lparr>mousePos := (x, y)\<rparr>"
| "step_p0 rnd StartPressed s = startPressed s"
| "step_p0 rnd (Frame w h time now) s = renderEffect_p0 rnd w h time now s"
| "step_p0 rnd (MouseDown w h) s = (if isLoading s then s else handleShoot_p0 rnd w h s)"
| "step_p0 rnd TimeoutFires s = s"

fun run_p0 :: "(nat \<Rightarrow> real) \<Rightarrow> Event list \<Rightarrow> App \<Rightarrow> App" where
  "run_p0 rnd [] s = s"
| "run_p0 rnd (ev # evs) s = run_p0 rnd evs (step_p0 rnd ev s)"

section \<open>Notions used in the statements\<close>

text \<open>The hit test of \<^verbatim>\<open>index.tsx\<close> line 460 and of \<^verbatim>\<open>part_000\<close> line 312, as predicates.\<close>

definition inHitBox :: "real \<times> real \<Rightarrow> real \<Rightarrow> real \<Rightarrow> real \<Rightarrow> real \<Rightarrow> Entity \<Rightarrow> bool" where
  "inHitBox mp w h x y ent =
     (let p = hitProjection mp w h ent in \<bar>x - rx p\<bar> < 25 * scale p \<and> \<bar>y - ry p\<bar> < 50 * scale p)"

definition inHitBox_p0 :: "real \<times> real \<Rightarrow> real \<Rightarrow> real \<Rightarrow> real \<Rightarrow> real \<Rightarrow> Entity \<Rightarrow> bool" where
  "inHitBox_p0 mp w h x y ent =
     (let p = hitProjection_p0 mp w h ent in \<bar>x - rx p\<bar> < 30 * scale p \<and> \<bar>y - ry p\<bar> < 60 * scale p)"

text \<open>
  The render-time projected box of an entity, in the words of the specification
  (section 4.4; the renderer itself draws shapes and computes no box): a box centred on
  the placement the renderer computes and scaled by its scale factor, with the
  half-extents each variant's hit test uses at scale 1.
\<close>

definition insideRenderBox :: "real \<times> real \<Rightarrow> real \<Rightarrow> real \<Rightarrow> Entity \<Rightarrow> real \<Rightarrow> real \<Rightarrow> bool" where
  "insideRenderBox mp cw ch ent x y =
     (let p = renderProjection mp cw ch ent in \<bar>x - rx p\<bar> < 25 * scale p \<and> \<bar>y - ry p\<bar> < 50 * scale p)"

definition insideRenderBox_p0 :: "real \<times> real \<Rightarrow> real \<Rightarrow> real \<Rightarrow> Entity \<Rightarrow> real \<Rightarrow> real \<Rightarrow> bool" where
  "insideRenderBox_p0 mp cw ch ent x y =
     (let p = renderProjection_p0 mp cw ch ent in \<bar>x - rx p\<bar> < 30 * scale p \<and> \<bar>y - ry p\<bar> < 60 * scale p)"

text \<open>The point a click lands on: the window centre displaced by the sway.\<close>

definition impact :: "real \<Rightarrow> real \<Rightarrow> App \<Rightarrow> real \<times> real" where
  "impact w h s = (w / 2 + fst (swayOffset s), h / 2 + snd (swayOffset s))"

text \<open>
  Sample inputs for the closed instances below: a provider answer, a stream of
  \<open>Math.random()\<close> results, and a state.
\<close>

definition sampleMission :: Mission where
  "sampleMission =
     \<lparr>title = ''NIGHTFALL'', briefingText = ''Clear the yard.'',
      objectives =
        [\<lparr>oid = ''o1'', otype = destroy, odescription = ''Blow the drums.''\<rparr>,
         \<lparr>oid = ''o2'', otype = eliminate, odescription = ''Take the target.''\<rparr>],
      environment = ''urban'', windSpeed = 3, windDir = 180\<rparr>"

definition sampleRnd :: "nat \<Rightarrow> real" where
  "sampleRnd k = 1 / 2"

text \<open>
  A sample state of each variant: the sample mission has arrived in a 1920 x 1080 window,
  the start button has been pressed and the pointer has moved to \<open>(640, 540)\<close>, which
  puts the primary target under the window centre.
\<close>

definition sampleState :: App where
  "sampleState =
     (startPressed (generateMission sampleRnd 1920 1080 (Resolved sampleMission) initial))
       \<lparr>mousePos := (640, 540)\<rparr>"

definition sampleState_p0 :: App where
  "sampleState_p0 =
     (startPressed (generateMission_p0 1920 1080 (Resolved sampleMission) (initial_p0 1920 1080)))
       \<lparr>mousePos := (640, 540)\<rparr>"

text \<open>
  A satisfying hit: the struck entity's category matches the active objective's kind.
  For \<^verbatim>\<open>index.tsx\<close> this is the disjunction of the three conditions under which lines
  479, 482 and 483 call \<open>advanceObjective\<close>; for \<^verbatim>\<open>part_000\<close> it is \<open>satisfies_p0\<close>.
\<close>

definition satisfies :: "Entity \<Rightarrow> Objective option \<Rightarrow> bool" where
  "satisfies ent obj =
     ((etype ent = Barrel \<and> objIs obj destroy) \<or> (etype ent = Intel \<and> objIs obj retrieve)
      \<or> (etype ent = HVT \<and> objIs obj eliminate))"

text \<open>The living entities a click in state \<open>s\<close> strikes that satisfy the active objective.\<close>

definition satisfyingHits :: "real \<Rightarrow> real \<Rightarrow> App \<Rightarrow> Entity list" where
  "satisfyingHits w h s =
     filter (\<lambda>ent. \<not> isDead ent
                   \<and> inHitBox (mousePos s) w h (fst (impact w h s)) (snd (impact w h s)) ent
                   \<and> satisfies ent (currentObj s))
            (entities s)"

definition satisfyingHits_p0 :: "real \<Rightarrow> real \<Rightarrow> App \<Rightarrow> Entity list" where
  "satisfyingHits_p0 w h s =
     filter (\<lambda>ent. \<not> isDead ent
                   \<and> inHitBox_p0 (mousePos s) w h (fst (impact w h s)) (snd (impact w h s)) ent
                   \<and> satisfies_p0 ent (currentObj s))
            (entitiesRef s)"

text \<open>
  A second sample for \<^verbatim>\<open>index.tsx\<close>: a mission whose only objective is to destroy, loaded
  and started in the same window, with the pointer at \<open>(960, 640)\<close>, which puts the barrels
  (all at the same place under \<open>sampleRnd\<close>) under the window centre.
\<close>

definition demolitionMission :: Mission where
  "demolitionMission =
     \<lparr>title = ''EMBER'', briefingText = ''Burn the depot.'',
      objectives = [\<lparr>oid = ''d1'', otype = destroy, odescription = ''Blow the drums.''\<rparr>],
      environment = ''rain'', windSpeed = 7, windDir = 45\<rparr>"

definition demolitionState :: App where
  "demolitionState =
     (startPressed (generateMission sampleRnd 1920 1080 (Resolved demolitionMission) initial))
       \<lparr>mousePos := (960, 640)\<rparr>"

text \<open>
  A sample for \<^verbatim>\<open>part_000\<close>: the sample state with the pointer at \<open>(180, 690)\<close>, which puts
  the middle barrel (\<open>barrel-1\<close>, at \<open>x = 700\<close>) under the window centre.
\<close>

definition barrelAimState_p0 :: App where
  "barrelAimState_p0 = sampleState_p0\<lparr>mousePos := (180, 690)\<rparr>"

text \<open>
  What return fire does to the firing entity itself (\<^verbatim>\<open>index.tsx\<close> lines 325-326 with a
  cooldown of 2000 ms, \<^verbatim>\<open>part_000\<close> lines 255-256 with 3000 ms).
\<close>

definition fireStamp :: "int \<Rightarrow> int \<Rightarrow> Entity \<Rightarrow> Entity" where
  "fireStamp cooldown now ent =
     (if isHostile ent \<and> now - lastFireTime ent > cooldown then ent\<lparr>lastFireTime := now\<rparr> else ent)"

text \<open>Sample frame times, \<open>2\<pi>\<close> seconds apart, at which \<open>sin\<close> is \<open>1\<close>.\<close>

definition peak :: "nat \<Rightarrow> real" where
  "peak k = pi / 2 + 2 * real k * pi"

text \<open>The primary target as \<^verbatim>\<open>part_000\<close> spawns it: \<open>pacing\<close>, \<open>x = 800\<close>, \<open>speed = 2\<close>, \<open>offset = 0\<close>.\<close>

definition sampleTarget :: Entity where
  "sampleTarget = entitiesRef sampleState_p0 ! 0"

text \<open>
  The condition under which a frame at \<open>now\<close> makes an entity fire: it is alive and
  hostile, and its cooldown has run out.
\<close>

definition fires :: "int \<Rightarrow> int \<Rightarrow> Entity \<Rightarrow> bool" where
  "fires cooldown now ent = (\<not> isDead ent \<and> isHostile ent \<and> now - lastFireTime ent > cooldown)"

text \<open>
  The first statements of \<open>render\<close> in both variants (\<^verbatim>\<open>index.tsx\<close> lines 293-298,
  \<^verbatim>\<open>part_000\<close> lines 234-237): the screen shake decays and the sway is recomputed.
\<close>

definition swayed :: "(nat \<Rightarrow> real) \<Rightarrow> real \<Rightarrow> App \<Rightarrow> App" where
  "swayed rnd time s0 =
     s0\<lparr>screenShake := screenShake s0 * 0.9,
        swayOffset :=
          (sin (time * 0.7) * 12 * (0.5 + sin (time * 2.5) * 0.2) + (rnd (rng s0) - 0.5) * (screenShake s0 * 0.9),
           cos (time * 1.1) * 8 * (0.5 + sin (time * 2.5) * 0.2) + (rnd (rng s0 + 1) - 0.5) * (screenShake s0 * 0.9)),
        rng := rng s0 + 2\<rparr>"

text \<open>
  A frame schedule for the closed instances: frame \<open>k\<close> comes 16 ms after frame \<open>k - 1\<close>
  in a 1920 x 1080 window, the first one at the clock reading \<open>1700000000000\<close>.
\<close>

definition frameAt :: "nat \<Rightarrow> Event" where
  "frameAt k = Frame 1920 1080 (real k * 0.016) (1700000000000 + 16 * int k)"

text \<open>
  The invariant of the flanking guard of \<^verbatim>\<open>part_000\<close> over a run of frames that all fall
  into the 24 seconds after the clock reading \<open>t0\<close>: the game is playing, the guard (the
  entity at index 1) is the only hostile entity, it is alive and flanking at depth \<open>z\<close>, and
  the player's health is bounded from below through the guard's last fire time.
\<close>

definition guardInv :: "int \<Rightarrow> real \<Rightarrow> App \<Rightarrow> bool" where
  "guardInv t0 z s =
     (gameState s = playing \<and> mission s \<noteq> None \<and> 1 < length (entitiesRef s)
      \<and> filter isHostile (entitiesRef s) = [entitiesRef s ! 1]
      \<and> \<not> isDead (entitiesRef s ! 1) \<and> behavior (entitiesRef s ! 1) = flanking
      \<and> ez (entitiesRef s ! 1) = z
      \<and> ((lastFireTime (entitiesRef s ! 1) = 0 \<and> playerHealthRef s = 100)
          \<or> (t0 \<le> lastFireTime (entitiesRef s ! 1) \<and> lastFireTime (entitiesRef s ! 1) < t0 + 24000
              \<and> 90 - 10 * ((lastFireTime (entitiesRef s ! 1) - t0) div 3000) \<le> playerHealthRef s)))"

text \<open>
  How often the run so far has made the transition to \<open>failure\<close>, and how often it has
  announced it (the announcement is made by \<^verbatim>\<open>index.tsx\<close> only).
\<close>

definition failureTransitions :: "App \<Rightarrow> nat" where
  "failureTransitions s = count_list (effects s) (SetGameState failure)"

definition failureAnnouncements :: "App \<Rightarrow> nat" where
  "failureAnnouncements s = count_list (effects s) (SpeakSpotter ''Agent neutralized. Mission failed.'')"

text \<open>
  The invariant of \<^verbatim>\<open>index.tsx\<close>: health within bounds and \<open>0\<close> once failed, the failure
  transition made and announced once if the game has failed and never otherwise, the
  objective index in range, and nothing started before the mission has arrived.
\<close>

definition appInv :: "App \<Rightarrow> bool" where
  "appInv s =
     (0 \<le> playerHealth s \<and> playerHealth s \<le> MAX_PLAYER_HEALTH
      \<and> (gameState s = failure \<longrightarrow> playerHealth s = 0)
      \<and> failureTransitions s = (if gameState s = failure then 1 else 0)
      \<and> failureAnnouncements s = (if gameState s = failure then 1 else 0)
      \<and> (currentObjIndex s < objectiveCount s \<or> currentObjIndex s = 0)
      \<and> (isLoading s \<longrightarrow> gameState s = briefing \<and> currentObjIndex s = 0))"

text \<open>
  The roster of \<^verbatim>\<open>part_000\<close>: none before the mission has arrived, and afterwards the six
  entities of \<open>spawnEntities\<close> in their order, the three barrels static at their places.
\<close>

definition roster_p0 :: "Entity list \<Rightarrow> bool" where
  "roster_p0 es =
     (es = []
      \<or> (map etype es = [HVT, Bodyguard, Intel, Barrel, Barrel, Barrel]
          \<and> map behavior (drop 3 es) = [static, static, static]
          \<and> map ex (drop 3 es) = [300, 700, 1100]
          \<and> map ez (drop 3 es) = [600, 600, 600]))"

text \<open>
  The invariant of \<^verbatim>\<open>part_000\<close>: health a multiple of 10 within bounds and mirrored in
  \<open>healthUI\<close>, the game failed exactly when health is \<open>0\<close>, the failure transition made
  once if the game has failed and never otherwise, the objective index in range, nothing
  started before the mission has arrived, at most one hostile entity, and the roster.
\<close>

definition appInv_p0 :: "App \<Rightarrow> bool" where
  "appInv_p0 s =
     (0 \<le> playerHealthRef s \<and> playerHealthRef s \<le> MAX_PLAYER_HEALTH
      \<and> 10 dvd playerHealthRef s \<and> healthUI s = playerHealthRef s
      \<and> (gameState s = failure \<longleftrightarrow> playerHealthRef s = 0)
      \<and> failureTransitions s = (if gameState s = failure then 1 else 0)
      \<and> (currentObjIndex s < objectiveCount s \<or> currentObjIndex s = 0)
      \<and> (isLoading s \<longrightarrow> gameState s = briefing \<and> currentObjIndex s = 0)
      \<and> length (filter isHostile (entitiesRef s)) \<le> 1
      \<and> roster_p0 (entitiesRef s))"





text \<open>
  The transition rule of the objective state machine, in the words of the specification
  (section 4.5), for comparison with what the click handlers do: the effect of a click
  on the objective index and the game state, given whether it made a satisfying hit. On
  a satisfying hit the game succeeds if the active objective is the last one, and the
  index goes up by one otherwise; without one, both stay.
\<close>

definition objectiveAdvance :: "bool \<Rightarrow> App \<Rightarrow> App \<Rightarrow> bool" where
  "objectiveAdvance satisfied s s' =
     (if satisfied then
        (if currentObjIndex s + 1 < objectiveCount s
         then currentObjIndex s' = currentObjIndex s + 1 \<and> gameState s' = gameState s
         else currentObjIndex s' = currentObjIndex s \<and> gameState s' = success)
      else currentObjIndex s' = currentObjIndex s \<and> gameState s' = gameState s)"

text \<open>
  The sample state of \<^verbatim>\<open>index.tsx\<close> with the pointer at \<open>(960, 640)\<close>, which puts the barrels
  under the window centre.
\<close>

definition barrelAimState :: App where
  "barrelAimState = sampleState\<lparr>mousePos := (960, 640)\<rparr>"

text \<open>
  The states after the click on the barrels, with the pointer moved back to \<open>(640, 540)\<close>
  so that the primary target is under the window centre again.
\<close>

definition targetAimState :: App where
  "targetAimState = (handleShoot sampleRnd 1920 1080 barrelAimState)\<lparr>mousePos := (640, 540)\<rparr>"

definition targetAimState_p0 :: App where
  "targetAimState_p0 = (handleShoot_p0 sampleRnd 1920 1080 barrelAimState_p0)\<lparr>mousePos := (640, 540)\<rparr>"

section \<open>Basic facts about the handlers\<close>

lemma createParticles_keeps [simp]:
  "mission (createParticles rnd x y c n sz s) = mission s"
  "isLoading (createParticles rnd x y c n sz s) = isLoading s"
  "gameState (createParticles rnd x y c n sz s) = gameState s"
  "currentObjIndex (createParticles rnd x y c n sz s) = currentObjIndex s"
  "mousePos (createParticles rnd x y c n sz s) = mousePos s"
  "swayOffset (createParticles rnd x y c n sz s) = swayOffset s"
  "screenShake (createParticles rnd x y c n sz s) = screenShake s"
  "entities (createParticles rnd x y c n sz s) = entities s"
  "playerHealth (createParticles rnd x y c n sz s) = playerHealth s"
  "shotsFired (createParticles rnd x y c n sz s) = shotsFired s"
  "timeouts (createParticles rnd x y c n sz s) = timeouts s"
  "effects (createParticles rnd x y c n sz s) = effects s"
  by (simp_all add: createParticles_def)

lemma createParticles_p0_keeps [simp]:
  "mission (createParticles_p0 rnd x y c n sz s) = mission s"
  "isLoading (createParticles_p0 rnd x y c n sz s) = isLoading s"
  "gameState (createParticles_p0 rnd x y c n sz s) = gameState s"
  "currentObjIndex (createParticles_p0 rnd x y c n sz s) = currentObjIndex s"
  "mousePos (createParticles_p0 rnd x y c n sz s) = mousePos s"
  "swayOffset (createParticles_p0 rnd x y c n sz s) = swayOffset s"
  "screenShake (createParticles_p0 rnd x y c n sz s) = screenShake s"
  "entitiesRef (createParticles_p0 rnd x y c n sz s) = entitiesRef s"
  "playerHealthRef (createParticles_p0 rnd x y c n sz s) = playerHealthRef s"
  "healthUI (createParticles_p0 rnd x y c n sz s) = healthUI s"
  "effects (createParticles_p0 rnd x y c n sz s) = effects s"
  by (simp_all add: createParticles_p0_def)

lemma advanceObjective_mousePos [simp]: "mousePos (advanceObjective s0 s) = mousePos s"
  by (simp add: advanceObjective_def speakSpotter_def setGameState_def Let_def split: option.splits)

lemma shootEntity_mousePos:
  "mousePos (snd (snd (shootEntity rnd w h s0 ix iy ent hit s))) = mousePos s"
  by (simp add: shootEntity_def Let_def)

lemma shootEntity_p0_mousePos:
  "mousePos (snd (snd (shootEntity_p0 rnd w h s0 ix iy ent hit s))) = mousePos s"
  by (simp add: shootEntity_p0_def Let_def speakSpotter_def setGameState_def)

text \<open>What a click does to one entity depends on the entity and the pointer only.\<close>

lemma shootEntity_fst:
  "fst (shootEntity rnd w h s0 ix iy ent hit s) =
     (if \<not> isDead ent \<and> inHitBox (mousePos s) w h ix iy ent
      then ent\<lparr>isDead := True, ehealth := 0\<rparr> else ent)"
  by (auto simp add: shootEntity_def inHitBox_def Let_def)

lemma shootEntity_p0_fst:
  "fst (shootEntity_p0 rnd w h s0 ix iy ent hit s) =
     (if \<not> isDead ent \<and> inHitBox_p0 (mousePos s) w h ix iy ent
      then ent\<lparr>isDead := True\<rparr> else ent)"
  by (auto simp add: shootEntity_p0_def inHitBox_p0_def Let_def)

lemma shootEntities_fst:
  "fst (shootEntities rnd w h s0 ix iy es hit s) =
     map (\<lambda>ent. if \<not> isDead ent \<and> inHitBox (mousePos s) w h ix iy ent
                 then ent\<lparr>isDead := True, ehealth := 0\<rparr> else ent) es"
proof (induction es arbitrary: hit s)
  case Nil
  show ?case by simp
next
  case (Cons e es)
  obtain e' hit' s' where a: "shootEntity rnd w h s0 ix iy e hit s = (e', hit', s')"
    by (cases "shootEntity rnd w h s0 ix iy e hit s") auto
  have mp: "mousePos s' = mousePos s"
    using shootEntity_mousePos [of rnd w h s0 ix iy e hit s] a by simp
  have e': "e' = (if \<not> isDead e \<and> inHitBox (mousePos s) w h ix iy e
                  then e\<lparr>isDead := True, ehealth := 0\<rparr> else e)"
    using shootEntity_fst [of rnd w h s0 ix iy e hit s] a by simp
  obtain es' hit'' s'' where b: "shootEntities rnd w h s0 ix iy es hit' s' = (es', hit'', s'')"
    by (cases "shootEntities rnd w h s0 ix iy es hit' s'") auto
  have "es' = fst (shootEntities rnd w h s0 ix iy es hit' s')"
    using b by simp
  then show ?case
    using Cons.IH [of hit' s'] a b mp e' by simp
qed

lemma shootEntities_p0_fst:
  "fst (shootEntities_p0 rnd w h s0 ix iy es hit s) =
     map (\<lambda>ent. if \<not> isDead ent \<and> inHitBox_p0 (mousePos s) w h ix iy ent
                 then ent\<lparr>isDead := True\<rparr> else ent) es"
proof (induction es arbitrary: hit s)
  case Nil
  show ?case by simp
next
  case (Cons e es)
  obtain e' hit' s' where a: "shootEntity_p0 rnd w h s0 ix iy e hit s = (e', hit', s')"
    by (cases "shootEntity_p0 rnd w h s0 ix iy e hit s") auto
  have mp: "mousePos s' = mousePos s"
    using shootEntity_p0_mousePos [of rnd w h s0 ix iy e hit s] a by simp
  have e': "e' = (if \<not> isDead e \<and> inHitBox_p0 (mousePos s) w h ix iy e
                  then e\<lparr>isDead := True\<rparr> else e)"
    using shootEntity_p0_fst [of rnd w h s0 ix iy e hit s] a by simp
  obtain es' hit'' s'' where b: "shootEntities_p0 rnd w h s0 ix iy es hit' s' = (es', hit'', s'')"
    by (cases "shootEntities_p0 rnd w h s0 ix iy es hit' s'") auto
  have "es' = fst (shootEntities_p0 rnd w h s0 ix iy es hit' s')"
    using b by simp
  then show ?case
    using Cons.IH [of hit' s'] a b mp e' by simp
qed

text \<open>The entity list a click in the playing state leaves behind.\<close>

lemma handleShoot_entities:
  "gameState s = playing \<Longrightarrow>
   entities (handleShoot rnd w h s) =
     map (\<lambda>ent. if \<not> isDead ent \<and> inHitBox (mousePos s) w h (fst (impact w h s)) (snd (impact w h s)) ent
                 then ent\<lparr>isDead := True, ehealth := 0\<rparr> else ent) (entities s)"
proof -
  assume pl: "gameState s = playing"
  let ?s2 = "s\<lparr>shotsFired := shotsFired s + 1, screenShake := 10\<rparr>"
  obtain es hit s3 where
    a: "shootEntities rnd w h s (fst (impact w h s)) (snd (impact w h s)) (entities s) False ?s2 = (es, hit, s3)"
    by (cases "shootEntities rnd w h s (fst (impact w h s)) (snd (impact w h s)) (entities s) False ?s2") auto
  have "es = fst (shootEntities rnd w h s (fst (impact w h s)) (snd (impact w h s)) (entities s) False ?s2)"
    using a by simp
  then have es: "es = map (\<lambda>ent. if \<not> isDead ent \<and> inHitBox (mousePos s) w h (fst (impact w h s)) (snd (impact w h s)) ent
                 then ent\<lparr>isDead := True, ehealth := 0\<rparr> else ent) (entities s)"
    by (simp add: shootEntities_fst)
  have "entities (handleShoot rnd w h s) = es"
    using pl a by (simp add: handleShoot_def Let_def impact_def)
  then show ?thesis using es by simp
qed

lemma handleShoot_p0_entities:
  "gameState s = playing \<Longrightarrow>
   entitiesRef (handleShoot_p0 rnd w h s) =
     map (\<lambda>ent. if \<not> isDead ent \<and> inHitBox_p0 (mousePos s) w h (fst (impact w h s)) (snd (impact w h s)) ent
                 then ent\<lparr>isDead := True\<rparr> else ent) (entitiesRef s)"
proof -
  assume pl: "gameState s = playing"
  let ?s1 = "s\<lparr>screenShake := 15\<rparr>"
  obtain es hit s2 where
    a: "shootEntities_p0 rnd w h s (fst (impact w h s)) (snd (impact w h s)) (entitiesRef s) False ?s1 = (es, hit, s2)"
    by (cases "shootEntities_p0 rnd w h s (fst (impact w h s)) (snd (impact w h s)) (entitiesRef s) False ?s1") auto
  have "es = fst (shootEntities_p0 rnd w h s (fst (impact w h s)) (snd (impact w h s)) (entitiesRef s) False ?s1)"
    using a by simp
  then have es: "es = map (\<lambda>ent. if \<not> isDead ent \<and> inHitBox_p0 (mousePos s) w h (fst (impact w h s)) (snd (impact w h s)) ent
                 then ent\<lparr>isDead := True\<rparr> else ent) (entitiesRef s)"
    by (simp add: shootEntities_p0_fst)
  have "entitiesRef (handleShoot_p0 rnd w h s) = es"
    using pl a by (simp add: handleShoot_p0_def Let_def impact_def)
  then show ?thesis using es by simp
qed

section \<open>Clicks outside the playing state\<close>

text \<open>
  C10. A click received while the game state is not \<open>playing\<close> (briefing, success or
  failure) leaves the whole state as it was, in both variants: \<open>handleShoot\<close> returns
  before it touches anything, so no entity, no particle, neither the shot counter nor the
  screen shake changes.
\<close>

theorem handleShoot_not_playing:
  "gameState s \<noteq> playing \<Longrightarrow> handleShoot rnd w h s = s \<and> handleShoot_p0 rnd w h s = s"
  by (simp add: handleShoot_def handleShoot_p0_def)

theorem handleShoot_not_playing_witness:
  "gameState (generateMission sampleRnd 1920 1080 (Resolved sampleMission) initial) \<noteq> playing
   \<and> handleShoot sampleRnd 1920 1080 (generateMission sampleRnd 1920 1080 (Resolved sampleMission) initial)
       = generateMission sampleRnd 1920 1080 (Resolved sampleMission) initial
   \<and> handleShoot_p0 sampleRnd 1920 1080 (generateMission sampleRnd 1920 1080 (Resolved sampleMission) initial)
       = generateMission sampleRnd 1920 1080 (Resolved sampleMission) initial"
proof -
  have g: "gameState (generateMission sampleRnd 1920 1080 (Resolved sampleMission) initial) \<noteq> playing"
    by (simp add: generateMission_def spawnEntities_def sampleMission_def speakSpotter_def initial_def Let_def)
  show ?thesis
    using g handleShoot_not_playing [OF g, of sampleRnd 1920 1080] by simp
qed

section \<open>Renderer and hit test agree\<close>

lemmas sample_simps =
  sampleState_def sampleState_p0_def sampleMission_def sampleRnd_def initial_def initial_p0_def
  generateMission_def generateMission_p0_def spawnEntities_def spawnEntities_p0_def
  startPressed_def speakSpotter_def setGameState_def MAX_PLAYER_HEALTH_def Let_def upt_rec

text \<open>
  C1. For every entity and the same pointer position and viewport size, the placement
  the renderer computes and the placement the hit test computes coincide, and the scale
  is \<open>600 / z\<close>; this holds in both variants. Consequently, while the game is playing,
  a click whose impact point lies inside the render-time projected box of a living entity
  kills that entity (\<^verbatim>\<open>index.tsx\<close> also sets its health to 0).
\<close>

theorem render_hit_agreement:
  "(ez e \<noteq> 0 \<longrightarrow>
      renderProjection mp w h e = hitProjection mp w h e
      \<and> scale (renderProjection mp w h e) = 600 / ez e
      \<and> renderProjection_p0 mp w h e = hitProjection_p0 mp w h e
      \<and> scale (renderProjection_p0 mp w h e) = 600 / ez e)
   \<and> (gameState s = playing \<and> i < length (entities s) \<and> \<not> isDead (entities s ! i)
        \<and> insideRenderBox (mousePos s) w h (entities s ! i) (fst (impact w h s)) (snd (impact w h s))
      \<longrightarrow> isDead (entities (handleShoot rnd w h s) ! i)
          \<and> ehealth (entities (handleShoot rnd w h s) ! i) = 0)
   \<and> (gameState t = playing \<and> j < length (entitiesRef t) \<and> \<not> isDead (entitiesRef t ! j)
        \<and> insideRenderBox_p0 (mousePos t) w h (entitiesRef t ! j) (fst (impact w h t)) (snd (impact w h t))
      \<longrightarrow> isDead (entitiesRef (handleShoot_p0 rnd w h t) ! j))"
proof (intro conjI impI)
  show "renderProjection mp w h e = hitProjection mp w h e"
    by (simp add: renderProjection_def hitProjection_def)
  show "scale (renderProjection mp w h e) = 600 / ez e"
    by (simp add: renderProjection_def)
  show "renderProjection_p0 mp w h e = hitProjection_p0 mp w h e"
    by (simp add: renderProjection_p0_def hitProjection_p0_def)
  show "scale (renderProjection_p0 mp w h e) = 600 / ez e"
    by (simp add: renderProjection_p0_def)
next
  assume a: "gameState s = playing \<and> i < length (entities s) \<and> \<not> isDead (entities s ! i)
        \<and> insideRenderBox (mousePos s) w h (entities s ! i) (fst (impact w h s)) (snd (impact w h s))"
  then have "inHitBox (mousePos s) w h (fst (impact w h s)) (snd (impact w h s)) (entities s ! i)"
    by (simp add: insideRenderBox_def inHitBox_def renderProjection_def hitProjection_def)
  with a show "isDead (entities (handleShoot rnd w h s) ! i)"
    and "ehealth (entities (handleShoot rnd w h s) ! i) = 0"
    by (simp_all add: handleShoot_entities)
next
  assume a: "gameState t = playing \<and> j < length (entitiesRef t) \<and> \<not> isDead (entitiesRef t ! j)
        \<and> insideRenderBox_p0 (mousePos t) w h (entitiesRef t ! j) (fst (impact w h t)) (snd (impact w h t))"
  then have "inHitBox_p0 (mousePos t) w h (fst (impact w h t)) (snd (impact w h t)) (entitiesRef t ! j)"
    by (simp add: insideRenderBox_p0_def inHitBox_p0_def renderProjection_p0_def hitProjection_p0_def)
  with a show "isDead (entitiesRef (handleShoot_p0 rnd w h t) ! j)"
    by (simp add: handleShoot_p0_entities)
qed

theorem render_hit_agreement_witness:
  "ez (entities sampleState ! 0) \<noteq> 0
   \<and> renderProjection (640, 540) 1920 1080 (entities sampleState ! 0)
       = hitProjection (640, 540) 1920 1080 (entities sampleState ! 0)
   \<and> gameState sampleState = playing \<and> 0 < length (entities sampleState)
   \<and> \<not> isDead (entities sampleState ! 0)
   \<and> insideRenderBox (mousePos sampleState) 1920 1080 (entities sampleState ! 0)
        (fst (impact 1920 1080 sampleState)) (snd (impact 1920 1080 sampleState))
   \<and> isDead (entities (handleShoot sampleRnd 1920 1080 sampleState) ! 0)
   \<and> gameState sampleState_p0 = playing \<and> 0 < length (entitiesRef sampleState_p0)
   \<and> \<not> isDead (entitiesRef sampleState_p0 ! 0)
   \<and> insideRenderBox_p0 (mousePos sampleState_p0) 1920 1080 (entitiesRef sampleState_p0 ! 0)
        (fst (impact 1920 1080 sampleState_p0)) (snd (impact 1920 1080 sampleState_p0))
   \<and> isDead (entitiesRef (handleShoot_p0 sampleRnd 1920 1080 sampleState_p0) ! 0)"
proof -
  have z: "ez (entities sampleState ! 0) \<noteq> 0"
    by (simp add: sample_simps)
  have a: "gameState sampleState = playing \<and> 0 < length (entities sampleState)
           \<and> \<not> isDead (entities sampleState ! 0)
           \<and> insideRenderBox (mousePos sampleState) 1920 1080 (entities sampleState ! 0)
                (fst (impact 1920 1080 sampleState)) (snd (impact 1920 1080 sampleState))"
    by (simp add: sample_simps insideRenderBox_def renderProjection_def impact_def)
  have b: "gameState sampleState_p0 = playing \<and> 0 < length (entitiesRef sampleState_p0)
           \<and> \<not> isDead (entitiesRef sampleState_p0 ! 0)
           \<and> insideRenderBox_p0 (mousePos sampleState_p0) 1920 1080 (entitiesRef sampleState_p0 ! 0)
                (fst (impact 1920 1080 sampleState_p0)) (snd (impact 1920 1080 sampleState_p0))"
    by (simp add: sample_simps insideRenderBox_p0_def renderProjection_p0_def impact_def)
  show ?thesis
    using z a b
      render_hit_agreement [where e = "entities sampleState ! 0" and mp = "(640, 540)"
        and w = 1920 and h = 1080 and s = sampleState and i = 0 and rnd = sampleRnd
        and t = sampleState_p0 and j = 0]
    by blast
qed

section \<open>Particles\<close>

text \<open>One tick on a single particle, in each variant.\<close>

lemma advanceParticles_single:
  "advanceParticles [\<lparr>px = x, py = y, vx = a, vy = b, life = l, color = c, psize = z\<rparr>] =
     (if l > 0
      then [\<lparr>px = x + a, py = y + b, vx = a, vy = b, life = l - 1 / 50, color = c, psize = z\<rparr>]
      else [])"
  by (simp add: advanceParticles_def)

lemma advanceParticles_p0_single:
  "advanceParticles_p0 [\<lparr>px = x, py = y, vx = a, vy = b, life = l, color = c, psize = z\<rparr>] =
     (if l - 1 / 50 > 0
      then [\<lparr>px = x + a, py = y + b, vx = a, vy = b, life = l - 1 / 50, color = c, psize = z\<rparr>]
      else [])"
  by (simp add: advanceParticles_p0_def)

text \<open>While there is life left, \<open>n\<close> ticks take \<open>n / 50\<close> of it, in both variants.\<close>

lemma advanceParticles_funpow:
  "real n < l * 50 \<Longrightarrow>
   (advanceParticles ^^ n) [\<lparr>px = x, py = y, vx = a, vy = b, life = l, color = c, psize = z\<rparr>] =
     [\<lparr>px = x + real n * a, py = y + real n * b, vx = a, vy = b, life = l - real n / 50,
       color = c, psize = z\<rparr>]"
proof (induction n)
  case 0
  show ?case by simp
next
  case (Suc n)
  then have n: "real n < l * 50" by simp
  then have "l - real n / 50 > 0" by (simp add: field_simps)
  then show ?case using Suc.IH [OF n] by (simp add: advanceParticles_single algebra_simps)
qed

lemma advanceParticles_p0_funpow:
  "real n < l * 50 \<Longrightarrow>
   (advanceParticles_p0 ^^ n) [\<lparr>px = x, py = y, vx = a, vy = b, life = l, color = c, psize = z\<rparr>] =
     [\<lparr>px = x + real n * a, py = y + real n * b, vx = a, vy = b, life = l - real n / 50,
       color = c, psize = z\<rparr>]"
proof (induction n)
  case 0
  show ?case by simp
next
  case (Suc n)
  then have n: "real n < l * 50" by simp
  from Suc.prems have "l - real n / 50 - 1 / 50 > 0" by (simp add: field_simps)
  then show ?case using Suc.IH [OF n] by (simp add: advanceParticles_p0_single algebra_simps)
qed

text \<open>
  In \<^verbatim>\<open>part_000\<close> the live set never holds a spent particle after a tick, and a tick
  keeps exactly the particles that still have life after the decrement.
\<close>

lemma advanceParticles_p0_alive: "p \<in> set (advanceParticles_p0 ps) \<Longrightarrow> life p > 0"
  by (auto simp add: advanceParticles_p0_def)

lemma advanceParticles_p0_length:
  "length (advanceParticles_p0 ps) = length (filter (\<lambda>p. life p - 0.02 > 0) ps)"
  by (induction ps) (simp_all add: advanceParticles_p0_def)

text \<open>In both variants every particle a tick keeps has lost exactly \<open>0.02\<close> of its life.\<close>

lemma advanceParticles_lives:
  "map life (advanceParticles ps) = map (\<lambda>p. life p - 0.02) (filter (\<lambda>p. life p > 0) ps)"
  by (simp add: advanceParticles_def)

lemma advanceParticles_p0_lives:
  "map life (advanceParticles_p0 ps) = map (\<lambda>p. life p - 0.02) (filter (\<lambda>p. life p - 0.02 > 0) ps)"
  by (induction ps) (simp_all add: advanceParticles_p0_def)

text \<open>
  C7. Each particle is to lose \<open>0.02\<close> of its life per tick and to leave the live set at
  the first tick at which its life is \<open>\<le> 0\<close>, without staying for an additional tick.
  \<^verbatim>\<open>part_000\<close> does this (\<open>advanceParticles_p0_alive\<close>); \<^verbatim>\<open>index.tsx\<close> filters before
  it decrements. A freshly spawned particle (life \<open>1\<close>) is, after its 50th tick in
  \<^verbatim>\<open>index.tsx\<close>, still in the live set with life \<open>0\<close>, and only the 51st tick removes
  it; in \<^verbatim>\<open>part_000\<close> the 50th tick removes it.
\<close>

theorem advanceParticles_keeps_spent_particle:
  "map life ((advanceParticles ^^ 50) (newParticles sampleRnd 0 960 540 ''#ffffff'' (Suc 0) 1)) = [0]
   \<and> (advanceParticles ^^ 51) (newParticles sampleRnd 0 960 540 ''#ffffff'' (Suc 0) 1) = []
   \<and> (advanceParticles_p0 ^^ 50) (newParticles sampleRnd 0 960 540 ''#ffffff'' (Suc 0) 1) = []"
proof -
  let ?p = "newParticles sampleRnd 0 960 540 ''#ffffff'' (Suc 0) 1"
  have a49: "(advanceParticles ^^ 49) ?p =
      [\<lparr>px = 960 + real 49 * ((sampleRnd 0 - 0.5) * 10), py = 540 + real 49 * ((sampleRnd (0 + 1) - 0.5) * 10),
        vx = (sampleRnd 0 - 0.5) * 10, vy = (sampleRnd (0 + 1) - 0.5) * 10, life = 1 - real 49 / 50,
        color = ''#ffffff'', psize = 1\<rparr>]"
    using advanceParticles_funpow [of 49 1] by simp
  have b49: "(advanceParticles_p0 ^^ 49) ?p =
      [\<lparr>px = 960 + real 49 * ((sampleRnd 0 - 0.5) * 10), py = 540 + real 49 * ((sampleRnd (0 + 1) - 0.5) * 10),
        vx = (sampleRnd 0 - 0.5) * 10, vy = (sampleRnd (0 + 1) - 0.5) * 10, life = 1 - real 49 / 50,
        color = ''#ffffff'', psize = 1\<rparr>]"
    using advanceParticles_p0_funpow [of 49 1] by simp
  have s50: "(50::nat) = Suc 49" and s51: "(51::nat) = Suc (Suc 49)" by simp_all
  have a50: "map life ((advanceParticles ^^ 50) ?p) = [0]"
    unfolding s50 funpow.simps o_apply a49 by (simp add: advanceParticles_single)
  have a51: "(advanceParticles ^^ 51) ?p = []"
    unfolding s51 funpow.simps o_apply a49 by (simp add: advanceParticles_single)
  have b50: "(advanceParticles_p0 ^^ 50) ?p = []"
    unfolding s50 funpow.simps o_apply b49 by (simp add: advanceParticles_p0_single)
  show ?thesis using a50 a51 b50 by simp
qed

section \<open>Mission loading\<close>

text \<open>
  \<^verbatim>\<open>part_000\<close>: when the provider call throws, and when the parsed data has no first
  objective, the built-in mission is installed, loading ends, the roster is spawned and
  the start button takes the game to \<open>playing\<close>.
\<close>

lemma generateMission_p0_fallback:
  assumes "resp = Rejected \<or> (\<exists>d. resp = Resolved d \<and> objectives d = [])"
  shows "mission (generateMission_p0 w h resp s) = Some fallback"
    and "\<not> isLoading (generateMission_p0 w h resp s)"
    and "length (entitiesRef (generateMission_p0 w h resp s)) = 6"
    and "gameState s = briefing \<Longrightarrow> gameState (startPressed (generateMission_p0 w h resp s)) = playing"
  using assms
  by (auto simp add: generateMission_p0_def installFallback_def spawnEntities_p0_def startPressed_def
      setGameState_def Let_def)

lemma fallback_objectives: "map otype (objectives fallback) = [eliminate, destroy]"
  by (simp add: fallback_def)

text \<open>
  \<^verbatim>\<open>index.tsx\<close>: a state without a mission that is not loading stays as it is under every
  event, the start button included.
\<close>

lemma step_no_mission:
  assumes "mission s = None" "gameState s = briefing" "\<not> isLoading s" "entities s = []"
  shows "\<exists>s'. step rnd ev s = Inr s' \<and> mission s' = None \<and> gameState s' = briefing
           \<and> \<not> isLoading s' \<and> entities s' = []"
  using assms
  by (cases ev)
     (auto simp add: startPressed_def renderEffect_def handleShoot_def timeoutFires_def
        chainReaction_def split: list.splits)

lemma run_no_mission:
  assumes "mission s = None" "gameState s = briefing" "\<not> isLoading s" "entities s = []"
  shows "\<exists>s'. run rnd evs s = Inr s' \<and> mission s' = None \<and> gameState s' = briefing
           \<and> entities s' = []"
  using assms
proof (induction evs arbitrary: s)
  case Nil
  then show ?case by simp
next
  case (Cons ev evs)
  from step_no_mission [OF Cons.prems, of rnd ev]
  obtain s1 where s1: "step rnd ev s = Inr s1" "mission s1 = None" "gameState s1 = briefing"
      "\<not> isLoading s1" "entities s1 = []"
    by blast
  from Cons.IH [OF s1(2-5)] s1(1) show ?case by simp
qed

text \<open>
  \<^verbatim>\<open>index.tsx\<close>: parsed data without a first objective is stored as the mission; the
  game can be started, and the first frame throws.
\<close>

lemma run_empty_objectives:
  "objectives d = [] \<Longrightarrow>
   run rnd [MissionArrives (Resolved d) w h, StartPressed, Frame w h time now] initial = Inl TypeError"
proof -
  assume d: "objectives d = []"
  let ?s = "startPressed (generateMission rnd w h (Resolved d) initial)"
  have a: "gameState ?s = playing" "mission ?s = Some d" "currentObjIndex ?s = 0"
    using d
    by (simp_all add: generateMission_def spawnEntities_def startPressed_def setGameState_def
        initial_def Let_def)
  have "render rnd w h time now ?s = Inl TypeError"
    using a d by (simp add: render_def Let_def split: prod.splits)
  then have "renderEffect rnd w h time now ?s = Inl TypeError"
    using a by (simp add: renderEffect_def)
  moreover have "isLoading initial" by (simp add: initial_def)
  ultimately show ?thesis by simp
qed

text \<open>
  C5. A failed mission request is to end with the built-in fallback mission installed and
  the game playable. \<^verbatim>\<open>part_000\<close> does so (\<open>generateMission_p0_fallback\<close>). In
  \<^verbatim>\<open>index.tsx\<close> the \<open>catch\<close> block only clears \<open>isLoading\<close>: after a throwing provider
  call no mission is ever installed, no entity is spawned and the game stays in
  \<open>briefing\<close> whatever happens afterwards.
\<close>

theorem generateMission_rejected_stuck:
  "\<exists>s. run rnd (MissionArrives Rejected w h # evs) initial = Inr s
       \<and> mission s = None \<and> gameState s = briefing \<and> entities s = []"
proof -
  let ?s = "generateMission rnd w h Rejected initial"
  have "mission ?s = None" "gameState ?s = briefing" "\<not> isLoading ?s" "entities ?s = []"
    by (simp_all add: generateMission_def initial_def)
  from run_no_mission [OF this, of rnd evs] show ?thesis
    by (simp add: initial_def)
qed

section \<open>What a click does to the objective state\<close>

lemma satisfies_in_range:
  "satisfies ent (currentObj s0) \<Longrightarrow> mission s0 \<noteq> None \<and> currentObjIndex s0 < objectiveCount s0"
  by (auto simp add: satisfies_def objIs_def currentObj_def objectiveCount_def
      split: option.splits if_splits)

lemma satisfies_p0_in_range:
  "satisfies_p0 ent (currentObj s0) \<Longrightarrow> mission s0 \<noteq> None \<and> currentObjIndex s0 < objectiveCount s0"
  by (auto simp add: satisfies_p0_def objIs_def currentObj_def objectiveCount_def
      split: option.splits if_splits)

lemma advanceObjective_objective:
  "mission s0 \<noteq> None \<Longrightarrow> currentObjIndex (advanceObjective s0 s) =
     (if currentObjIndex s0 + 1 < objectiveCount s0 then currentObjIndex s0 + 1 else currentObjIndex s)"
  "mission s0 \<noteq> None \<Longrightarrow> gameState (advanceObjective s0 s) =
     (if currentObjIndex s0 + 1 < objectiveCount s0 then gameState s else success)"
  by (auto simp add: advanceObjective_def objectiveCount_def speakSpotter_def setGameState_def Let_def)

lemma advanceObjective_keeps [simp]:
  "mission (advanceObjective s0 s) = mission s"
  "isLoading (advanceObjective s0 s) = isLoading s"
  "entities (advanceObjective s0 s) = entities s"
  "playerHealth (advanceObjective s0 s) = playerHealth s"
  "timeouts (advanceObjective s0 s) = timeouts s"
  "swayOffset (advanceObjective s0 s) = swayOffset s"
  by (simp_all add: advanceObjective_def speakSpotter_def setGameState_def Let_def split: option.splits)

lemma shootEntity_objective:
  "currentObjIndex (snd (snd (shootEntity rnd w h s0 ix iy ent hit s))) =
     (if \<not> isDead ent \<and> inHitBox (mousePos s) w h ix iy ent \<and> satisfies ent (currentObj s0)
         \<and> currentObjIndex s0 + 1 < objectiveCount s0
      then currentObjIndex s0 + 1 else currentObjIndex s)"
  "gameState (snd (snd (shootEntity rnd w h s0 ix iy ent hit s))) =
     (if \<not> isDead ent \<and> inHitBox (mousePos s) w h ix iy ent \<and> satisfies ent (currentObj s0)
         \<and> \<not> currentObjIndex s0 + 1 < objectiveCount s0
      then success else gameState s)"
  using satisfies_in_range [of ent s0]
  by (auto simp add: shootEntity_def inHitBox_def Let_def advanceObjective_objective satisfies_def)

lemma shootEntity_keeps:
  "mission (snd (snd (shootEntity rnd w h s0 ix iy ent hit s))) = mission s"
  "isLoading (snd (snd (shootEntity rnd w h s0 ix iy ent hit s))) = isLoading s"
  "playerHealth (snd (snd (shootEntity rnd w h s0 ix iy ent hit s))) = playerHealth s"
  "swayOffset (snd (snd (shootEntity rnd w h s0 ix iy ent hit s))) = swayOffset s"
  by (simp_all add: shootEntity_def Let_def)

lemma shootEntity_timeouts:
  "timeouts (snd (snd (shootEntity rnd w h s0 ix iy ent hit s))) =
     timeouts s @ (if \<not> isDead ent \<and> inHitBox (mousePos s) w h ix iy ent \<and> etype ent = Barrel
                   then [ent] else [])"
  by (auto simp add: shootEntity_def inHitBox_def Let_def)

lemma shootEntities_Cons_snd:
  "snd (snd (shootEntities rnd w h s0 ix iy (e # es) hit s)) =
     snd (snd (shootEntities rnd w h s0 ix iy es
       (fst (snd (shootEntity rnd w h s0 ix iy e hit s)))
       (snd (snd (shootEntity rnd w h s0 ix iy e hit s)))))"
  by (simp split: prod.splits)

lemma shootEntities_p0_Cons_snd:
  "snd (snd (shootEntities_p0 rnd w h s0 ix iy (e # es) hit s)) =
     snd (snd (shootEntities_p0 rnd w h s0 ix iy es
       (fst (snd (shootEntity_p0 rnd w h s0 ix iy e hit s)))
       (snd (snd (shootEntity_p0 rnd w h s0 ix iy e hit s)))))"
  by (simp split: prod.splits)

text \<open>
  The fold over the entity list. An invariant of the single step that does not mention
  the entity carries over to the loop.
\<close>

lemma shootEntities_state:
  assumes "\<And>ent hit s. mousePos s = mp \<Longrightarrow> P s \<Longrightarrow> P (snd (snd (shootEntity rnd w h s0 ix iy ent hit s)))"
    and "mousePos s = mp" and "P s"
  shows "P (snd (snd (shootEntities rnd w h s0 ix iy es hit s)))"
  using assms(2,3)
proof (induction es arbitrary: hit s)
  case Nil
  then show ?case by simp
next
  case (Cons e es)
  let ?s' = "snd (snd (shootEntity rnd w h s0 ix iy e hit s))"
  have mp: "mousePos ?s' = mp"
    using shootEntity_mousePos [of rnd w h s0 ix iy e hit s] Cons.prems by simp
  have "P ?s'" using assms(1) [OF Cons.prems, of e hit] by simp
  from Cons.IH [OF mp this] show ?case by (simp only: shootEntities_Cons_snd)
qed

lemma shootEntities_keeps:
  "mousePos (snd (snd (shootEntities rnd w h s0 ix iy es hit s))) = mousePos s"
  "mission (snd (snd (shootEntities rnd w h s0 ix iy es hit s))) = mission s"
  "isLoading (snd (snd (shootEntities rnd w h s0 ix iy es hit s))) = isLoading s"
  "playerHealth (snd (snd (shootEntities rnd w h s0 ix iy es hit s))) = playerHealth s"
  "swayOffset (snd (snd (shootEntities rnd w h s0 ix iy es hit s))) = swayOffset s"
proof -
  show "mousePos (snd (snd (shootEntities rnd w h s0 ix iy es hit s))) = mousePos s"
    by (rule shootEntities_state [where P = "\<lambda>t. mousePos t = mousePos s" and mp = "mousePos s"])
       (simp_all add: shootEntity_mousePos)
  show "mission (snd (snd (shootEntities rnd w h s0 ix iy es hit s))) = mission s"
    by (rule shootEntities_state [where P = "\<lambda>t. mission t = mission s" and mp = "mousePos s"])
       (simp_all add: shootEntity_keeps)
  show "isLoading (snd (snd (shootEntities rnd w h s0 ix iy es hit s))) = isLoading s"
    by (rule shootEntities_state [where P = "\<lambda>t. isLoading t = isLoading s" and mp = "mousePos s"])
       (simp_all add: shootEntity_keeps)
  show "playerHealth (snd (snd (shootEntities rnd w h s0 ix iy es hit s))) = playerHealth s"
    by (rule shootEntities_state [where P = "\<lambda>t. playerHealth t = playerHealth s" and mp = "mousePos s"])
       (simp_all add: shootEntity_keeps)
  show "swayOffset (snd (snd (shootEntities rnd w h s0 ix iy es hit s))) = swayOffset s"
    by (rule shootEntities_state [where P = "\<lambda>t. swayOffset t = swayOffset s" and mp = "mousePos s"])
       (simp_all add: shootEntity_keeps)
qed

lemma shootEntities_objective:
  "currentObjIndex (snd (snd (shootEntities rnd w h s0 ix iy es hit s))) =
     (if filter (\<lambda>ent. \<not> isDead ent \<and> inHitBox (mousePos s) w h ix iy ent
                        \<and> satisfies ent (currentObj s0)) es \<noteq> []
         \<and> currentObjIndex s0 + 1 < objectiveCount s0
      then currentObjIndex s0 + 1 else currentObjIndex s)
   \<and> gameState (snd (snd (shootEntities rnd w h s0 ix iy es hit s))) =
     (if filter (\<lambda>ent. \<not> isDead ent \<and> inHitBox (mousePos s) w h ix iy ent
                        \<and> satisfies ent (currentObj s0)) es \<noteq> []
         \<and> \<not> currentObjIndex s0 + 1 < objectiveCount s0
      then success else gameState s)"
proof (induction es arbitrary: hit s)
  case Nil
  show ?case by simp
next
  case (Cons e es)
  let ?s' = "snd (snd (shootEntity rnd w h s0 ix iy e hit s))"
  have mp: "mousePos ?s' = mousePos s"
    using shootEntity_mousePos [of rnd w h s0 ix iy e hit s] by simp
  show ?case
    unfolding shootEntities_Cons_snd
    using Cons.IH [of "fst (snd (shootEntity rnd w h s0 ix iy e hit s))" ?s'] mp
    by (simp add: shootEntity_objective)
qed

lemma shootEntities_timeouts:
  "timeouts (snd (snd (shootEntities rnd w h s0 ix iy es hit s))) =
     timeouts s @ filter (\<lambda>ent. \<not> isDead ent \<and> inHitBox (mousePos s) w h ix iy ent
                               \<and> etype ent = Barrel) es"
proof (induction es arbitrary: hit s)
  case Nil
  show ?case by simp
next
  case (Cons e es)
  let ?s' = "snd (snd (shootEntity rnd w h s0 ix iy e hit s))"
  have mp: "mousePos ?s' = mousePos s"
    using shootEntity_mousePos [of rnd w h s0 ix iy e hit s] by simp
  show ?case
    unfolding shootEntities_Cons_snd
    using Cons.IH [of "fst (snd (shootEntity rnd w h s0 ix iy e hit s))" ?s'] mp
    by (simp add: shootEntity_timeouts)
qed

text \<open>The state a click in the playing state leaves, field by field.\<close>

lemma handleShoot_snd:
  assumes "gameState s = playing"
  shows "\<exists>t u. u = snd (snd (shootEntities rnd w h s (fst (impact w h s)) (snd (impact w h s))
                  (entities s) False (s\<lparr>shotsFired := shotsFired s + 1, screenShake := 10\<rparr>)))
           \<and> (t = u \<or> t = createParticles rnd (fst (impact w h s)) (snd (impact w h s)) ''#ffffff'' 3 1 u)
           \<and> handleShoot rnd w h s = t\<lparr>entities := fst (shootEntities rnd w h s (fst (impact w h s))
                  (snd (impact w h s)) (entities s) False
                  (s\<lparr>shotsFired := shotsFired s + 1, screenShake := 10\<rparr>))\<rparr>"
  using assms
  by (auto simp add: handleShoot_def Let_def impact_def split: prod.splits)

lemma handleShoot_objective:
  assumes "gameState s = playing"
  shows "currentObjIndex (handleShoot rnd w h s) =
           (if satisfyingHits w h s \<noteq> [] \<and> currentObjIndex s + 1 < objectiveCount s
            then currentObjIndex s + 1 else currentObjIndex s)"
    and "gameState (handleShoot rnd w h s) =
           (if satisfyingHits w h s \<noteq> [] \<and> \<not> currentObjIndex s + 1 < objectiveCount s
            then success else playing)"
proof -
  from handleShoot_snd [OF assms, of rnd w h] obtain t u where
    u: "u = snd (snd (shootEntities rnd w h s (fst (impact w h s)) (snd (impact w h s))
                  (entities s) False (s\<lparr>shotsFired := shotsFired s + 1, screenShake := 10\<rparr>)))"
    and t: "t = u \<or> t = createParticles rnd (fst (impact w h s)) (snd (impact w h s)) ''#ffffff'' 3 1 u"
    and hs: "handleShoot rnd w h s = t\<lparr>entities := fst (shootEntities rnd w h s (fst (impact w h s))
                  (snd (impact w h s)) (entities s) False
                  (s\<lparr>shotsFired := shotsFired s + 1, screenShake := 10\<rparr>))\<rparr>"
    by blast
  have tu: "currentObjIndex t = currentObjIndex u" "gameState t = gameState u"
    using t by auto
  show "currentObjIndex (handleShoot rnd w h s) =
           (if satisfyingHits w h s \<noteq> [] \<and> currentObjIndex s + 1 < objectiveCount s
            then currentObjIndex s + 1 else currentObjIndex s)"
    unfolding hs using tu u shootEntities_objective [of rnd w h s "fst (impact w h s)" "snd (impact w h s)"
        "entities s" False "s\<lparr>shotsFired := shotsFired s + 1, screenShake := 10\<rparr>"]
    by (simp add: satisfyingHits_def)
  show "gameState (handleShoot rnd w h s) =
           (if satisfyingHits w h s \<noteq> [] \<and> \<not> currentObjIndex s + 1 < objectiveCount s
            then success else playing)"
    unfolding hs using tu u assms shootEntities_objective [of rnd w h s "fst (impact w h s)" "snd (impact w h s)"
        "entities s" False "s\<lparr>shotsFired := shotsFired s + 1, screenShake := 10\<rparr>"]
    by (simp add: satisfyingHits_def)
qed

lemma handleShoot_timeouts:
  assumes "gameState s = playing"
  shows "timeouts (handleShoot rnd w h s) =
           timeouts s @ filter (\<lambda>ent. \<not> isDead ent
                \<and> inHitBox (mousePos s) w h (fst (impact w h s)) (snd (impact w h s)) ent
                \<and> etype ent = Barrel) (entities s)"
proof -
  from handleShoot_snd [OF assms, of rnd w h] obtain t u where
    u: "u = snd (snd (shootEntities rnd w h s (fst (impact w h s)) (snd (impact w h s))
                  (entities s) False (s\<lparr>shotsFired := shotsFired s + 1, screenShake := 10\<rparr>)))"
    and t: "t = u \<or> t = createParticles rnd (fst (impact w h s)) (snd (impact w h s)) ''#ffffff'' 3 1 u"
    and hs: "handleShoot rnd w h s = t\<lparr>entities := fst (shootEntities rnd w h s (fst (impact w h s))
                  (snd (impact w h s)) (entities s) False
                  (s\<lparr>shotsFired := shotsFired s + 1, screenShake := 10\<rparr>))\<rparr>"
    by blast
  have "timeouts t = timeouts u" using t by auto
  then show ?thesis
    unfolding hs using u by (simp add: shootEntities_timeouts)
qed

lemma handleShoot_keeps:
  "mission (handleShoot rnd w h s) = mission s"
  "isLoading (handleShoot rnd w h s) = isLoading s"
  "playerHealth (handleShoot rnd w h s) = playerHealth s"
  "mousePos (handleShoot rnd w h s) = mousePos s"
  "swayOffset (handleShoot rnd w h s) = swayOffset s"
proof -
  have "mission (handleShoot rnd w h s) = mission s \<and> isLoading (handleShoot rnd w h s) = isLoading s
      \<and> playerHealth (handleShoot rnd w h s) = playerHealth s
      \<and> mousePos (handleShoot rnd w h s) = mousePos s
      \<and> swayOffset (handleShoot rnd w h s) = swayOffset s"
  proof (cases "gameState s = playing")
    case False
    then show ?thesis by (simp add: handleShoot_def)
  next
    case True
    from handleShoot_snd [OF True, of rnd w h] obtain t u where
      u: "u = snd (snd (shootEntities rnd w h s (fst (impact w h s)) (snd (impact w h s))
                  (entities s) False (s\<lparr>shotsFired := shotsFired s + 1, screenShake := 10\<rparr>)))"
      and t: "t = u \<or> t = createParticles rnd (fst (impact w h s)) (snd (impact w h s)) ''#ffffff'' 3 1 u"
      and hs: "handleShoot rnd w h s = t\<lparr>entities := fst (shootEntities rnd w h s (fst (impact w h s))
                  (snd (impact w h s)) (entities s) False
                  (s\<lparr>shotsFired := shotsFired s + 1, screenShake := 10\<rparr>))\<rparr>"
      by blast
    have "mission t = mission u" "isLoading t = isLoading u" "playerHealth t = playerHealth u"
      "mousePos t = mousePos u" "swayOffset t = swayOffset u"
      using t by auto
    then show ?thesis unfolding hs using u by (simp add: shootEntities_keeps)
  qed
  then show "mission (handleShoot rnd w h s) = mission s"
    "isLoading (handleShoot rnd w h s) = isLoading s"
    "playerHealth (handleShoot rnd w h s) = playerHealth s"
    "mousePos (handleShoot rnd w h s) = mousePos s"
    "swayOffset (handleShoot rnd w h s) = swayOffset s"
    by simp_all
qed

text \<open>The same for \<^verbatim>\<open>part_000\<close>.\<close>

lemma handleShoot_p0_snd:
  assumes "gameState s = playing"
  shows "\<exists>t u. u = snd (snd (shootEntities_p0 rnd w h s (fst (impact w h s)) (snd (impact w h s))
                  (entitiesRef s) False (s\<lparr>screenShake := 15\<rparr>)))
           \<and> t = u\<lparr>entitiesRef := fst (shootEntities_p0 rnd w h s (fst (impact w h s))
                  (snd (impact w h s)) (entitiesRef s) False (s\<lparr>screenShake := 15\<rparr>))\<rparr>
           \<and> (handleShoot_p0 rnd w h s = t
               \<or> handleShoot_p0 rnd w h s
                    = createParticles_p0 rnd (fst (impact w h s)) (snd (impact w h s)) ''#fff'' 3 1 t)"
  using assms
  by (auto simp add: handleShoot_p0_def Let_def impact_def split: prod.splits)

lemma shootEntity_p0_keeps:
  "mission (snd (snd (shootEntity_p0 rnd w h s0 ix iy ent hit s))) = mission s"
  "isLoading (snd (snd (shootEntity_p0 rnd w h s0 ix iy ent hit s))) = isLoading s"
  "playerHealthRef (snd (snd (shootEntity_p0 rnd w h s0 ix iy ent hit s))) = playerHealthRef s"
  "healthUI (snd (snd (shootEntity_p0 rnd w h s0 ix iy ent hit s))) = healthUI s"
  "swayOffset (snd (snd (shootEntity_p0 rnd w h s0 ix iy ent hit s))) = swayOffset s"
  "timeouts (snd (snd (shootEntity_p0 rnd w h s0 ix iy ent hit s))) = timeouts s"
  by (simp_all add: shootEntity_p0_def Let_def speakSpotter_def setGameState_def createParticles_p0_def)

lemma shootEntities_p0_state:
  assumes "\<And>ent hit s. mousePos s = mp \<Longrightarrow> P s \<Longrightarrow> P (snd (snd (shootEntity_p0 rnd w h s0 ix iy ent hit s)))"
    and "mousePos s = mp" and "P s"
  shows "P (snd (snd (shootEntities_p0 rnd w h s0 ix iy es hit s)))"
  using assms(2,3)
proof (induction es arbitrary: hit s)
  case Nil
  then show ?case by simp
next
  case (Cons e es)
  let ?s' = "snd (snd (shootEntity_p0 rnd w h s0 ix iy e hit s))"
  have mp: "mousePos ?s' = mp"
    using shootEntity_p0_mousePos [of rnd w h s0 ix iy e hit s] Cons.prems by simp
  have "P ?s'" using assms(1) [OF Cons.prems, of e hit] by simp
  from Cons.IH [OF mp this] show ?case by (simp only: shootEntities_p0_Cons_snd)
qed

lemma shootEntities_p0_keeps:
  "mousePos (snd (snd (shootEntities_p0 rnd w h s0 ix iy es hit s))) = mousePos s"
  "mission (snd (snd (shootEntities_p0 rnd w h s0 ix iy es hit s))) = mission s"
  "isLoading (snd (snd (shootEntities_p0 rnd w h s0 ix iy es hit s))) = isLoading s"
  "playerHealthRef (snd (snd (shootEntities_p0 rnd w h s0 ix iy es hit s))) = playerHealthRef s"
  "healthUI (snd (snd (shootEntities_p0 rnd w h s0 ix iy es hit s))) = healthUI s"
  "swayOffset (snd (snd (shootEntities_p0 rnd w h s0 ix iy es hit s))) = swayOffset s"
  "timeouts (snd (snd (shootEntities_p0 rnd w h s0 ix iy es hit s))) = timeouts s"
proof -
  show "mousePos (snd (snd (shootEntities_p0 rnd w h s0 ix iy es hit s))) = mousePos s"
    by (rule shootEntities_p0_state [where P = "\<lambda>t. mousePos t = mousePos s" and mp = "mousePos s"])
       (simp_all add: shootEntity_p0_mousePos)
  show "mission (snd (snd (shootEntities_p0 rnd w h s0 ix iy es hit s))) = mission s"
    by (rule shootEntities_p0_state [where P = "\<lambda>t. mission t = mission s" and mp = "mousePos s"])
       (simp_all add: shootEntity_p0_keeps)
  show "isLoading (snd (snd (shootEntities_p0 rnd w h s0 ix iy es hit s))) = isLoading s"
    by (rule shootEntities_p0_state [where P = "\<lambda>t. isLoading t = isLoading s" and mp = "mousePos s"])
       (simp_all add: shootEntity_p0_keeps)
  show "playerHealthRef (snd (snd (shootEntities_p0 rnd w h s0 ix iy es hit s))) = playerHealthRef s"
    by (rule shootEntities_p0_state [where P = "\<lambda>t. playerHealthRef t = playerHealthRef s" and mp = "mousePos s"])
       (simp_all add: shootEntity_p0_keeps)
  show "healthUI (snd (snd (shootEntities_p0 rnd w h s0 ix iy es hit s))) = healthUI s"
    by (rule shootEntities_p0_state [where P = "\<lambda>t. healthUI t = healthUI s" and mp = "mousePos s"])
       (simp_all add: shootEntity_p0_keeps)
  show "swayOffset (snd (snd (shootEntities_p0 rnd w h s0 ix iy es hit s))) = swayOffset s"
    by (rule shootEntities_p0_state [where P = "\<lambda>t. swayOffset t = swayOffset s" and mp = "mousePos s"])
       (simp_all add: shootEntity_p0_keeps)
  show "timeouts (snd (snd (shootEntities_p0 rnd w h s0 ix iy es hit s))) = timeouts s"
    by (rule shootEntities_p0_state [where P = "\<lambda>t. timeouts t = timeouts s" and mp = "mousePos s"])
       (simp_all add: shootEntity_p0_keeps)
qed

lemma handleShoot_p0_keeps:
  "mission (handleShoot_p0 rnd w h s) = mission s"
  "isLoading (handleShoot_p0 rnd w h s) = isLoading s"
  "playerHealthRef (handleShoot_p0 rnd w h s) = playerHealthRef s"
  "healthUI (handleShoot_p0 rnd w h s) = healthUI s"
  "mousePos (handleShoot_p0 rnd w h s) = mousePos s"
  "swayOffset (handleShoot_p0 rnd w h s) = swayOffset s"
  "timeouts (handleShoot_p0 rnd w h s) = timeouts s"
proof -
  have "mission (handleShoot_p0 rnd w h s) = mission s \<and> isLoading (handleShoot_p0 rnd w h s) = isLoading s
      \<and> playerHealthRef (handleShoot_p0 rnd w h s) = playerHealthRef s
      \<and> healthUI (handleShoot_p0 rnd w h s) = healthUI s
      \<and> mousePos (handleShoot_p0 rnd w h s) = mousePos s
      \<and> swayOffset (handleShoot_p0 rnd w h s) = swayOffset s
      \<and> timeouts (handleShoot_p0 rnd w h s) = timeouts s"
  proof (cases "gameState s = playing")
    case False
    then show ?thesis by (simp add: handleShoot_p0_def)
  next
    case True
    from handleShoot_p0_snd [OF True, of rnd w h] obtain t u where
      u: "u = snd (snd (shootEntities_p0 rnd w h s (fst (impact w h s)) (snd (impact w h s))
                  (entitiesRef s) False (s\<lparr>screenShake := 15\<rparr>)))"
      and t: "t = u\<lparr>entitiesRef := fst (shootEntities_p0 rnd w h s (fst (impact w h s))
                  (snd (impact w h s)) (entitiesRef s) False (s\<lparr>screenShake := 15\<rparr>))\<rparr>"
      and hs: "handleShoot_p0 rnd w h s = t
               \<or> handleShoot_p0 rnd w h s
                    = createParticles_p0 rnd (fst (impact w h s)) (snd (impact w h s)) ''#fff'' 3 1 t"
      by blast
    have tu: "mission t = mission s" "isLoading t = isLoading s" "playerHealthRef t = playerHealthRef s"
      "healthUI t = healthUI s" "mousePos t = mousePos s" "swayOffset t = swayOffset s"
      "timeouts t = timeouts s"
      unfolding t u by (simp_all add: shootEntities_p0_keeps)
    from hs show ?thesis
    proof
      assume "handleShoot_p0 rnd w h s = t"
      then show ?thesis using tu by simp
    next
      assume "handleShoot_p0 rnd w h s
                    = createParticles_p0 rnd (fst (impact w h s)) (snd (impact w h s)) ''#fff'' 3 1 t"
      then show ?thesis using tu by (simp add: createParticles_p0_def)
    qed
  qed
  then show "mission (handleShoot_p0 rnd w h s) = mission s"
  "isLoading (handleShoot_p0 rnd w h s) = isLoading s"
  "playerHealthRef (handleShoot_p0 rnd w h s) = playerHealthRef s"
  "healthUI (handleShoot_p0 rnd w h s) = healthUI s"
  "mousePos (handleShoot_p0 rnd w h s) = mousePos s"
  "swayOffset (handleShoot_p0 rnd w h s) = swayOffset s"
  "timeouts (handleShoot_p0 rnd w h s) = timeouts s"
    by simp_all
qed

section \<open>The chain reaction\<close>

lemma hypot_less_300: "hypot a b < 300 \<longleftrightarrow> a\<^sup>2 + b\<^sup>2 < 90000"
proof -
  have r: "sqrt 90000 = 300" by (rule real_sqrt_unique) simp_all
  have "sqrt (a\<^sup>2 + b\<^sup>2) < sqrt 90000 \<longleftrightarrow> a\<^sup>2 + b\<^sup>2 < 90000"
    by (rule real_sqrt_less_iff)
  then show ?thesis unfolding r hypot_def .
qed

lemma chainReaction_eq:
  "chainReaction ent es =
     map (\<lambda>other. if (ex ent - ex other)\<^sup>2 + (ey ent - ey other)\<^sup>2 < 90000 \<and> eid other \<noteq> eid ent
                   then other\<lparr>isDead := True\<rparr> else other) es"
  by (simp add: chainReaction_def Let_def hypot_less_300)

text \<open>
  \<^verbatim>\<open>index.tsx\<close>: the blast kills exactly the other entities closer than 300 to the barrel,
  the distance being taken in \<open>x\<close> and \<open>y\<close>; every other entity is left as it was.
\<close>

lemma chainReaction_exact:
  "length (chainReaction ent es) = length es"
  "i < length es \<Longrightarrow> hypot (ex ent - ex (es ! i)) (ey ent - ey (es ! i)) < 300 \<Longrightarrow>
     eid (es ! i) \<noteq> eid ent \<Longrightarrow> chainReaction ent es ! i = (es ! i)\<lparr>isDead := True\<rparr>"
  "i < length es \<Longrightarrow> hypot (ex ent - ex (es ! i)) (ey ent - ey (es ! i)) \<ge> 300 \<Longrightarrow>
     chainReaction ent es ! i = es ! i"
  "i < length es \<Longrightarrow> eid (es ! i) = eid ent \<Longrightarrow> chainReaction ent es ! i = es ! i"
  by (simp_all add: chainReaction_def Let_def)

lemmas demolition_simps = demolitionState_def demolitionMission_def

lemma demolitionState_playing: "gameState demolitionState = playing"
  by (simp add: demolition_simps sample_simps)



text \<open>The click on the barrels of the demolition sample, and the first callback after it.\<close>

lemma demolition_shot:
  "gameState (handleShoot sampleRnd 1920 1080 demolitionState) = success"
  "map isDead (entities (handleShoot sampleRnd 1920 1080 demolitionState))
       = [False, True, True, True, True, True, False, False]"
  "timeouts (handleShoot sampleRnd 1920 1080 demolitionState)
       = filter (\<lambda>e. etype e = Barrel) (entities demolitionState)"
  "map isDead (entities (timeoutFires (handleShoot sampleRnd 1920 1080 demolitionState)))
       = [True, True, True, True, True, True, False, True]"
proof -
  let ?s = "handleShoot sampleRnd 1920 1080 demolitionState"
  show es: "map isDead (entities ?s) = [False, True, True, True, True, True, False, False]"
    unfolding handleShoot_entities [OF demolitionState_playing]
    by (simp add: demolition_simps sample_simps inHitBox_def hitProjection_def impact_def)
  have sat: "satisfyingHits 1920 1080 demolitionState \<noteq> []"
    by (simp add: satisfyingHits_def demolition_simps sample_simps inHitBox_def hitProjection_def
        impact_def satisfies_def currentObj_def objIs_def)
  show gs: "gameState ?s = success"
    unfolding handleShoot_objective(2) [OF demolitionState_playing] using sat
    by (simp add: objectiveCount_def demolition_simps sample_simps)
  show to: "timeouts ?s = filter (\<lambda>e. etype e = Barrel) (entities demolitionState)"
    unfolding handleShoot_timeouts [OF demolitionState_playing]
    by (simp add: demolition_simps sample_simps inHitBox_def hitProjection_def impact_def)
  show "map isDead (entities (timeoutFires ?s)) = [True, True, True, True, True, True, False, True]"
    unfolding timeoutFires_def to handleShoot_entities [OF demolitionState_playing]
    by (simp add: demolition_simps sample_simps inHitBox_def hitProjection_def impact_def
        chainReaction_eq power2_eq_square)
qed

text \<open>
  C9 as stated: a chain-reaction callback that fires after the game has left \<open>playing\<close>
  is a no-op. It is not: in \<^verbatim>\<open>index.tsx\<close> the callback never reads the game state. In
  the demolition sample one click destroys the barrels, which completes the only
  objective, so the game state is \<open>success\<close> with callbacks pending; when the first one
  fires, the game state is still \<open>success\<close> and the primary target and the intel item,
  alive until then, are marked dead.
\<close>

theorem timeout_mutates_after_success:
  "gameState (handleShoot sampleRnd 1920 1080 demolitionState) = success
   \<and> map isDead (entities (handleShoot sampleRnd 1920 1080 demolitionState))
       = [False, True, True, True, True, True, False, False]
   \<and> gameState (timeoutFires (handleShoot sampleRnd 1920 1080 demolitionState)) = success
   \<and> map isDead (entities (timeoutFires (handleShoot sampleRnd 1920 1080 demolitionState)))
       = [True, True, True, True, True, True, False, True]"
proof -
  have "gameState (timeoutFires (handleShoot sampleRnd 1920 1080 demolitionState)) = success"
    using demolition_shot(1) by (simp add: timeoutFires_def split: list.splits)
  then show ?thesis using demolition_shot(1,2,4) by simp
qed

text \<open>
  C9 as amended: a pending chain-reaction callback of \<^verbatim>\<open>index.tsx\<close> does the same in
  every game state. When it fires it marks dead every entity within distance 300 (in
  \<open>x\<close> and \<open>y\<close>) of the barrel it captured, the barrel's own id excepted, and leaves the
  game state, the mission, the objective index, the player's health, the shot counter,
  the particles and the recorded effects as they were. \<^verbatim>\<open>part_000\<close> never queues a
  callback.
\<close>

theorem timeoutFires_any_gameState:
  "timeouts s = ent # rest \<Longrightarrow>
     entities (timeoutFires s) =
       map (\<lambda>other. if hypot (ex ent - ex other) (ey ent - ey other) < 300 \<and> eid other \<noteq> eid ent
                     then other\<lparr>isDead := True\<rparr> else other) (entities s)
     \<and> timeouts (timeoutFires s) = rest
     \<and> gameState (timeoutFires s) = gameState s
     \<and> mission (timeoutFires s) = mission s
     \<and> currentObjIndex (timeoutFires s) = currentObjIndex s
     \<and> playerHealth (timeoutFires s) = playerHealth s
     \<and> shotsFired (timeoutFires s) = shotsFired s
     \<and> particles (timeoutFires s) = particles s
     \<and> effects (timeoutFires s) = effects s
     \<and> timeouts (handleShoot_p0 rnd w h t) = timeouts t"
  by (simp add: timeoutFires_def chainReaction_def Let_def handleShoot_p0_keeps)

theorem timeoutFires_any_gameState_witness:
  "timeouts (handleShoot sampleRnd 1920 1080 demolitionState)
     = hd (timeouts (handleShoot sampleRnd 1920 1080 demolitionState))
       # tl (timeouts (handleShoot sampleRnd 1920 1080 demolitionState))
   \<and> gameState (handleShoot sampleRnd 1920 1080 demolitionState) = success
   \<and> gameState (timeoutFires (handleShoot sampleRnd 1920 1080 demolitionState)) = success
   \<and> timeouts (timeoutFires (handleShoot sampleRnd 1920 1080 demolitionState))
       = tl (timeouts (handleShoot sampleRnd 1920 1080 demolitionState))
   \<and> timeouts (handleShoot_p0 sampleRnd 1920 1080 sampleState_p0) = []"
proof -
  let ?s = "handleShoot sampleRnd 1920 1080 demolitionState"
  have "length (timeouts ?s) = 5"
    unfolding demolition_shot(3) by (simp add: demolition_simps sample_simps)
  then have "timeouts ?s \<noteq> []" by auto
  then have h: "timeouts ?s = hd (timeouts ?s) # tl (timeouts ?s)" by simp
  have t0: "timeouts sampleState_p0 = []"
    by (simp add: sample_simps)
  have k: "gameState (timeoutFires ?s) = gameState ?s
     \<and> timeouts (timeoutFires ?s) = tl (timeouts ?s)
     \<and> timeouts (handleShoot_p0 sampleRnd 1920 1080 sampleState_p0) = timeouts sampleState_p0"
    using timeoutFires_any_gameState [OF h, of sampleRnd 1920 1080 sampleState_p0] by blast
  show ?thesis
    apply (intro conjI)
        apply (rule h)
       apply (rule demolition_shot(1))
      apply (simp only: k demolition_shot(1))
     apply (simp only: k)
    apply (simp only: k t0)
    done
qed

text \<open>
  \<^verbatim>\<open>index.tsx\<close>: every living barrel a click strikes queues one callback, which captures
  that barrel; \<open>chainReaction_exact\<close> says what the callback does when it fires.
\<close>

lemma handleShoot_queues_barrels:
  assumes "gameState s = playing" "ent \<in> set (entities s)" "\<not> isDead ent" "etype ent = Barrel"
    "inHitBox (mousePos s) w h (fst (impact w h s)) (snd (impact w h s)) ent"
  shows "ent \<in> set (timeouts (handleShoot rnd w h s))"
  using assms by (simp add: handleShoot_timeouts)

text \<open>
  C6. A barrel hit is to kill, after the delay, exactly the other entities closer than
  300 to the barrel. \<^verbatim>\<open>index.tsx\<close> does so, with the distance taken in \<open>x\<close> and \<open>y\<close>
  (\<open>handleShoot_queues_barrels\<close>, \<open>chainReaction_exact\<close>). \<^verbatim>\<open>part_000\<close> has no chain
  reaction: in the sample state the click destroys \<open>barrel-1\<close>; the primary target and
  the intel item are both closer than 300 to it, and both are still alive after the
  click and after the moment a callback would have fired.
\<close>

theorem barrel_hit_p0_kills_nothing_else:
  "map etype (entitiesRef barrelAimState_p0) = [HVT, Bodyguard, Intel, Barrel, Barrel, Barrel]
   \<and> map isDead (entitiesRef barrelAimState_p0) = [False, False, False, False, False, False]
   \<and> hypot (ex (entitiesRef barrelAimState_p0 ! 4) - ex (entitiesRef barrelAimState_p0 ! 0))
            (ey (entitiesRef barrelAimState_p0 ! 4) - ey (entitiesRef barrelAimState_p0 ! 0)) < 300
   \<and> hypot (ex (entitiesRef barrelAimState_p0 ! 4) - ex (entitiesRef barrelAimState_p0 ! 2))
            (ey (entitiesRef barrelAimState_p0 ! 4) - ey (entitiesRef barrelAimState_p0 ! 2)) < 300
   \<and> map isDead (entitiesRef (run_p0 sampleRnd [MouseDown 1920 1080, TimeoutFires] barrelAimState_p0))
       = [False, False, False, False, True, False]"
proof -
  have pl: "gameState barrelAimState_p0 = playing" and nl: "\<not> isLoading barrelAimState_p0"
    by (simp_all add: barrelAimState_p0_def sample_simps)
  have a: "map etype (entitiesRef barrelAimState_p0) = [HVT, Bodyguard, Intel, Barrel, Barrel, Barrel]"
    and b: "map isDead (entitiesRef barrelAimState_p0) = [False, False, False, False, False, False]"
    by (simp_all add: barrelAimState_p0_def sample_simps)
  have c: "hypot (ex (entitiesRef barrelAimState_p0 ! 4) - ex (entitiesRef barrelAimState_p0 ! 0))
            (ey (entitiesRef barrelAimState_p0 ! 4) - ey (entitiesRef barrelAimState_p0 ! 0)) < 300"
    and d: "hypot (ex (entitiesRef barrelAimState_p0 ! 4) - ex (entitiesRef barrelAimState_p0 ! 2))
            (ey (entitiesRef barrelAimState_p0 ! 4) - ey (entitiesRef barrelAimState_p0 ! 2)) < 300"
    by (simp_all add: hypot_less_300 barrelAimState_p0_def sample_simps power2_eq_square)
  have "run_p0 sampleRnd [MouseDown 1920 1080, TimeoutFires] barrelAimState_p0
          = handleShoot_p0 sampleRnd 1920 1080 barrelAimState_p0"
    using nl by simp
  moreover have "map isDead (entitiesRef (handleShoot_p0 sampleRnd 1920 1080 barrelAimState_p0))
       = [False, False, False, False, True, False]"
    unfolding handleShoot_p0_entities [OF pl]
    by (simp add: barrelAimState_p0_def sample_simps inHitBox_p0_def hitProjection_p0_def impact_def)
  ultimately show ?thesis using a b c d by simp
qed

section \<open>Entity simulation\<close>

text \<open>What one frame does to one entity, in each variant.\<close>

lemma renderEntity_fst:
  "fst (renderEntity rnd cw ch time now ent s) =
     (if isDead ent then ent else fireStamp 2000 now (behave time ent))"
  by (simp add: renderEntity_def returnFire_def fireStamp_def Let_def split: prod.splits)

lemma renderEntity_p0_fst:
  "fst (renderEntity_p0 rnd cw ch time now ent s) =
     (if isDead ent then ent else fireStamp 3000 now (behave_p0 time ent))"
  by (simp add: renderEntity_p0_def returnFire_p0_def fireStamp_def Let_def split: prod.splits)

lemma fireStamp_keeps [simp]:
  "ex (fireStamp c now ent) = ex ent"
  "ey (fireStamp c now ent) = ey ent"
  "ez (fireStamp c now ent) = ez ent"
  "isDead (fireStamp c now ent) = isDead ent"
  "isHostile (fireStamp c now ent) = isHostile ent"
  "behavior (fireStamp c now ent) = behavior ent"
  "etype (fireStamp c now ent) = etype ent"
  "eid (fireStamp c now ent) = eid ent"
  "speed (fireStamp c now ent) = speed ent"
  "offset (fireStamp c now ent) = offset ent"
  by (simp_all add: fireStamp_def)

subsection \<open>Pacing\<close>

lemma behave_pacing:
  "behavior ent = pacing \<Longrightarrow> behave time ent = ent\<lparr>ex := ex ent + sin (time + offset ent) * speed ent\<rparr>"
  "behavior ent = pacing \<Longrightarrow> behave_p0 time ent = ent\<lparr>ex := ex ent + sin (time + offset ent) * speed ent\<rparr>"
  by (simp_all add: behave_def behave_p0_def)

lemma sin_peak: "sin (peak k) = 1"
  by (simp add: peak_def sin_add)

lemma peak_increases: "peak k < peak (Suc k)"
  by (simp add: peak_def algebra_simps)

text \<open>
  With frames at the times \<open>peak 0, peak 1, \<dots>\<close> an entity with offset \<open>0\<close> moves by its
  full speed on every frame: its distance from the spawn position grows without bound.
\<close>

lemma pacing_drift:
  "behavior ent = pacing \<Longrightarrow> offset ent = 0 \<Longrightarrow>
   fold behave (map peak [0..<n]) ent = ent\<lparr>ex := ex ent + real n * speed ent\<rparr>
   \<and> fold behave_p0 (map peak [0..<n]) ent = ent\<lparr>ex := ex ent + real n * speed ent\<rparr>"
proof (induction n)
  case 0
  then show ?case by simp
next
  case (Suc n)
  let ?e = "ent\<lparr>ex := ex ent + real n * speed ent\<rparr>"
  have "behave (peak n) ?e = ?e\<lparr>ex := ex ?e + sin (peak n + offset ?e) * speed ?e\<rparr>"
    "behave_p0 (peak n) ?e = ?e\<lparr>ex := ex ?e + sin (peak n + offset ?e) * speed ?e\<rparr>"
    using Suc.prems by (simp_all add: behave_pacing)
  then have "behave (peak n) ?e = ent\<lparr>ex := ex ent + real (Suc n) * speed ent\<rparr>"
    "behave_p0 (peak n) ?e = ent\<lparr>ex := ex ent + real (Suc n) * speed ent\<rparr>"
    using Suc.prems by (simp_all add: sin_peak algebra_simps)
  then show ?case using Suc by simp
qed

lemma pacing_bound:
  "behavior ent = pacing \<Longrightarrow>
     \<bar>ex (fold behave ts ent) - ex ent\<bar> \<le> real (length ts) * \<bar>speed ent\<bar>
     \<and> behavior (fold behave ts ent) = pacing \<and> speed (fold behave ts ent) = speed ent"
proof (induction ts arbitrary: ent)
  case Nil
  then show ?case by simp
next
  case (Cons t ts)
  let ?e = "behave t ent"
  have e: "?e = ent\<lparr>ex := ex ent + sin (t + offset ent) * speed ent\<rparr>"
    using Cons.prems by (simp add: behave_pacing)
  then have p: "behavior ?e = pacing" "speed ?e = speed ent" using Cons.prems by simp_all
  have "\<bar>sin (t + offset ent) * speed ent\<bar> \<le> \<bar>speed ent\<bar>"
    by (simp add: abs_mult mult_left_le_one_le)
  then have d: "\<bar>ex ?e - ex ent\<bar> \<le> \<bar>speed ent\<bar>" using e by simp
  from Cons.IH [OF p(1)] p(2)
  have "\<bar>ex (fold behave ts ?e) - ex ?e\<bar> \<le> real (length ts) * \<bar>speed ent\<bar>"
    and r: "behavior (fold behave ts ?e) = pacing" "speed (fold behave ts ?e) = speed ent"
    by simp_all
  with d have "\<bar>ex (fold behave ts ?e) - ex ent\<bar> \<le> real (length ts) * \<bar>speed ent\<bar> + \<bar>speed ent\<bar>"
    by linarith
  then show ?case using r by (simp add: algebra_simps)
qed

lemma pacing_bound_p0:
  "behavior ent = pacing \<Longrightarrow>
     \<bar>ex (fold behave_p0 ts ent) - ex ent\<bar> \<le> real (length ts) * \<bar>speed ent\<bar>
     \<and> behavior (fold behave_p0 ts ent) = pacing \<and> speed (fold behave_p0 ts ent) = speed ent"
proof (induction ts arbitrary: ent)
  case Nil
  then show ?case by simp
next
  case (Cons t ts)
  let ?e = "behave_p0 t ent"
  have e: "?e = ent\<lparr>ex := ex ent + sin (t + offset ent) * speed ent\<rparr>"
    using Cons.prems by (simp add: behave_pacing)
  then have p: "behavior ?e = pacing" "speed ?e = speed ent" using Cons.prems by simp_all
  have "\<bar>sin (t + offset ent) * speed ent\<bar> \<le> \<bar>speed ent\<bar>"
    by (simp add: abs_mult mult_left_le_one_le)
  then have d: "\<bar>ex ?e - ex ent\<bar> \<le> \<bar>speed ent\<bar>" using e by simp
  from Cons.IH [OF p(1)] p(2)
  have "\<bar>ex (fold behave_p0 ts ?e) - ex ?e\<bar> \<le> real (length ts) * \<bar>speed ent\<bar>"
    and r: "behavior (fold behave_p0 ts ?e) = pacing" "speed (fold behave_p0 ts ?e) = speed ent"
    by simp_all
  with d have "\<bar>ex (fold behave_p0 ts ?e) - ex ent\<bar> \<le> real (length ts) * \<bar>speed ent\<bar> + \<bar>speed ent\<bar>"
    by linarith
  then show ?case using r by (simp add: algebra_simps)
qed

lemma sampleTarget_fields:
  "behavior sampleTarget = pacing" "\<not> isDead sampleTarget" "ex sampleTarget = 800"
  "speed sampleTarget = 2" "offset sampleTarget = 0"
  by (simp_all add: sampleTarget_def sample_simps)

lemma sin_above_half:
  fixes x :: real
  assumes "2 / 3 \<le> x" "x \<le> 1"
  shows "1 / 2 < sin x"
proof -
  have p: "2 \<le> pi" "pi < 4" by (rule pi_ge_two, rule pi_less_4)
  have "pi / 6 < x" using assms p by simp
  moreover have "- (pi / 2) \<le> pi / 6" "pi / 6 \<le> pi / 2" "- (pi / 2) \<le> x" "x \<le> pi / 2"
    using assms p by simp_all
  ultimately have "sin (pi / 6) < sin x" by (simp add: sin_mono_less_eq)
  then show ?thesis by (simp add: sin_30)
qed

text \<open>
  C8 as stated: the \<open>x\<close> of a living pacing entity at time \<open>t\<close> is its spawn \<open>x\<close> plus a
  sinusoidal term in \<open>t\<close> and the phase offset scaled by speed, so \<open>x\<close> stays in a fixed
  band around the spawn position. It does not: the code adds the sinusoidal term to \<open>x\<close>
  on every frame. The sample target (spawned at \<open>x = 800\<close>, speed \<open>2\<close>, offset \<open>0\<close>) after
  frames at \<open>0.9\<close> s and \<open>1\<close> s is not at \<open>800 + 2 sin 1\<close>, is not where a run that only had
  the frame at \<open>1\<close> s leaves it (so \<open>x\<close> is no function of the time), and is more than its
  speed away from the spawn position. Both variants agree.
\<close>

theorem pacing_accumulates:
  "ex (fold behave [9 / 10, 1] sampleTarget)
       \<noteq> ex sampleTarget + sin (1 + offset sampleTarget) * speed sampleTarget
   \<and> ex (fold behave [9 / 10, 1] sampleTarget) \<noteq> ex (fold behave [1] sampleTarget)
   \<and> \<bar>speed sampleTarget\<bar> < \<bar>ex (fold behave [9 / 10, 1] sampleTarget) - ex sampleTarget\<bar>
   \<and> ex (fold behave_p0 [9 / 10, 1] sampleTarget)
       \<noteq> ex sampleTarget + sin (1 + offset sampleTarget) * speed sampleTarget
   \<and> ex (fold behave_p0 [9 / 10, 1] sampleTarget) \<noteq> ex (fold behave_p0 [1] sampleTarget)
   \<and> \<bar>speed sampleTarget\<bar> < \<bar>ex (fold behave_p0 [9 / 10, 1] sampleTarget) - ex sampleTarget\<bar>"
proof -
  have s: "1 / 2 < sin (9 / 10 :: real)" "1 / 2 < sin (1 :: real)"
    by (rule sin_above_half; simp)+
  have a: "ex (fold behave [9 / 10, 1] sampleTarget) = 800 + sin (9 / 10) * 2 + sin 1 * 2"
    "ex (fold behave_p0 [9 / 10, 1] sampleTarget) = 800 + sin (9 / 10) * 2 + sin 1 * 2"
    "ex (fold behave [1] sampleTarget) = 800 + sin 1 * 2"
    "ex (fold behave_p0 [1] sampleTarget) = 800 + sin 1 * 2"
    by (simp_all add: behave_pacing sampleTarget_fields)
  show ?thesis
    unfolding a using s by (simp add: sampleTarget_fields)
qed

text \<open>
  C8 as amended: on every frame that simulates a living pacing entity, \<open>x\<close> changes by
  \<open>sin (time + offset) * speed\<close> (the sinusoid is the per-frame displacement, not the
  position). One frame therefore moves the entity by at most \<open>|speed|\<close>, and any \<open>n\<close>
  frames by at most \<open>n * |speed|\<close> in total. Both variants agree.
\<close>

theorem pacing_step:
  assumes "\<not> isDead ent" and "behavior ent = pacing"
  shows "ex (fst (renderEntity rnd w h time now ent s)) = ex ent + sin (time + offset ent) * speed ent
     \<and> ex (fst (renderEntity_p0 rnd w h time now ent s)) = ex ent + sin (time + offset ent) * speed ent
     \<and> \<bar>ex (fst (renderEntity rnd w h time now ent s)) - ex ent\<bar> \<le> \<bar>speed ent\<bar>
     \<and> \<bar>ex (fst (renderEntity_p0 rnd w h time now ent s)) - ex ent\<bar> \<le> \<bar>speed ent\<bar>
     \<and> \<bar>ex (fold behave ts ent) - ex ent\<bar> \<le> real (length ts) * \<bar>speed ent\<bar>
     \<and> \<bar>ex (fold behave_p0 ts ent) - ex ent\<bar> \<le> real (length ts) * \<bar>speed ent\<bar>"
proof -
  have a: "ex (fst (renderEntity rnd w h time now ent s)) = ex ent + sin (time + offset ent) * speed ent"
    "ex (fst (renderEntity_p0 rnd w h time now ent s)) = ex ent + sin (time + offset ent) * speed ent"
    using assms by (simp_all add: renderEntity_fst renderEntity_p0_fst behave_pacing)
  have "\<bar>sin (time + offset ent) * speed ent\<bar> \<le> \<bar>speed ent\<bar>"
    by (simp add: abs_mult mult_left_le_one_le)
  then have b: "\<bar>ex (fst (renderEntity rnd w h time now ent s)) - ex ent\<bar> \<le> \<bar>speed ent\<bar>"
    "\<bar>ex (fst (renderEntity_p0 rnd w h time now ent s)) - ex ent\<bar> \<le> \<bar>speed ent\<bar>"
    using a by simp_all
  show ?thesis using a b pacing_bound [OF assms(2), of ts] pacing_bound_p0 [OF assms(2), of ts] by simp
qed

theorem pacing_step_witness:
  "\<not> isDead sampleTarget \<and> behavior sampleTarget = pacing
   \<and> ex (fst (renderEntity sampleRnd 1920 1080 (pi / 2) 5000 sampleTarget sampleState)) = 802
   \<and> ex (fst (renderEntity_p0 sampleRnd 1920 1080 (pi / 2) 5000 sampleTarget sampleState_p0)) = 802
   \<and> \<bar>ex (fold behave [pi / 6, pi / 2] sampleTarget) - ex sampleTarget\<bar> \<le> 4"
proof -
  have h: "\<not> isDead sampleTarget" "behavior sampleTarget = pacing"
    by (simp_all add: sampleTarget_fields)
  have "ex (fst (renderEntity sampleRnd 1920 1080 (pi / 2) 5000 sampleTarget sampleState)) = 802"
    using pacing_step [OF h, of sampleRnd 1920 1080 "pi / 2" 5000 sampleState "[]"]
    by (simp add: sampleTarget_fields)
  moreover have "ex (fst (renderEntity_p0 sampleRnd 1920 1080 (pi / 2) 5000 sampleTarget sampleState_p0)) = 802"
    using pacing_step [OF h, of sampleRnd 1920 1080 "pi / 2" 5000 sampleState_p0 "[]"]
    by (simp add: sampleTarget_fields)
  moreover have "\<bar>ex (fold behave [pi / 6, pi / 2] sampleTarget) - ex sampleTarget\<bar> \<le> 4"
    using pacing_step [OF h, of sampleRnd 1920 1080 "pi / 2" 5000 sampleState "[pi / 6, pi / 2]"]
    by (simp add: sampleTarget_fields)
  ultimately show ?thesis using h by simp
qed

subsection \<open>The entity loop of a frame\<close>

lemma renderEntities_Cons_proj:
  "fst (renderEntities rnd cw ch time now (e # es) s) =
     fst (renderEntity rnd cw ch time now e s)
       # fst (renderEntities rnd cw ch time now es (snd (snd (renderEntity rnd cw ch time now e s))))"
  "snd (snd (renderEntities rnd cw ch time now (e # es) s)) =
     snd (snd (renderEntities rnd cw ch time now es (snd (snd (renderEntity rnd cw ch time now e s)))))"
  by (simp_all split: prod.splits)

lemma renderEntities_p0_Cons_proj:
  "fst (renderEntities_p0 rnd cw ch time now (e # es) s) =
     fst (renderEntity_p0 rnd cw ch time now e s)
       # fst (renderEntities_p0 rnd cw ch time now es (snd (snd (renderEntity_p0 rnd cw ch time now e s))))"
  "snd (snd (renderEntities_p0 rnd cw ch time now (e # es) s)) =
     snd (snd (renderEntities_p0 rnd cw ch time now es (snd (snd (renderEntity_p0 rnd cw ch time now e s)))))"
  by (simp_all split: prod.splits)

lemma renderEntities_fst:
  "fst (renderEntities rnd cw ch time now es s) =
     map (\<lambda>ent. if isDead ent then ent else fireStamp 2000 now (behave time ent)) es"
  by (induction es arbitrary: s) (simp_all add: renderEntities_Cons_proj renderEntity_fst del: renderEntities.simps(2))

lemma renderEntities_p0_fst:
  "fst (renderEntities_p0 rnd cw ch time now es s) =
     map (\<lambda>ent. if isDead ent then ent else fireStamp 3000 now (behave_p0 time ent)) es"
  by (induction es arbitrary: s) (simp_all add: renderEntities_p0_Cons_proj renderEntity_p0_fst del: renderEntities_p0.simps(2))

lemma renderEntities_state:
  assumes "\<And>ent s. P s \<Longrightarrow> P (snd (snd (renderEntity rnd cw ch time now ent s)))" and "P s"
  shows "P (snd (snd (renderEntities rnd cw ch time now es s)))"
  using assms(2)
proof (induction es arbitrary: s)
  case Nil
  then show ?case by simp
next
  case (Cons e es)
  show ?case unfolding renderEntities_Cons_proj by (rule Cons.IH) (rule assms(1) [OF Cons.prems])
qed

lemma renderEntities_p0_state:
  assumes "\<And>ent s. P s \<Longrightarrow> P (snd (snd (renderEntity_p0 rnd cw ch time now ent s)))" and "P s"
  shows "P (snd (snd (renderEntities_p0 rnd cw ch time now es s)))"
  using assms(2)
proof (induction es arbitrary: s)
  case Nil
  then show ?case by simp
next
  case (Cons e es)
  show ?case unfolding renderEntities_p0_Cons_proj by (rule Cons.IH) (rule assms(1) [OF Cons.prems])
qed

lemma behave_keeps [simp]:
  "isHostile (behave time ent) = isHostile ent"
  "lastFireTime (behave time ent) = lastFireTime ent"
  "isDead (behave time ent) = isDead ent"
  "etype (behave time ent) = etype ent"
  "eid (behave time ent) = eid ent"
  "ey (behave time ent) = ey ent"
  "behavior (behave time ent) = behavior ent"
  "speed (behave time ent) = speed ent"
  "offset (behave time ent) = offset ent"
  by (simp_all add: behave_def Let_def)

lemma behave_p0_keeps [simp]:
  "isHostile (behave_p0 time ent) = isHostile ent"
  "lastFireTime (behave_p0 time ent) = lastFireTime ent"
  "isDead (behave_p0 time ent) = isDead ent"
  "etype (behave_p0 time ent) = etype ent"
  "eid (behave_p0 time ent) = eid ent"
  "ey (behave_p0 time ent) = ey ent"
  "behavior (behave_p0 time ent) = behavior ent"
  "speed (behave_p0 time ent) = speed ent"
  "offset (behave_p0 time ent) = offset ent"
  by (simp_all add: behave_p0_def Let_def)

lemma renderEntity_snd:
  "mission (snd (snd (renderEntity rnd cw ch time now ent s))) = mission s"
  "isLoading (snd (snd (renderEntity rnd cw ch time now ent s))) = isLoading s"
  "gameState (snd (snd (renderEntity rnd cw ch time now ent s))) = gameState s"
  "currentObjIndex (snd (snd (renderEntity rnd cw ch time now ent s))) = currentObjIndex s"
  "effects (snd (snd (renderEntity rnd cw ch time now ent s))) = effects s"
  "timeouts (snd (snd (renderEntity rnd cw ch time now ent s))) = timeouts s"
  "mousePos (snd (snd (renderEntity rnd cw ch time now ent s))) = mousePos s"
  "playerHealth (snd (snd (renderEntity rnd cw ch time now ent s))) =
     (if fires 2000 now ent then max 0 (playerHealth s - 10) else playerHealth s)"
  by (auto simp add: renderEntity_def returnFire_def fires_def Let_def split: prod.splits)

lemma renderEntity_p0_snd:
  "mission (snd (snd (renderEntity_p0 rnd cw ch time now ent s))) = mission s"
  "isLoading (snd (snd (renderEntity_p0 rnd cw ch time now ent s))) = isLoading s"
  "gameState (snd (snd (renderEntity_p0 rnd cw ch time now ent s))) = gameState s"
  "currentObjIndex (snd (snd (renderEntity_p0 rnd cw ch time now ent s))) = currentObjIndex s"
  "effects (snd (snd (renderEntity_p0 rnd cw ch time now ent s))) = effects s"
  "timeouts (snd (snd (renderEntity_p0 rnd cw ch time now ent s))) = timeouts s"
  "mousePos (snd (snd (renderEntity_p0 rnd cw ch time now ent s))) = mousePos s"
  "playerHealthRef (snd (snd (renderEntity_p0 rnd cw ch time now ent s))) =
     (if fires 3000 now ent then playerHealthRef s - 10 else playerHealthRef s)"
  "healthUI (snd (snd (renderEntity_p0 rnd cw ch time now ent s))) =
     (if fires 3000 now ent then playerHealthRef s - 10 else healthUI s)"
  by (auto simp add: renderEntity_p0_def returnFire_p0_def fires_def Let_def createParticles_p0_def
      split: prod.splits)

lemma renderEntities_snd:
  "mission (snd (snd (renderEntities rnd cw ch time now es s))) = mission s"
  "isLoading (snd (snd (renderEntities rnd cw ch time now es s))) = isLoading s"
  "gameState (snd (snd (renderEntities rnd cw ch time now es s))) = gameState s"
  "currentObjIndex (snd (snd (renderEntities rnd cw ch time now es s))) = currentObjIndex s"
  "effects (snd (snd (renderEntities rnd cw ch time now es s))) = effects s"
  "timeouts (snd (snd (renderEntities rnd cw ch time now es s))) = timeouts s"
  "mousePos (snd (snd (renderEntities rnd cw ch time now es s))) = mousePos s"
proof -
  show "mission (snd (snd (renderEntities rnd cw ch time now es s))) = mission s"
    by (rule renderEntities_state [where P = "\<lambda>t. mission t = mission s"]) (simp_all add: renderEntity_snd)
  show "isLoading (snd (snd (renderEntities rnd cw ch time now es s))) = isLoading s"
    by (rule renderEntities_state [where P = "\<lambda>t. isLoading t = isLoading s"]) (simp_all add: renderEntity_snd)
  show "gameState (snd (snd (renderEntities rnd cw ch time now es s))) = gameState s"
    by (rule renderEntities_state [where P = "\<lambda>t. gameState t = gameState s"]) (simp_all add: renderEntity_snd)
  show "currentObjIndex (snd (snd (renderEntities rnd cw ch time now es s))) = currentObjIndex s"
    by (rule renderEntities_state [where P = "\<lambda>t. currentObjIndex t = currentObjIndex s"]) (simp_all add: renderEntity_snd)
  show "effects (snd (snd (renderEntities rnd cw ch time now es s))) = effects s"
    by (rule renderEntities_state [where P = "\<lambda>t. effects t = effects s"]) (simp_all add: renderEntity_snd)
  show "timeouts (snd (snd (renderEntities rnd cw ch time now es s))) = timeouts s"
    by (rule renderEntities_state [where P = "\<lambda>t. timeouts t = timeouts s"]) (simp_all add: renderEntity_snd)
  show "mousePos (snd (snd (renderEntities rnd cw ch time now es s))) = mousePos s"
    by (rule renderEntities_state [where P = "\<lambda>t. mousePos t = mousePos s"]) (simp_all add: renderEntity_snd)
qed

lemma renderEntities_health:
  "0 \<le> playerHealth s \<Longrightarrow>
     0 \<le> playerHealth (snd (snd (renderEntities rnd cw ch time now es s)))
     \<and> playerHealth (snd (snd (renderEntities rnd cw ch time now es s))) \<le> playerHealth s"
  by (rule renderEntities_state
        [where P = "\<lambda>t. 0 \<le> playerHealth t \<and> playerHealth t \<le> playerHealth s"])
     (auto simp add: renderEntity_snd)

lemma renderEntities_p0_snd:
  "mission (snd (snd (renderEntities_p0 rnd cw ch time now es s))) = mission s"
  "isLoading (snd (snd (renderEntities_p0 rnd cw ch time now es s))) = isLoading s"
  "gameState (snd (snd (renderEntities_p0 rnd cw ch time now es s))) = gameState s"
  "currentObjIndex (snd (snd (renderEntities_p0 rnd cw ch time now es s))) = currentObjIndex s"
  "effects (snd (snd (renderEntities_p0 rnd cw ch time now es s))) = effects s"
  "timeouts (snd (snd (renderEntities_p0 rnd cw ch time now es s))) = timeouts s"
  "mousePos (snd (snd (renderEntities_p0 rnd cw ch time now es s))) = mousePos s"
proof -
  show "mission (snd (snd (renderEntities_p0 rnd cw ch time now es s))) = mission s"
    by (rule renderEntities_p0_state [where P = "\<lambda>t. mission t = mission s"]) (simp_all add: renderEntity_p0_snd)
  show "isLoading (snd (snd (renderEntities_p0 rnd cw ch time now es s))) = isLoading s"
    by (rule renderEntities_p0_state [where P = "\<lambda>t. isLoading t = isLoading s"]) (simp_all add: renderEntity_p0_snd)
  show "gameState (snd (snd (renderEntities_p0 rnd cw ch time now es s))) = gameState s"
    by (rule renderEntities_p0_state [where P = "\<lambda>t. gameState t = gameState s"]) (simp_all add: renderEntity_p0_snd)
  show "currentObjIndex (snd (snd (renderEntities_p0 rnd cw ch time now es s))) = currentObjIndex s"
    by (rule renderEntities_p0_state [where P = "\<lambda>t. currentObjIndex t = currentObjIndex s"]) (simp_all add: renderEntity_p0_snd)
  show "effects (snd (snd (renderEntities_p0 rnd cw ch time now es s))) = effects s"
    by (rule renderEntities_p0_state [where P = "\<lambda>t. effects t = effects s"]) (simp_all add: renderEntity_p0_snd)
  show "timeouts (snd (snd (renderEntities_p0 rnd cw ch time now es s))) = timeouts s"
    by (rule renderEntities_p0_state [where P = "\<lambda>t. timeouts t = timeouts s"]) (simp_all add: renderEntity_p0_snd)
  show "mousePos (snd (snd (renderEntities_p0 rnd cw ch time now es s))) = mousePos s"
    by (rule renderEntities_p0_state [where P = "\<lambda>t. mousePos t = mousePos s"]) (simp_all add: renderEntity_p0_snd)
qed

lemma renderEntities_p0_health:
  "playerHealthRef (snd (snd (renderEntities_p0 rnd cw ch time now es s))) =
     playerHealthRef s - 10 * int (length (filter (fires 3000 now) es))
   \<and> healthUI (snd (snd (renderEntities_p0 rnd cw ch time now es s))) =
     (if filter (fires 3000 now) es = [] then healthUI s
      else playerHealthRef s - 10 * int (length (filter (fires 3000 now) es)))"
proof (induction es arbitrary: s)
  case Nil
  show ?case by simp
next
  case (Cons e es)
  show ?case
    unfolding renderEntities_p0_Cons_proj
    by (simp add: Cons.IH renderEntity_p0_snd)
qed

subsection \<open>One frame\<close>

lemma render_alt:
  "render rnd w h time now s0 =
     (let r = renderEntities rnd w h time now (entities s0) (swayed rnd time s0);
          s5 = (snd (snd r))\<lparr>entities := fst r, canvas := fst (snd r),
                 particles := advanceParticles (particles (snd (snd r)))\<rparr>
      in case mission s0 of
           None \<Rightarrow> Inl TypeError
         | Some m \<Rightarrow>
             if currentObjIndex s0 < length (objectives m) then
               (if playerHealth s0 \<le> 0 then
                  Inr (speakSpotter ''Agent neutralized. Mission failed.'' (setGameState failure s5))
                else Inr s5)
             else Inl TypeError)"
  by (cases "mission s0") (simp_all add: render_def swayed_def Let_def case_prod_beta)

lemma render_p0_alt:
  "render_p0 rnd w h time now s0 =
     (let r = renderEntities_p0 rnd w h time now (entitiesRef s0) (swayed rnd time s0);
          s5 = (snd (snd r))\<lparr>entitiesRef := fst r, canvas := fst (snd r),
                 particlesRef := advanceParticles_p0 (particlesRef (snd (snd r)))\<rparr>
      in if playerHealthRef s5 \<le> 0 then setGameState failure s5 else s5)"
  by (simp add: render_p0_def swayed_def Let_def case_prod_beta)

lemma swayed_keeps [simp]:
  "mission (swayed rnd time s) = mission s"
  "isLoading (swayed rnd time s) = isLoading s"
  "gameState (swayed rnd time s) = gameState s"
  "currentObjIndex (swayed rnd time s) = currentObjIndex s"
  "effects (swayed rnd time s) = effects s"
  "timeouts (swayed rnd time s) = timeouts s"
  "mousePos (swayed rnd time s) = mousePos s"
  "playerHealth (swayed rnd time s) = playerHealth s"
  "playerHealthRef (swayed rnd time s) = playerHealthRef s"
  "healthUI (swayed rnd time s) = healthUI s"
  "entities (swayed rnd time s) = entities s"
  "entitiesRef (swayed rnd time s) = entitiesRef s"
  by (simp_all add: swayed_def)

lemma render_Inr:
  assumes "render rnd w h time now s = Inr s'"
  shows "mission s' = mission s" "isLoading s' = isLoading s" "currentObjIndex s' = currentObjIndex s"
    "timeouts s' = timeouts s" "mousePos s' = mousePos s"
    "entities s' = map (\<lambda>ent. if isDead ent then ent else fireStamp 2000 now (behave time ent)) (entities s)"
    "gameState s' = (if playerHealth s \<le> 0 then failure else gameState s)"
    "effects s' = effects s @ (if playerHealth s \<le> 0
        then [SetGameState failure, SpeakSpotter ''Agent neutralized. Mission failed.''] else [])"
    "0 \<le> playerHealth s \<Longrightarrow> 0 \<le> playerHealth s' \<and> playerHealth s' \<le> playerHealth s"
    "currentObjIndex s < objectiveCount s"
  using assms renderEntities_health [of "swayed rnd time s" rnd w h time now "entities s"]
  by (auto simp add: render_alt Let_def renderEntities_snd renderEntities_fst speakSpotter_def
      setGameState_def objectiveCount_def split: option.splits if_splits)

lemma render_defined:
  "currentObjIndex s < objectiveCount s \<Longrightarrow> \<exists>s'. render rnd w h time now s = Inr s'"
  by (auto simp add: render_alt Let_def objectiveCount_def split: option.splits)

lemma render_p0_result:
  "mission (render_p0 rnd w h time now s) = mission s"
  "isLoading (render_p0 rnd w h time now s) = isLoading s"
  "currentObjIndex (render_p0 rnd w h time now s) = currentObjIndex s"
  "timeouts (render_p0 rnd w h time now s) = timeouts s"
  "mousePos (render_p0 rnd w h time now s) = mousePos s"
  "entitiesRef (render_p0 rnd w h time now s) =
     map (\<lambda>ent. if isDead ent then ent else fireStamp 3000 now (behave_p0 time ent)) (entitiesRef s)"
  "playerHealthRef (render_p0 rnd w h time now s) =
     playerHealthRef s - 10 * int (length (filter (fires 3000 now) (entitiesRef s)))"
  "healthUI (render_p0 rnd w h time now s) =
     (if filter (fires 3000 now) (entitiesRef s) = [] then healthUI s
      else playerHealthRef s - 10 * int (length (filter (fires 3000 now) (entitiesRef s))))"
  "gameState (render_p0 rnd w h time now s) =
     (if playerHealthRef s - 10 * int (length (filter (fires 3000 now) (entitiesRef s))) \<le> 0
      then failure else gameState s)"
  "effects (render_p0 rnd w h time now s) =
     effects s @ (if playerHealthRef s - 10 * int (length (filter (fires 3000 now) (entitiesRef s))) \<le> 0
      then [SetGameState failure] else [])"
  using renderEntities_p0_health [of rnd w h time now "entitiesRef s" "swayed rnd time s"]
  by (simp_all add: render_p0_alt Let_def renderEntities_p0_snd renderEntities_p0_fst setGameState_def)

subsection \<open>Flanking\<close>

lemma fires_hostile: "filter (fires c now) es = filter (fires c now) (filter isHostile es)"
  by (induction es) (auto simp add: fires_def)

lemma filter_hostile_map:
  "filter isHostile (map (\<lambda>ent. if isDead ent then ent else fireStamp c now (behave_p0 time ent)) es)
     = map (\<lambda>ent. if isDead ent then ent else fireStamp c now (behave_p0 time ent)) (filter isHostile es)"
  by (induction es) auto

lemma guardInv_frame:
  assumes inv: "guardInv t0 z s" and t0: "3000 < t0" and now: "t0 \<le> now" "now < t0 + 24000"
  shows "guardInv t0 (z - 1 / 2) (renderEffect_p0 rnd w h time now s)"
proof -
  let ?g = "entitiesRef s ! 1"
  let ?upd = "\<lambda>ent. if isDead ent then ent else fireStamp 3000 now (behave_p0 time ent)"
  let ?s' = "render_p0 rnd w h time now s"
  from inv have pl: "gameState s = playing" "mission s \<noteq> None" and len: "1 < length (entitiesRef s)"
    and hos: "filter isHostile (entitiesRef s) = [?g]" and g: "\<not> isDead ?g" "behavior ?g = flanking" "ez ?g = z"
    and hb: "(lastFireTime ?g = 0 \<and> playerHealthRef s = 100)
          \<or> (t0 \<le> lastFireTime ?g \<and> lastFireTime ?g < t0 + 24000
              \<and> 90 - 10 * ((lastFireTime ?g - t0) div 3000) \<le> playerHealthRef s)"
    by (simp_all add: guardInv_def)
  have gh: "isHostile ?g"
  proof -
    have "?g \<in> set (filter isHostile (entitiesRef s))" using hos by simp
    then show ?thesis by simp
  qed
  have eff: "renderEffect_p0 rnd w h time now s = ?s'"
    using pl by (auto simp add: renderEffect_p0_def)
  have es': "entitiesRef ?s' = map ?upd (entitiesRef s)"
    by (simp add: render_p0_result)
  have g': "entitiesRef ?s' ! 1 = fireStamp 3000 now (behave_p0 time ?g)"
    using len g es' by simp
  have hos': "filter isHostile (entitiesRef ?s') = [entitiesRef ?s' ! 1]"
    unfolding es' filter_hostile_map hos using len g by simp
  have fl: "filter (fires 3000 now) (entitiesRef s) = (if fires 3000 now ?g then [?g] else [])"
    by (subst fires_hostile) (simp add: hos)
  have z': "ez (entitiesRef ?s' ! 1) = z - 1 / 2"
    unfolding g' using g by (simp add: behave_p0_def Let_def)
  have b': "\<not> isDead (entitiesRef ?s' ! 1)" "behavior (entitiesRef ?s' ! 1) = flanking"
    unfolding g' using g by simp_all
  have hp: "playerHealthRef ?s' = playerHealthRef s - (if fires 3000 now ?g then 10 else 0)"
    by (simp add: render_p0_result fl)
  have lft': "lastFireTime (entitiesRef ?s' ! 1) = (if fires 3000 now ?g then now else lastFireTime ?g)"
    unfolding g' using g gh by (simp add: fireStamp_def fires_def)
  have hb': "(t0 \<le> lastFireTime (entitiesRef ?s' ! 1) \<and> lastFireTime (entitiesRef ?s' ! 1) < t0 + 24000
              \<and> 90 - 10 * ((lastFireTime (entitiesRef ?s' ! 1) - t0) div 3000) \<le> playerHealthRef ?s')"
  proof (cases "fires 3000 now ?g")
    case True
    from hb show ?thesis
    proof
      assume "lastFireTime ?g = 0 \<and> playerHealthRef s = 100"
      moreover have "0 \<le> (now - t0) div 3000" using now by simp
      ultimately show ?thesis using True now hp lft' by simp
    next
      assume a: "t0 \<le> lastFireTime ?g \<and> lastFireTime ?g < t0 + 24000
              \<and> 90 - 10 * ((lastFireTime ?g - t0) div 3000) \<le> playerHealthRef s"
      from True have "lastFireTime ?g - t0 + 3000 \<le> now - t0" by (simp add: fires_def)
      then have "(lastFireTime ?g - t0 + 3000) div 3000 \<le> (now - t0) div 3000"
        by (rule zdiv_mono1) simp
      then have "(lastFireTime ?g - t0) div 3000 + 1 \<le> (now - t0) div 3000" by simp
      then show ?thesis using True now hp lft' a by simp
    qed
  next
    case False
    from hb show ?thesis
    proof
      assume "lastFireTime ?g = 0 \<and> playerHealthRef s = 100"
      then have "fires 3000 now ?g" using g gh t0 now by (simp add: fires_def)
      with False show ?thesis by simp
    next
      assume "t0 \<le> lastFireTime ?g \<and> lastFireTime ?g < t0 + 24000
              \<and> 90 - 10 * ((lastFireTime ?g - t0) div 3000) \<le> playerHealthRef s"
      then show ?thesis using False hp lft' by simp
    qed
  qed
  then have "lastFireTime (entitiesRef ?s' ! 1) - t0 \<le> 23999" by simp
  then have "(lastFireTime (entitiesRef ?s' ! 1) - t0) div 3000 \<le> 23999 div 3000"
    by (rule zdiv_mono1) simp
  then have "(lastFireTime (entitiesRef ?s' ! 1) - t0) div 3000 \<le> 7" by simp
  with hb' have pos: "0 < playerHealthRef ?s'" by linarith
  then have pl': "gameState ?s' = playing"
    using pl hp by (simp add: render_p0_result fl split: if_splits)
  have m': "mission ?s' \<noteq> None" using pl by (simp add: render_p0_result)
  have len': "1 < length (entitiesRef ?s')" using len es' by simp
  show ?thesis
    unfolding eff guardInv_def using pl' m' len' hos' b' z' hb' by simp
qed

lemma run_p0_append: "run_p0 rnd (xs @ ys) s = run_p0 rnd ys (run_p0 rnd xs s)"
  by (induction xs arbitrary: s) simp_all

lemma run_append:
  "run rnd (xs @ ys) s = (case run rnd xs s of Inl e \<Rightarrow> Inl e | Inr s' \<Rightarrow> run rnd ys s')"
  by (induction xs arbitrary: s) (simp_all split: sum.splits)

lemma guardInv_frames:
  assumes "guardInv 1700000000000 z s" and "n \<le> 1500"
  shows "guardInv 1700000000000 (z - real n / 2) (run_p0 rnd (map frameAt [0..<n]) s)"
  using assms(2)
proof (induction n)
  case 0
  then show ?case using assms(1) by simp
next
  case (Suc n)
  then have n: "n \<le> 1500" and n': "n < 1500" by simp_all
  let ?s = "run_p0 rnd (map frameAt [0..<n]) s"
  have "run_p0 rnd (map frameAt [0..<Suc n]) s
          = renderEffect_p0 rnd 1920 1080 (real n * 0.016) (1700000000000 + 16 * int n) ?s"
    by (simp add: run_p0_append frameAt_def)
  moreover have "guardInv 1700000000000 (z - real n / 2 - 1 / 2)
          (renderEffect_p0 rnd 1920 1080 (real n * 0.016) (1700000000000 + 16 * int n) ?s)"
    using n' by (intro guardInv_frame [OF Suc.IH [OF n]]) simp_all
  moreover have "z - real n / 2 - 1 / 2 = z - real (Suc n) / 2" by (simp add: field_simps)
  ultimately show ?case by simp
qed

lemma sampleState_p0_guardInv: "guardInv 1700000000000 700 sampleState_p0"
  by (simp add: guardInv_def sample_simps)

text \<open>
  \<^verbatim>\<open>index.tsx\<close>: a frame keeps a positive depth positive, and leaves a living flanking
  entity at depth 400 or more.
\<close>

lemma behave_depth:
  "0 < ez ent \<Longrightarrow> 0 < ez (behave time ent)"
  "behavior ent = flanking \<Longrightarrow> 400 \<le> ez (behave time ent)"
  by (simp_all add: behave_def Let_def)

lemma renderEntity_depth:
  "0 < ez ent \<Longrightarrow> 0 < ez (fst (renderEntity rnd cw ch time now ent s))"
  by (simp add: renderEntity_fst behave_depth)

text \<open>
  C2. Every entity's \<open>z\<close> is to stay positive: a flanking entity is to be moved back to
  a far depth before it reaches the near plane. \<^verbatim>\<open>index.tsx\<close> does so
  (\<open>behave_depth\<close>, \<open>renderEntity_depth\<close>). \<^verbatim>\<open>part_000\<close> only subtracts \<open>0.5\<close> per
  frame: in the sample state, with one frame every 16 ms, the game is still playing after
  1400 frames, the flanking guard is alive and its \<open>z\<close> is exactly \<open>0\<close>; one frame later
  it is negative.
\<close>

theorem flanking_reaches_camera:
  "gameState (run_p0 sampleRnd (map frameAt [0..<1400]) sampleState_p0) = playing
   \<and> \<not> isDead (entitiesRef (run_p0 sampleRnd (map frameAt [0..<1400]) sampleState_p0) ! 1)
   \<and> ez (entitiesRef (run_p0 sampleRnd (map frameAt [0..<1400]) sampleState_p0) ! 1) = 0
   \<and> ez (entitiesRef (run_p0 sampleRnd (map frameAt [0..<1401]) sampleState_p0) ! 1) < 0"
proof -
  have a: "guardInv 1700000000000 (700 - real (1400::nat) / 2)
             (run_p0 sampleRnd (map frameAt [0..<1400]) sampleState_p0)"
    by (rule guardInv_frames [OF sampleState_p0_guardInv]) simp
  have b: "guardInv 1700000000000 (700 - real (1401::nat) / 2)
             (run_p0 sampleRnd (map frameAt [0..<1401]) sampleState_p0)"
    by (rule guardInv_frames [OF sampleState_p0_guardInv]) simp
  from a b show ?thesis by (simp add: guardInv_def)
qed

section \<open>Invariants of the runs\<close>

lemma failure_counts_append [simp]:
  "failureTransitions (s\<lparr>effects := effects s @ es\<rparr>)
     = failureTransitions s + count_list es (SetGameState failure)"
  "failureAnnouncements (s\<lparr>effects := effects s @ es\<rparr>)
     = failureAnnouncements s + count_list es (SpeakSpotter ''Agent neutralized. Mission failed.'')"
  by (simp_all add: failureTransitions_def failureAnnouncements_def)

lemma failure_counts_cong:
  "effects t = effects s \<Longrightarrow> failureTransitions t = failureTransitions s"
  "effects t = effects s \<Longrightarrow> failureAnnouncements t = failureAnnouncements s"
  by (simp_all add: failureTransitions_def failureAnnouncements_def)

lemma shootEntity_failure_counts:
  "failureTransitions (snd (snd (shootEntity rnd w h s0 ix iy ent hit s))) = failureTransitions s"
  "failureAnnouncements (snd (snd (shootEntity rnd w h s0 ix iy ent hit s))) = failureAnnouncements s"
  by (simp_all add: shootEntity_def Let_def advanceObjective_def speakSpotter_def setGameState_def
      createParticles_def failureTransitions_def failureAnnouncements_def split: option.splits)

lemma shootEntities_failure_counts:
  "failureTransitions (snd (snd (shootEntities rnd w h s0 ix iy es hit s))) = failureTransitions s"
  "failureAnnouncements (snd (snd (shootEntities rnd w h s0 ix iy es hit s))) = failureAnnouncements s"
proof -
  show "failureTransitions (snd (snd (shootEntities rnd w h s0 ix iy es hit s))) = failureTransitions s"
    by (rule shootEntities_state [where P = "\<lambda>t. failureTransitions t = failureTransitions s" and mp = "mousePos s"])
       (simp_all add: shootEntity_failure_counts)
  show "failureAnnouncements (snd (snd (shootEntities rnd w h s0 ix iy es hit s))) = failureAnnouncements s"
    by (rule shootEntities_state [where P = "\<lambda>t. failureAnnouncements t = failureAnnouncements s" and mp = "mousePos s"])
       (simp_all add: shootEntity_failure_counts)
qed

lemma handleShoot_failure_counts:
  "failureTransitions (handleShoot rnd w h s) = failureTransitions s"
  "failureAnnouncements (handleShoot rnd w h s) = failureAnnouncements s"
proof -
  have "failureTransitions (handleShoot rnd w h s) = failureTransitions s
      \<and> failureAnnouncements (handleShoot rnd w h s) = failureAnnouncements s"
  proof (cases "gameState s = playing")
    case False
    then show ?thesis by (simp add: handleShoot_def)
  next
    case True
    from handleShoot_snd [OF True, of rnd w h] obtain t u where
      u: "u = snd (snd (shootEntities rnd w h s (fst (impact w h s)) (snd (impact w h s))
                  (entities s) False (s\<lparr>shotsFired := shotsFired s + 1, screenShake := 10\<rparr>)))"
      and t: "t = u \<or> t = createParticles rnd (fst (impact w h s)) (snd (impact w h s)) ''#ffffff'' 3 1 u"
      and hs: "handleShoot rnd w h s = t\<lparr>entities := fst (shootEntities rnd w h s (fst (impact w h s))
                  (snd (impact w h s)) (entities s) False
                  (s\<lparr>shotsFired := shotsFired s + 1, screenShake := 10\<rparr>))\<rparr>"
      by blast
    have "effects t = effects u" using t by auto
    then have "effects (handleShoot rnd w h s) = effects u" unfolding hs by simp
    then have "failureTransitions (handleShoot rnd w h s) = failureTransitions u"
      "failureAnnouncements (handleShoot rnd w h s) = failureAnnouncements u"
      by (rule failure_counts_cong)+
    moreover have "failureTransitions u = failureTransitions (s\<lparr>shotsFired := shotsFired s + 1, screenShake := 10\<rparr>)"
      "failureAnnouncements u = failureAnnouncements (s\<lparr>shotsFired := shotsFired s + 1, screenShake := 10\<rparr>)"
      unfolding u by (rule shootEntities_failure_counts)+
    moreover have "failureTransitions (s\<lparr>shotsFired := shotsFired s + 1, screenShake := 10\<rparr>) = failureTransitions s"
      "failureAnnouncements (s\<lparr>shotsFired := shotsFired s + 1, screenShake := 10\<rparr>) = failureAnnouncements s"
      by (simp_all add: failureTransitions_def failureAnnouncements_def)
    ultimately show ?thesis by simp
  qed
  then show "failureTransitions (handleShoot rnd w h s) = failureTransitions s"
    "failureAnnouncements (handleShoot rnd w h s) = failureAnnouncements s" by simp_all
qed

subsection \<open>\<^verbatim>\<open>index.tsx\<close>\<close>

lemma appInv_generateMission:
  assumes "appInv s" "isLoading s"
  shows "appInv (generateMission rnd w h resp s)"
  using assms
  by (auto simp add: appInv_def generateMission_def spawnEntities_def speakSpotter_def Let_def
      failureTransitions_def failureAnnouncements_def objectiveCount_def
      split: Response.splits list.splits)

lemma appInv_mouseMove: assumes "appInv s" shows "appInv (s\<lparr>mousePos := (x, y)\<rparr>)"
  using assms
  by (auto simp add: appInv_def failureTransitions_def failureAnnouncements_def objectiveCount_def)

lemma appInv_startPressed: assumes "appInv s" shows "appInv (startPressed s)"
  using assms
  by (auto simp add: appInv_def startPressed_def setGameState_def failureTransitions_def
      failureAnnouncements_def objectiveCount_def)

lemma appInv_timeoutFires: assumes "appInv s" shows "appInv (timeoutFires s)"
  using assms
  by (auto simp add: appInv_def timeoutFires_def failureTransitions_def failureAnnouncements_def
      objectiveCount_def split: list.splits)

lemma appInv_render:
  assumes "appInv s" and pl: "gameState s = playing" and r: "render rnd w h time now s = Inr s'"
  shows "appInv s'"
proof -
  have h: "0 \<le> playerHealth s" using assms(1) by (simp add: appInv_def)
  note R = render_Inr [OF r]
  have ft: "failureTransitions s' = failureTransitions s + (if playerHealth s \<le> 0 then 1 else 0)"
    "failureAnnouncements s' = failureAnnouncements s + (if playerHealth s \<le> 0 then 1 else 0)"
    using R(8) by (simp_all add: failureTransitions_def failureAnnouncements_def)
  have oc: "objectiveCount s' = objectiveCount s" using R(1) by (simp add: objectiveCount_def)
  have hb: "0 \<le> playerHealth s'" "playerHealth s' \<le> playerHealth s" using R(9) [OF h] by simp_all
  show ?thesis
  proof (cases "playerHealth s \<le> 0")
    case True
    then have "playerHealth s' = 0" using hb by simp
    then show ?thesis
      using assms(1) pl True R(2,3,7) ft oc by (simp add: appInv_def MAX_PLAYER_HEALTH_def)
  next
    case False
    then show ?thesis
      using assms(1) pl hb R(2,3,7) ft oc by (simp add: appInv_def)
  qed
qed

lemma appInv_handleShoot:
  assumes "appInv s" and nl: "\<not> isLoading s"
  shows "appInv (handleShoot rnd w h s)"
proof (cases "gameState s = playing")
  case False
  then show ?thesis using assms by (simp add: handleShoot_def)
next
  case True
  let ?s' = "handleShoot rnd w h s"
  have oc: "objectiveCount ?s' = objectiveCount s"
    by (simp add: objectiveCount_def handleShoot_keeps)
  have gs: "gameState ?s' \<noteq> failure" using handleShoot_objective(2) [OF True, of rnd w h] by simp
  have idx: "currentObjIndex ?s' < objectiveCount s \<or> currentObjIndex ?s' = 0"
    using assms(1) handleShoot_objective(1) [OF True, of rnd w h]
    by (auto simp add: appInv_def)
  show ?thesis
    using assms(1) True nl gs idx oc
    by (simp add: appInv_def handleShoot_keeps handleShoot_failure_counts)
qed

lemma appInv_step:
  assumes "appInv s" and "step rnd ev s = Inr s'"
  shows "appInv s'"
proof (cases ev)
  case (MissionArrives resp w h)
  then show ?thesis using assms by (auto simp add: appInv_generateMission)
next
  case (MouseMove x y)
  then show ?thesis using assms by (auto simp add: appInv_mouseMove)
next
  case StartPressed
  then show ?thesis using assms by (auto simp add: appInv_startPressed)
next
  case (Frame w h time now)
  then show ?thesis using assms
    by (auto simp add: renderEffect_def appInv_render split: if_splits)
next
  case (MouseDown w h)
  then show ?thesis using assms by (auto simp add: appInv_handleShoot)
next
  case TimeoutFires
  then show ?thesis using assms by (auto simp add: appInv_timeoutFires)
qed

lemma appInv_initial: "appInv initial"
  by (simp add: appInv_def initial_def failureTransitions_def failureAnnouncements_def MAX_PLAYER_HEALTH_def)

lemma appInv_run:
  assumes "appInv s" and "run rnd evs s = Inr s'"
  shows "appInv s'"
  using assms
proof (induction evs arbitrary: s)
  case Nil
  then show ?case by simp
next
  case (Cons ev evs)
  then obtain s1 where s1: "step rnd ev s = Inr s1" "run rnd evs s1 = Inr s'"
    by (auto split: sum.splits)
  from appInv_step [OF Cons.prems(1) s1(1)] Cons.IH s1(2) show ?case by blast
qed

subsection \<open>\<^verbatim>\<open>part_000\<close>\<close>

lemma shootEntity_p0_objective:
  "currentObjIndex (snd (snd (shootEntity_p0 rnd w h s0 ix iy ent hit s))) =
     (if \<not> isDead ent \<and> inHitBox_p0 (mousePos s) w h ix iy ent \<and> satisfies_p0 ent (currentObj s0)
         \<and> currentObjIndex s0 + 1 < objectiveCount s0
      then currentObjIndex s + 1 else currentObjIndex s)"
  "gameState (snd (snd (shootEntity_p0 rnd w h s0 ix iy ent hit s))) =
     (if \<not> isDead ent \<and> inHitBox_p0 (mousePos s) w h ix iy ent \<and> satisfies_p0 ent (currentObj s0)
         \<and> \<not> currentObjIndex s0 + 1 < objectiveCount s0
      then success else gameState s)"
  "failureTransitions (snd (snd (shootEntity_p0 rnd w h s0 ix iy ent hit s))) = failureTransitions s"
  by (auto simp add: shootEntity_p0_def inHitBox_p0_def Let_def satisfies_p0_def speakSpotter_def
      setGameState_def createParticles_p0_def failureTransitions_def)

lemma shootEntities_p0_objective:
  "currentObjIndex (snd (snd (shootEntities_p0 rnd w h s0 ix iy es hit s))) =
     currentObjIndex s +
       (if currentObjIndex s0 + 1 < objectiveCount s0
        then length (filter (\<lambda>ent. \<not> isDead ent \<and> inHitBox_p0 (mousePos s) w h ix iy ent
                        \<and> satisfies_p0 ent (currentObj s0)) es)
        else 0)
   \<and> gameState (snd (snd (shootEntities_p0 rnd w h s0 ix iy es hit s))) =
     (if filter (\<lambda>ent. \<not> isDead ent \<and> inHitBox_p0 (mousePos s) w h ix iy ent
                        \<and> satisfies_p0 ent (currentObj s0)) es \<noteq> []
         \<and> \<not> currentObjIndex s0 + 1 < objectiveCount s0
      then success else gameState s)
   \<and> failureTransitions (snd (snd (shootEntities_p0 rnd w h s0 ix iy es hit s))) = failureTransitions s"
proof (induction es arbitrary: hit s)
  case Nil
  show ?case by simp
next
  case (Cons e es)
  let ?s' = "snd (snd (shootEntity_p0 rnd w h s0 ix iy e hit s))"
  have mp: "mousePos ?s' = mousePos s"
    using shootEntity_p0_mousePos [of rnd w h s0 ix iy e hit s] by simp
  show ?case
    unfolding shootEntities_p0_Cons_snd
    using Cons.IH [of "fst (snd (shootEntity_p0 rnd w h s0 ix iy e hit s))" ?s'] mp
    by (simp add: shootEntity_p0_objective)
qed

lemma handleShoot_p0_objective:
  assumes "gameState s = playing"
  shows "currentObjIndex (handleShoot_p0 rnd w h s) =
           currentObjIndex s + (if currentObjIndex s + 1 < objectiveCount s
                                then length (satisfyingHits_p0 w h s) else 0)"
    and "gameState (handleShoot_p0 rnd w h s) =
           (if satisfyingHits_p0 w h s \<noteq> [] \<and> \<not> currentObjIndex s + 1 < objectiveCount s
            then success else playing)"
    and "failureTransitions (handleShoot_p0 rnd w h s) = failureTransitions s"
proof -
  from handleShoot_p0_snd [OF assms, of rnd w h] obtain t u where
      u: "u = snd (snd (shootEntities_p0 rnd w h s (fst (impact w h s)) (snd (impact w h s))
                  (entitiesRef s) False (s\<lparr>screenShake := 15\<rparr>)))"
      and t: "t = u\<lparr>entitiesRef := fst (shootEntities_p0 rnd w h s (fst (impact w h s))
                  (snd (impact w h s)) (entitiesRef s) False (s\<lparr>screenShake := 15\<rparr>))\<rparr>"
      and hs: "handleShoot_p0 rnd w h s = t
               \<or> handleShoot_p0 rnd w h s
                    = createParticles_p0 rnd (fst (impact w h s)) (snd (impact w h s)) ''#fff'' 3 1 t"
      by blast
  note O = shootEntities_p0_objective [of rnd w h s "fst (impact w h s)" "snd (impact w h s)"
        "entitiesRef s" False "s\<lparr>screenShake := 15\<rparr>"]
  have f0: "failureTransitions (s\<lparr>screenShake := 15\<rparr>) = failureTransitions s"
    by (simp add: failureTransitions_def)
  have tu: "currentObjIndex t = currentObjIndex s + (if currentObjIndex s + 1 < objectiveCount s
                                then length (satisfyingHits_p0 w h s) else 0)"
    "gameState t = (if satisfyingHits_p0 w h s \<noteq> [] \<and> \<not> currentObjIndex s + 1 < objectiveCount s
            then success else playing)"
    "failureTransitions t = failureTransitions s"
    unfolding t using O assms f0 u by (simp_all add: satisfyingHits_p0_def failureTransitions_def)
  have eq: "currentObjIndex (handleShoot_p0 rnd w h s) = currentObjIndex t"
    "gameState (handleShoot_p0 rnd w h s) = gameState t"
    "failureTransitions (handleShoot_p0 rnd w h s) = failureTransitions t"
    using hs by (auto simp add: failureTransitions_def)
  show "currentObjIndex (handleShoot_p0 rnd w h s) =
           currentObjIndex s + (if currentObjIndex s + 1 < objectiveCount s
                                then length (satisfyingHits_p0 w h s) else 0)"
    and "gameState (handleShoot_p0 rnd w h s) =
           (if satisfyingHits_p0 w h s \<noteq> [] \<and> \<not> currentObjIndex s + 1 < objectiveCount s
            then success else playing)"
    and "failureTransitions (handleShoot_p0 rnd w h s) = failureTransitions s"
    unfolding eq tu by simp_all
qed

lemma list6:
  assumes "length xs = 6"
  obtains a b c d e f where "xs = [a, b, c, d, e, f]"
proof -
  from assms obtain a t1 where 1: "xs = a # t1" "length t1 = 5" by (cases xs) auto
  then obtain b t2 where 2: "t1 = b # t2" "length t2 = 4" by (cases t1) auto
  then obtain c t3 where 3: "t2 = c # t3" "length t3 = 3" by (cases t2) auto
  then obtain d t4 where 4: "t3 = d # t4" "length t4 = 2" by (cases t3) auto
  then obtain e t5 where 5: "t4 = e # t5" "length t5 = 1" by (cases t4) auto
  then obtain f t6 where 6: "t5 = f # t6" "length t6 = 0" by (cases t5) auto
  with 1 2 3 4 5 have "xs = [a, b, c, d, e, f]" by simp
  then show ?thesis by (rule that)
qed

lemma roster_p0_cases:
  assumes "roster_p0 es"
  obtains "es = []"
  | a b c d e f where "es = [a, b, c, d, e, f]" "etype a = HVT" "etype b = Bodyguard" "etype c = Intel"
      "etype d = Barrel" "etype e = Barrel" "etype f = Barrel"
      "behavior d = static" "behavior e = static" "behavior f = static"
      "ex d = 300" "ex e = 700" "ex f = 1100" "ez d = 600" "ez e = 600" "ez f = 600"
proof (cases "es = []")
  case True
  then show ?thesis by (rule that(1))
next
  case False
  with assms have r: "map etype es = [HVT, Bodyguard, Intel, Barrel, Barrel, Barrel]"
    "map behavior (drop 3 es) = [static, static, static]"
    "map ex (drop 3 es) = [300, 700, 1100]" "map ez (drop 3 es) = [600, 600, 600]"
    by (simp_all add: roster_p0_def)
  have "length (map etype es) = 6" unfolding r(1) by simp
  then have "length es = 6" by simp
  then obtain a b c d e f where es: "es = [a, b, c, d, e, f]" by (rule list6)
  from r have "etype a = HVT" "etype b = Bodyguard" "etype c = Intel"
      "etype d = Barrel" "etype e = Barrel" "etype f = Barrel"
      "behavior d = static" "behavior e = static" "behavior f = static"
      "ex d = 300" "ex e = 700" "ex f = 1100" "ez d = 600" "ez e = 600" "ez f = 600"
    unfolding es by simp_all
  with es show ?thesis by (rule that(2))
qed

lemma barrels_apart:
  assumes "ez d = 600" "ez e = 600" "ex d + 60 \<le> ex e"
  shows "\<not> (inHitBox_p0 mp w h ix iy d \<and> inHitBox_p0 mp w h ix iy e)"
proof
  assume a: "inHitBox_p0 mp w h ix iy d \<and> inHitBox_p0 mp w h ix iy e"
  let ?c = "(fst mp - w / 2) * (1 - 400 / 600)"
  from a assms have "\<bar>ix - (ex d - ?c)\<bar> < 30" "\<bar>ix - (ex e - ?c)\<bar> < 30"
    by (simp_all add: inHitBox_p0_def hitProjection_p0_def Let_def)
  with assms(3) show False by linarith
qed

lemma roster_p0_one_hit:
  assumes "roster_p0 es"
  shows "length (filter (\<lambda>ent. \<not> isDead ent \<and> inHitBox_p0 mp w h ix iy ent \<and> satisfies_p0 ent obj) es) \<le> 1"
  using assms
proof (cases rule: roster_p0_cases)
  case 1
  then show ?thesis by simp
next
  case (2 a b c d e f)
  have de: "\<not> (inHitBox_p0 mp w h ix iy d \<and> inHitBox_p0 mp w h ix iy e)"
    and ef: "\<not> (inHitBox_p0 mp w h ix iy e \<and> inHitBox_p0 mp w h ix iy f)"
    and df: "\<not> (inHitBox_p0 mp w h ix iy d \<and> inHitBox_p0 mp w h ix iy f)"
    using 2 by (intro barrels_apart; simp)+
  show ?thesis
  proof (cases obj)
    case None
    then show ?thesis by (simp add: satisfies_p0_def objIs_def)
  next
    case (Some ob)
    let ?P = "\<lambda>ent. \<not> isDead ent \<and> inHitBox_p0 mp w h ix iy ent \<and> satisfies_p0 ent obj"
    show ?thesis
    proof (cases "otype ob")
      case recon
      then have "filter ?P es = []"
        using 2 Some by (simp add: satisfies_p0_def objIs_def)
      then show ?thesis by simp
    next
      case destroy
      then have "filter ?P es = filter ?P [d, e, f]"
        using 2 Some by (simp add: satisfies_p0_def objIs_def)
      moreover have "length (filter ?P [d, e, f]) \<le> 1"
        using de ef df by (cases "?P d"; cases "?P e"; cases "?P f") simp_all
      ultimately show ?thesis by simp
    next
      case eliminate
      then have "filter ?P es = filter ?P [a]"
        using 2 Some by (simp add: satisfies_p0_def objIs_def)
      then show ?thesis by simp
    next
      case retrieve
      then have "filter ?P es = filter ?P [c]"
        using 2 Some by (simp add: satisfies_p0_def objIs_def)
      then show ?thesis by simp
    qed
  qed
qed

lemma roster_p0_map:
  assumes "\<And>e. etype (f e) = etype e"
    and "\<And>e. behavior e = static \<Longrightarrow> behavior (f e) = static \<and> ex (f e) = ex e \<and> ez (f e) = ez e"
    and "roster_p0 es"
  shows "roster_p0 (map f es)"
  using assms(3)
proof (cases rule: roster_p0_cases)
  case 1
  then show ?thesis by (simp add: roster_p0_def)
next
  case (2 a b c d e f')
  then show ?thesis using assms(1) assms(2) [of d] assms(2) [of e] assms(2) [of f']
    by (simp add: roster_p0_def)
qed

lemma hostile_map:
  assumes "\<And>e. isHostile (f e) = isHostile e"
  shows "length (filter isHostile (map f es)) = length (filter isHostile es)"
  using assms by (induction es) simp_all

lemma appInv_p0_generateMission:
  assumes "appInv_p0 s" "isLoading s"
  shows "appInv_p0 (generateMission_p0 w h resp s)"
  using assms
  by (auto simp add: appInv_p0_def generateMission_p0_def installFallback_def spawnEntities_p0_def
      speakSpotter_def Let_def failureTransitions_def objectiveCount_def roster_p0_def upt_rec
      fallback_def split: Response.splits list.splits)

lemma appInv_p0_mouseMove: assumes "appInv_p0 s" shows "appInv_p0 (s\<lparr>mousePos := (x, y)\<rparr>)"
  using assms
  by (auto simp add: appInv_p0_def failureTransitions_def objectiveCount_def)

lemma appInv_p0_startPressed: assumes "appInv_p0 s" shows "appInv_p0 (startPressed s)"
  using assms
  by (auto simp add: appInv_p0_def startPressed_def setGameState_def failureTransitions_def
      objectiveCount_def)

lemma appInv_p0_render:
  assumes inv: "appInv_p0 s" and pl: "gameState s = playing"
  shows "appInv_p0 (render_p0 rnd w h time now s)"
proof -
  let ?s' = "render_p0 rnd w h time now s"
  let ?upd = "\<lambda>ent. if isDead ent then ent else fireStamp 3000 now (behave_p0 time ent)"
  let ?k = "length (filter (fires 3000 now) (entitiesRef s))"
  note R = render_p0_result [of rnd w h time now s]
  from inv pl have h: "10 \<le> playerHealthRef s" "playerHealthRef s \<le> MAX_PLAYER_HEALTH"
    "10 dvd playerHealthRef s" "healthUI s = playerHealthRef s"
    by (auto simp add: appInv_p0_def)
  from inv have hos: "length (filter isHostile (entitiesRef s)) \<le> 1" and ros: "roster_p0 (entitiesRef s)"
    and ft: "failureTransitions s = 0"
    and idx: "currentObjIndex s < objectiveCount s \<or> currentObjIndex s = 0"
    and ld: "isLoading s \<longrightarrow> gameState s = briefing \<and> currentObjIndex s = 0"
    using pl by (simp_all add: appInv_p0_def)
  have "?k \<le> length (filter isHostile (entitiesRef s))"
    by (subst fires_hostile) (rule length_filter_le)
  with hos have k: "?k = 0 \<or> ?k = 1" by linarith
  have hp: "playerHealthRef ?s' = playerHealthRef s - 10 * int ?k" by (simp add: R)
  have h': "0 \<le> playerHealthRef ?s'" "playerHealthRef ?s' \<le> MAX_PLAYER_HEALTH" "10 dvd playerHealthRef ?s'"
    using k h hp by auto
  have ui: "healthUI ?s' = playerHealthRef ?s'"
    using k h hp by (auto simp add: R)
  have gs: "gameState ?s' = (if playerHealthRef ?s' \<le> 0 then failure else playing)"
    using pl by (simp add: R)
  have ft': "failureTransitions ?s' = (if playerHealthRef ?s' \<le> 0 then 1 else 0)"
    using ft by (simp add: R failureTransitions_def)
  have oc: "objectiveCount ?s' = objectiveCount s" by (simp add: objectiveCount_def R)
  have hos': "length (filter isHostile (entitiesRef ?s')) \<le> 1"
    unfolding R(6) using hos by (subst hostile_map) simp_all
  have ros': "roster_p0 (entitiesRef ?s')"
    unfolding R(6) by (rule roster_p0_map [OF _ _ ros]) (simp_all add: behave_p0_def)
  show ?thesis
    unfolding appInv_p0_def
    using h' ui gs ft' oc hos' ros' idx ld pl by (simp add: R(2,3))
qed

lemma appInv_p0_handleShoot:
  assumes inv: "appInv_p0 s"
  shows "appInv_p0 (handleShoot_p0 rnd w h s)"
proof (cases "gameState s = playing")
  case False
  then show ?thesis using assms by (simp add: handleShoot_p0_def)
next
  case True
  let ?s' = "handleShoot_p0 rnd w h s"
  let ?kill = "\<lambda>ent. if \<not> isDead ent \<and> inHitBox_p0 (mousePos s) w h (fst (impact w h s)) (snd (impact w h s)) ent
                 then ent\<lparr>isDead := True\<rparr> else ent"
  note O = handleShoot_p0_objective [OF True, of rnd w h]
  note K = handleShoot_p0_keeps [of rnd w h s]
  note E = handleShoot_p0_entities [OF True, of rnd w h]
  from inv have ros: "roster_p0 (entitiesRef s)" and hos: "length (filter isHostile (entitiesRef s)) \<le> 1"
    and idx: "currentObjIndex s < objectiveCount s \<or> currentObjIndex s = 0"
    and nz: "playerHealthRef s \<noteq> 0" and ft: "failureTransitions s = 0"
    and ld: "\<not> isLoading s"
    using True by (auto simp add: appInv_p0_def)
  have one: "length (satisfyingHits_p0 w h s) \<le> 1"
    unfolding satisfyingHits_p0_def by (rule roster_p0_one_hit [OF ros])
  have oc: "objectiveCount ?s' = objectiveCount s" by (simp add: objectiveCount_def K)
  have idx': "currentObjIndex ?s' < objectiveCount s \<or> currentObjIndex ?s' = 0"
    using idx one unfolding O(1) by auto
  have gs: "gameState ?s' \<noteq> failure" unfolding O(2) by simp
  have hos': "length (filter isHostile (entitiesRef ?s')) \<le> 1"
    unfolding E using hos by (subst hostile_map) simp_all
  have ros': "roster_p0 (entitiesRef ?s')"
    unfolding E by (rule roster_p0_map [OF _ _ ros]) simp_all
  show ?thesis
    unfolding appInv_p0_def
    using inv gs idx' oc hos' ros' nz ft ld by (simp add: K O(3) appInv_p0_def)
qed

lemma appInv_p0_step:
  assumes "appInv_p0 s"
  shows "appInv_p0 (step_p0 rnd ev s)"
proof (cases ev)
  case (MissionArrives resp w h)
  then show ?thesis using assms by (simp add: appInv_p0_generateMission)
next
  case (MouseMove x y)
  then show ?thesis using assms by (simp add: appInv_p0_mouseMove)
next
  case StartPressed
  then show ?thesis using assms by (simp add: appInv_p0_startPressed)
next
  case (Frame w h time now)
  then show ?thesis using assms by (simp add: renderEffect_p0_def appInv_p0_render)
next
  case (MouseDown w h)
  then show ?thesis using assms by (simp add: appInv_p0_handleShoot)
next
  case TimeoutFires
  then show ?thesis using assms by simp
qed

lemma appInv_p0_initial: "appInv_p0 (initial_p0 w h)"
  by (simp add: appInv_p0_def initial_p0_def initial_def failureTransitions_def MAX_PLAYER_HEALTH_def
      roster_p0_def)

lemma appInv_p0_run: "appInv_p0 s \<Longrightarrow> appInv_p0 (run_p0 rnd evs s)"
  by (induction evs arbitrary: s) (simp_all add: appInv_p0_step)

section \<open>Player health and failure\<close>

lemma renderEffect_failure:
  "gameState s = failure \<Longrightarrow> renderEffect rnd w h time now s = Inr s"
  "gameState s = failure \<Longrightarrow> renderEffect_p0 rnd w h time now s = s"
  by (simp_all add: renderEffect_def renderEffect_p0_def)

lemma renderEffect_health_zero:
  assumes "gameState s = playing" "currentObjIndex s < objectiveCount s" "playerHealth s \<le> 0"
  shows "\<exists>s'. renderEffect rnd w h time now s = Inr s' \<and> gameState s' = failure"
proof -
  from render_defined [OF assms(2), of rnd w h time now] obtain s' where
    r: "render rnd w h time now s = Inr s'" by blast
  have m: "mission s \<noteq> None" using assms(2) by (auto simp add: objectiveCount_def split: option.splits)
  have "gameState s' = failure" using render_Inr(7) [OF r] assms(3) by simp
  then show ?thesis using r assms(1) m by (simp add: renderEffect_def)
qed





text \<open>
  What holds along every run of both variants: the player's health lies between 0 and
  \<open>MAX_PLAYER_HEALTH = 100\<close>, and the transition to \<open>failure\<close> has been made exactly once
  if the game has failed and never otherwise (in \<^verbatim>\<open>index.tsx\<close> the same holds for its
  announcement). In \<^verbatim>\<open>index.tsx\<close> a frame that starts while playing with health 0 makes
  the transition; in \<^verbatim>\<open>part_000\<close> the game has failed exactly when the health is 0. Once
  the game has failed, a frame and a click leave the state as it is, so nothing is
  triggered again. (\<^verbatim>\<open>index.tsx\<close> floors the deduction with \<open>Math.max\<close>; \<^verbatim>\<open>part_000\<close>
  does not, but its roster has one hostile entity and a frame stops the game as soon as
  the health is 0.)
\<close>

lemma health_bounds:
  "(case run rnd evs initial of
      Inl e \<Rightarrow> True
    | Inr t \<Rightarrow>
        0 \<le> playerHealth t \<and> playerHealth t \<le> MAX_PLAYER_HEALTH
        \<and> failureTransitions t = (if gameState t = failure then 1 else 0)
        \<and> failureAnnouncements t = (if gameState t = failure then 1 else 0))
   \<and> (gameState s = playing \<and> currentObjIndex s < objectiveCount s \<and> playerHealth s \<le> 0
        \<longrightarrow> (\<exists>s'. renderEffect rnd w h time now s = Inr s' \<and> gameState s' = failure))
   \<and> (gameState f = failure
        \<longrightarrow> renderEffect rnd w h time now f = Inr f \<and> handleShoot rnd w h f = f)
   \<and> 0 \<le> playerHealthRef (run_p0 rnd evs (initial_p0 w h))
   \<and> playerHealthRef (run_p0 rnd evs (initial_p0 w h)) \<le> MAX_PLAYER_HEALTH
   \<and> healthUI (run_p0 rnd evs (initial_p0 w h)) = playerHealthRef (run_p0 rnd evs (initial_p0 w h))
   \<and> (gameState (run_p0 rnd evs (initial_p0 w h)) = failure)
        = (playerHealthRef (run_p0 rnd evs (initial_p0 w h)) = 0)
   \<and> failureTransitions (run_p0 rnd evs (initial_p0 w h))
        = (if gameState (run_p0 rnd evs (initial_p0 w h)) = failure then 1 else 0)
   \<and> (gameState f = failure
        \<longrightarrow> renderEffect_p0 rnd w h time now f = f \<and> handleShoot_p0 rnd w h f = f)"
proof -
  have a: "case run rnd evs initial of
      Inl e \<Rightarrow> True
    | Inr t \<Rightarrow>
        0 \<le> playerHealth t \<and> playerHealth t \<le> MAX_PLAYER_HEALTH
        \<and> failureTransitions t = (if gameState t = failure then 1 else 0)
        \<and> failureAnnouncements t = (if gameState t = failure then 1 else 0)"
  proof (cases "run rnd evs initial")
    case (Inl e)
    then show ?thesis by simp
  next
    case (Inr t)
    from appInv_run [OF appInv_initial Inr] show ?thesis
      unfolding Inr by (simp add: appInv_def)
  qed
  have b: "appInv_p0 (run_p0 rnd evs (initial_p0 w h))"
    by (rule appInv_p0_run [OF appInv_p0_initial])
  have c: "gameState f = failure
        \<longrightarrow> renderEffect rnd w h time now f = Inr f \<and> handleShoot rnd w h f = f"
    "gameState f = failure
        \<longrightarrow> renderEffect_p0 rnd w h time now f = f \<and> handleShoot_p0 rnd w h f = f"
    by (simp_all add: renderEffect_failure handleShoot_def handleShoot_p0_def)
  show ?thesis
    using a b c renderEffect_health_zero [of s rnd w h time now]
    by (simp add: appInv_p0_def)
qed

subsection \<open>A firefight in \<^verbatim>\<open>index.tsx\<close>\<close>















section \<open>The objective state machine\<close>

lemma step_index:
  assumes inv: "appInv s" and st: "step rnd ev s = Inr s'"
  shows "currentObjIndex s \<le> currentObjIndex s' \<and> currentObjIndex s' \<le> currentObjIndex s + 1
     \<and> (case ev of
           MouseDown w h \<Rightarrow>
             (gameState s = playing \<longrightarrow> objectiveAdvance (satisfyingHits w h s \<noteq> []) s s')
             \<and> (gameState s \<noteq> playing \<longrightarrow> s' = s)
         | _ \<Rightarrow> currentObjIndex s' = currentObjIndex s)"
proof (cases ev)
  case (MissionArrives resp w h)
  then show ?thesis using st
    by (auto simp add: generateMission_def spawnEntities_def speakSpotter_def Let_def
        split: Response.splits list.splits)
next
  case (MouseMove x y)
  then show ?thesis using st by auto
next
  case StartPressed
  then show ?thesis using st by (auto simp add: startPressed_def setGameState_def)
next
  case (Frame w h time now)
  then show ?thesis using st render_Inr(3) [of rnd w h time now s s']
    by (auto simp add: renderEffect_def split: if_splits)
next
  case (MouseDown w h)
  show ?thesis
  proof (cases "gameState s = playing")
    case False
    then show ?thesis using st MouseDown by (auto simp add: handleShoot_def)
  next
    case True
    then have "\<not> isLoading s" using inv by (auto simp add: appInv_def)
    then have s': "s' = handleShoot rnd w h s" using st MouseDown by simp
    show ?thesis
      unfolding s' using True MouseDown
      by (simp add: objectiveAdvance_def handleShoot_objective [OF True])
  qed
next
  case TimeoutFires
  then show ?thesis using st by (auto simp add: timeoutFires_def split: list.splits)
qed

lemma step_p0_index:
  assumes inv: "appInv_p0 s"
  shows "currentObjIndex s \<le> currentObjIndex (step_p0 rnd ev s)
     \<and> currentObjIndex (step_p0 rnd ev s) \<le> currentObjIndex s + 1
     \<and> (case ev of
           MouseDown w h \<Rightarrow>
             (gameState s = playing \<longrightarrow> objectiveAdvance (satisfyingHits_p0 w h s \<noteq> []) s (step_p0 rnd ev s))
             \<and> (gameState s \<noteq> playing \<longrightarrow> step_p0 rnd ev s = s)
         | _ \<Rightarrow> currentObjIndex (step_p0 rnd ev s) = currentObjIndex s)"
proof (cases ev)
  case (MissionArrives resp w h)
  then show ?thesis
    by (auto simp add: generateMission_p0_def installFallback_def spawnEntities_p0_def speakSpotter_def Let_def
        split: Response.splits list.splits)
next
  case (MouseMove x y)
  then show ?thesis by auto
next
  case StartPressed
  then show ?thesis by (auto simp add: startPressed_def setGameState_def)
next
  case (Frame w h time now)
  then show ?thesis
    by (auto simp add: renderEffect_p0_def render_p0_result)
next
  case (MouseDown w h)
  show ?thesis
  proof (cases "gameState s = playing")
    case False
    then show ?thesis using MouseDown by (auto simp add: handleShoot_p0_def)
  next
    case True
    then have nl: "\<not> isLoading s" and ros: "roster_p0 (entitiesRef s)"
      using inv by (auto simp add: appInv_p0_def)
    have one: "length (satisfyingHits_p0 w h s) \<le> 1"
      unfolding satisfyingHits_p0_def by (rule roster_p0_one_hit [OF ros])
    then have k: "satisfyingHits_p0 w h s = [] \<or> length (satisfyingHits_p0 w h s) = 1"
      by (cases "satisfyingHits_p0 w h s") auto
    have s': "step_p0 rnd ev s = handleShoot_p0 rnd w h s" using nl MouseDown by simp
    show ?thesis
      unfolding s' using True MouseDown k
      by (auto simp add: objectiveAdvance_def handleShoot_p0_objective [OF True])
  qed
next
  case TimeoutFires
  then show ?thesis by auto
qed

text \<open>
  C4. Along every run of both variants the objective index never decreases, no event
  raises it by more than one, and it stays below the number of objectives (it is \<open>0\<close>
  while there is none). Only a click in the playing state can change it: a click that
  strikes a living entity whose category matches the active objective's kind
  (barrel/destroy, intel/retrieve, HVT/eliminate) raises the index by exactly one and
  leaves the game playing, unless the active objective is the last one, in which case
  the index stays and the game state becomes \<open>success\<close>; a click without such a hit
  changes neither. (A click is one shot: in \<^verbatim>\<open>index.tsx\<close> it advances the index once
  however many overlapping entities it strikes; in \<^verbatim>\<open>part_000\<close> the roster never lets
  one click strike two satisfying entities.)
\<close>

theorem objective_index_advances:
  "(case run rnd evs initial of
      Inl e \<Rightarrow> True
    | Inr s \<Rightarrow>
        (currentObjIndex s < objectiveCount s \<or> currentObjIndex s = 0)
        \<and> (case step rnd ev s of
              Inl e \<Rightarrow> True
            | Inr s' \<Rightarrow>
                currentObjIndex s \<le> currentObjIndex s' \<and> currentObjIndex s' \<le> currentObjIndex s + 1
                \<and> (case ev of
                      MouseDown w h \<Rightarrow>
                        (gameState s = playing \<longrightarrow> objectiveAdvance (satisfyingHits w h s \<noteq> []) s s')
                        \<and> (gameState s \<noteq> playing \<longrightarrow> s' = s)
                    | _ \<Rightarrow> currentObjIndex s' = currentObjIndex s)))
   \<and> (currentObjIndex (run_p0 rnd evs0 (initial_p0 w0 h0)) < objectiveCount (run_p0 rnd evs0 (initial_p0 w0 h0))
        \<or> currentObjIndex (run_p0 rnd evs0 (initial_p0 w0 h0)) = 0)
   \<and> currentObjIndex (run_p0 rnd evs0 (initial_p0 w0 h0))
        \<le> currentObjIndex (step_p0 rnd ev0 (run_p0 rnd evs0 (initial_p0 w0 h0)))
   \<and> currentObjIndex (step_p0 rnd ev0 (run_p0 rnd evs0 (initial_p0 w0 h0)))
        \<le> currentObjIndex (run_p0 rnd evs0 (initial_p0 w0 h0)) + 1
   \<and> (case ev0 of
         MouseDown w h \<Rightarrow>
           (gameState (run_p0 rnd evs0 (initial_p0 w0 h0)) = playing \<longrightarrow>
              objectiveAdvance (satisfyingHits_p0 w h (run_p0 rnd evs0 (initial_p0 w0 h0)) \<noteq> [])
                (run_p0 rnd evs0 (initial_p0 w0 h0))
                (step_p0 rnd ev0 (run_p0 rnd evs0 (initial_p0 w0 h0))))
           \<and> (gameState (run_p0 rnd evs0 (initial_p0 w0 h0)) \<noteq> playing \<longrightarrow>
                step_p0 rnd ev0 (run_p0 rnd evs0 (initial_p0 w0 h0)) = run_p0 rnd evs0 (initial_p0 w0 h0))
       | _ \<Rightarrow> currentObjIndex (step_p0 rnd ev0 (run_p0 rnd evs0 (initial_p0 w0 h0)))
                = currentObjIndex (run_p0 rnd evs0 (initial_p0 w0 h0)))"
proof -
  have a: "case run rnd evs initial of
      Inl e \<Rightarrow> True
    | Inr s \<Rightarrow>
        (currentObjIndex s < objectiveCount s \<or> currentObjIndex s = 0)
        \<and> (case step rnd ev s of
              Inl e \<Rightarrow> True
            | Inr s' \<Rightarrow>
                currentObjIndex s \<le> currentObjIndex s' \<and> currentObjIndex s' \<le> currentObjIndex s + 1
                \<and> (case ev of
                      MouseDown w h \<Rightarrow>
                        (gameState s = playing \<longrightarrow> objectiveAdvance (satisfyingHits w h s \<noteq> []) s s')
                        \<and> (gameState s \<noteq> playing \<longrightarrow> s' = s)
                    | _ \<Rightarrow> currentObjIndex s' = currentObjIndex s))"
  proof (cases "run rnd evs initial")
    case (Inl e)
    then show ?thesis by simp
  next
    case (Inr s)
    note rs = Inr
    have inv: "appInv s" by (rule appInv_run [OF appInv_initial rs])
    then have i: "currentObjIndex s < objectiveCount s \<or> currentObjIndex s = 0"
      by (simp add: appInv_def)
    show ?thesis
    proof (cases "step rnd ev s")
      case (Inl e)
      then show ?thesis using i by (simp add: rs)
    next
      case (Inr s')
      note ss = Inr
      from step_index [OF inv ss] i show ?thesis
        by (simp add: rs ss)
    qed
  qed
  have inv0: "appInv_p0 (run_p0 rnd evs0 (initial_p0 w0 h0))"
    by (rule appInv_p0_run [OF appInv_p0_initial])
  then have i0: "currentObjIndex (run_p0 rnd evs0 (initial_p0 w0 h0)) < objectiveCount (run_p0 rnd evs0 (initial_p0 w0 h0))
        \<or> currentObjIndex (run_p0 rnd evs0 (initial_p0 w0 h0)) = 0"
    by (simp add: appInv_p0_def)
  from a i0 step_p0_index [OF inv0, of rnd ev0] show ?thesis by blast
qed

text \<open>
  A complete mission in both variants: with the objectives \<open>[destroy, eliminate]\<close> the
  player destroys a barrel (the index goes to 1, the game stays playing) and then hits
  the primary target (the game state becomes \<open>success\<close>).
\<close>

lemma barrelAimState_run:
  "run sampleRnd [MissionArrives (Resolved sampleMission) 1920 1080, StartPressed, MouseMove 960 640] initial
     = Inr barrelAimState"
  by (simp add: barrelAimState_def sampleState_def initial_def)

lemma barrelAimState_p0_run:
  "run_p0 sampleRnd [MissionArrives (Resolved sampleMission) 1920 1080, StartPressed, MouseMove 180 690]
     (initial_p0 1920 1080) = barrelAimState_p0"
  by (simp add: barrelAimState_p0_def sampleState_p0_def initial_p0_def initial_def)

lemma barrelAimState_facts:
  "gameState barrelAimState = playing" "\<not> isLoading barrelAimState"
  "currentObjIndex barrelAimState = 0" "objectiveCount barrelAimState = 2"
  "satisfyingHits 1920 1080 barrelAimState \<noteq> []"
  by (simp_all add: barrelAimState_def sample_simps objectiveCount_def satisfyingHits_def
      inHitBox_def hitProjection_def impact_def satisfies_def currentObj_def objIs_def)

lemma barrelAimState_p0_facts:
  "gameState barrelAimState_p0 = playing" "\<not> isLoading barrelAimState_p0"
  "currentObjIndex barrelAimState_p0 = 0" "objectiveCount barrelAimState_p0 = 2"
  "satisfyingHits_p0 1920 1080 barrelAimState_p0 \<noteq> []"
  by (simp_all add: barrelAimState_p0_def sample_simps objectiveCount_def satisfyingHits_p0_def
      inHitBox_p0_def hitProjection_p0_def impact_def satisfies_p0_def currentObj_def objIs_def)

lemma satisfyingHits_p0_barrel: "length (satisfyingHits_p0 1920 1080 barrelAimState_p0) = 1"
  by (simp add: barrelAimState_p0_def sample_simps objectiveCount_def satisfyingHits_p0_def
      inHitBox_p0_def hitProjection_p0_def impact_def satisfies_p0_def currentObj_def objIs_def)

lemma targetAimState_run:
  "run sampleRnd ([MissionArrives (Resolved sampleMission) 1920 1080, StartPressed, MouseMove 960 640]
                  @ [MouseDown 1920 1080, MouseMove 640 540]) initial
     = Inr targetAimState"
  unfolding run_append barrelAimState_run
  using barrelAimState_facts(2) by (simp add: targetAimState_def)

lemma targetAimState_p0_run:
  "run_p0 sampleRnd ([MissionArrives (Resolved sampleMission) 1920 1080, StartPressed, MouseMove 180 690]
                  @ [MouseDown 1920 1080, MouseMove 640 540]) (initial_p0 1920 1080)
     = targetAimState_p0"
  unfolding run_p0_append barrelAimState_p0_run
  using barrelAimState_p0_facts(2) by (simp add: targetAimState_p0_def)

lemma targetAimState_facts:
  "gameState targetAimState = playing" "\<not> isLoading targetAimState"
  "currentObjIndex targetAimState = 1" "objectiveCount targetAimState = 2"
  "satisfyingHits 1920 1080 targetAimState \<noteq> []"
proof -
  let ?s1 = "handleShoot sampleRnd 1920 1080 barrelAimState"
  note pl = barrelAimState_facts(1)
  show "gameState targetAimState = playing"
    using barrelAimState_facts by (simp add: targetAimState_def handleShoot_objective [OF pl])
  show "\<not> isLoading targetAimState"
    using barrelAimState_facts by (simp add: targetAimState_def handleShoot_keeps)
  show i: "currentObjIndex targetAimState = 1"
    using barrelAimState_facts by (simp add: targetAimState_def handleShoot_objective [OF pl])
  show "objectiveCount targetAimState = 2"
    using barrelAimState_facts(4) by (simp add: targetAimState_def objectiveCount_def handleShoot_keeps)
  have m: "mission ?s1 = Some sampleMission"
    by (simp add: handleShoot_keeps barrelAimState_def sample_simps)
  have sw: "swayOffset ?s1 = (0, 0)"
    by (simp add: handleShoot_keeps barrelAimState_def sample_simps)
  have co: "currentObj targetAimState = Some (objectives sampleMission ! 1)"
    using i m by (simp add: targetAimState_def currentObj_def sampleMission_def)
  show "satisfyingHits 1920 1080 targetAimState \<noteq> []"
    unfolding satisfyingHits_def co
    by (simp add: targetAimState_def handleShoot_entities [OF pl] impact_def sw)
       (simp add: barrelAimState_def sample_simps inHitBox_def hitProjection_def impact_def
          satisfies_def objIs_def)
qed

lemma targetAimState_p0_facts:
  "gameState targetAimState_p0 = playing" "\<not> isLoading targetAimState_p0"
  "currentObjIndex targetAimState_p0 = 1" "objectiveCount targetAimState_p0 = 2"
  "satisfyingHits_p0 1920 1080 targetAimState_p0 \<noteq> []"
proof -
  let ?s1 = "handleShoot_p0 sampleRnd 1920 1080 barrelAimState_p0"
  note pl = barrelAimState_p0_facts(1)
  show "gameState targetAimState_p0 = playing"
    using barrelAimState_p0_facts by (simp add: targetAimState_p0_def handleShoot_p0_objective [OF pl])
  show "\<not> isLoading targetAimState_p0"
    using barrelAimState_p0_facts by (simp add: targetAimState_p0_def handleShoot_p0_keeps)
  show i: "currentObjIndex targetAimState_p0 = 1"
    using barrelAimState_p0_facts satisfyingHits_p0_barrel
    by (simp add: targetAimState_p0_def handleShoot_p0_objective [OF pl])
  show "objectiveCount targetAimState_p0 = 2"
    using barrelAimState_p0_facts(4) by (simp add: targetAimState_p0_def objectiveCount_def handleShoot_p0_keeps)
  have m: "mission ?s1 = Some sampleMission"
    by (simp add: handleShoot_p0_keeps barrelAimState_p0_def sample_simps)
  have sw: "swayOffset ?s1 = (0, 0)"
    by (simp add: handleShoot_p0_keeps barrelAimState_p0_def sample_simps)
  have co: "currentObj targetAimState_p0 = Some (objectives sampleMission ! 1)"
    using i m by (simp add: targetAimState_p0_def currentObj_def sampleMission_def)
  show "satisfyingHits_p0 1920 1080 targetAimState_p0 \<noteq> []"
    unfolding satisfyingHits_p0_def co
    by (simp add: targetAimState_p0_def handleShoot_p0_entities [OF pl] impact_def sw)
       (simp add: barrelAimState_p0_def sample_simps inHitBox_p0_def hitProjection_p0_def impact_def
          satisfies_p0_def objIs_def)
qed

theorem objective_index_advances_witness:
  "gameState barrelAimState = playing
   \<and> satisfyingHits 1920 1080 barrelAimState \<noteq> []
   \<and> currentObjIndex barrelAimState = 0
   \<and> currentObjIndex (handleShoot sampleRnd 1920 1080 barrelAimState) = 1
   \<and> gameState (handleShoot sampleRnd 1920 1080 barrelAimState) = playing
   \<and> gameState targetAimState = playing
   \<and> satisfyingHits 1920 1080 targetAimState \<noteq> []
   \<and> currentObjIndex (handleShoot sampleRnd 1920 1080 targetAimState) = 1
   \<and> gameState (handleShoot sampleRnd 1920 1080 targetAimState) = success
   \<and> gameState barrelAimState_p0 = playing
   \<and> satisfyingHits_p0 1920 1080 barrelAimState_p0 \<noteq> []
   \<and> currentObjIndex barrelAimState_p0 = 0
   \<and> currentObjIndex (handleShoot_p0 sampleRnd 1920 1080 barrelAimState_p0) = 1
   \<and> gameState (handleShoot_p0 sampleRnd 1920 1080 barrelAimState_p0) = playing
   \<and> gameState targetAimState_p0 = playing
   \<and> satisfyingHits_p0 1920 1080 targetAimState_p0 \<noteq> []
   \<and> currentObjIndex (handleShoot_p0 sampleRnd 1920 1080 targetAimState_p0) = 1
   \<and> gameState (handleShoot_p0 sampleRnd 1920 1080 targetAimState_p0) = success"
proof -
  note T1 = objective_index_advances [where rnd = sampleRnd
      and evs = "[MissionArrives (Resolved sampleMission) 1920 1080, StartPressed, MouseMove 960 640]"
      and ev = "MouseDown 1920 1080"
      and ?evs0.0 = "[MissionArrives (Resolved sampleMission) 1920 1080, StartPressed, MouseMove 180 690]"
      and ?ev0.0 = "MouseDown 1920 1080" and ?w0.0 = 1920 and ?h0.0 = 1080]
  note T2 = objective_index_advances [where rnd = sampleRnd
      and evs = "[MissionArrives (Resolved sampleMission) 1920 1080, StartPressed, MouseMove 960 640]
                  @ [MouseDown 1920 1080, MouseMove 640 540]"
      and ev = "MouseDown 1920 1080"
      and ?evs0.0 = "[MissionArrives (Resolved sampleMission) 1920 1080, StartPressed, MouseMove 180 690]
                  @ [MouseDown 1920 1080, MouseMove 640 540]"
      and ?ev0.0 = "MouseDown 1920 1080" and ?w0.0 = 1920 and ?h0.0 = 1080]
  have a: "objectiveAdvance True barrelAimState (handleShoot sampleRnd 1920 1080 barrelAimState)"
    using T1 barrelAimState_facts(1,2,5)
    unfolding barrelAimState_run barrelAimState_p0_run
    by simp
  have b: "objectiveAdvance True barrelAimState_p0 (handleShoot_p0 sampleRnd 1920 1080 barrelAimState_p0)"
    using T1 barrelAimState_p0_facts(1,2,5)
    unfolding barrelAimState_run barrelAimState_p0_run
    by simp
  have c: "objectiveAdvance True targetAimState (handleShoot sampleRnd 1920 1080 targetAimState)"
    using T2 targetAimState_facts(1,2,5)
    unfolding targetAimState_run targetAimState_p0_run
    by simp
  have d: "objectiveAdvance True targetAimState_p0 (handleShoot_p0 sampleRnd 1920 1080 targetAimState_p0)"
    using T2 targetAimState_p0_facts(1,2,5)
    unfolding targetAimState_run targetAimState_p0_run
    by simp
  show ?thesis
    using a b c d barrelAimState_facts barrelAimState_p0_facts targetAimState_facts targetAimState_p0_facts
    by (simp add: objectiveAdvance_def)
qed

end
